(* ===== verification/Prelude.thy ===== *)
theory Prelude
  imports Complex_Main "HOL-Library.Word" "HOL-Library.AList" "HOL-Library.List_Lexorder"
    "HOL-Library.Char_ord"
begin

text \<open>
  Shared vocabulary of the development: names for Go's machine types, Go maps as association
  lists with distinct keys, big-endian integers, decimal printing of unsigned integers, and a
  generic notion of reachable state. The component theories import this one and take their
  automation from the collections declared here.

  Conventions. An unsigned Go integer whose width matters is a word; a Go \<open>int\<close> that only
  counts is an \<open>int\<close> or \<open>nat\<close>. A \<open>float64\<close> is a rational number: the model computes exactly
  where the code rounds. A \<open>time.Time\<close> is the number of nanoseconds since Go's zero time, so
  \<open>t.IsZero()\<close> is \<open>t = 0\<close>; a \<open>time.Duration\<close> is a number of nanoseconds. A Go string is a
  list of bytes.
\<close>

unbundle bit_operations_syntax

named_theorems gomap \<open>laws of the association-list model of Go maps\<close>

type_synonym u8 = "8 word"
type_synonym u16 = "16 word"
type_synonym u32 = "32 word"
type_synonym u64 = "64 word"
type_synonym bytes = "u8 list"
type_synonym gotime = int
type_synonym duration = int
type_synonym float64 = rat

text \<open>A QUIC connection, and the control stream opened on it, is known by a number.\<close>

type_synonym conn = nat

section \<open>Durations\<close>

abbreviation (input) second :: duration where "second \<equiv> 1000000000"

abbreviation (input) hour :: duration where "hour \<equiv> 3600 * 1000000000"

definition dur_seconds :: "duration \<Rightarrow> float64" where
  "dur_seconds d = of_int d / 1000000000"

lemma dur_seconds_pos [simp]: "0 < dur_seconds d \<longleftrightarrow> 0 < d"
  by (simp add: dur_seconds_def)

lemma dur_seconds_0 [simp]: "dur_seconds 0 = 0"
  by (simp add: dur_seconds_def)

lemma dur_seconds_nonneg [simp]: "0 \<le> dur_seconds d \<longleftrightarrow> 0 \<le> d"
  by (simp add: dur_seconds_def)

lemma dur_seconds_add: "dur_seconds (a + b) = dur_seconds a + dur_seconds b"
  by (simp add: dur_seconds_def add_divide_distrib)

lemma dur_seconds_diff: "dur_seconds (a - b) = dur_seconds a - dur_seconds b"
  by (simp add: dur_seconds_def diff_divide_distrib)

lemma dur_seconds_mono: "a \<le> b \<Longrightarrow> dur_seconds a \<le> dur_seconds b"
  by (simp add: dur_seconds_def divide_right_mono)

section \<open>Go maps\<close>

text \<open>
  A Go map is an association list whose keys are distinct. The list order stands for one of the
  orders in which Go may range over the map; no theorem depends on which one.
\<close>

type_synonym ('k, 'v) gomap = "('k \<times> 'v) list"

definition mget :: "('k, 'v) gomap \<Rightarrow> 'k \<Rightarrow> 'v option" where
  "mget m k = map_of m k"

definition mput :: "('k, 'v) gomap \<Rightarrow> 'k \<Rightarrow> 'v \<Rightarrow> ('k, 'v) gomap" where
  "mput m k v = AList.update k v m"

definition mdel :: "('k, 'v) gomap \<Rightarrow> 'k \<Rightarrow> ('k, 'v) gomap" where
  "mdel m k = AList.delete k m"

definition mwf :: "('k, 'v) gomap \<Rightarrow> bool" where
  "mwf m = distinct (map fst m)"

definition mkeys :: "('k, 'v) gomap \<Rightarrow> 'k set" where
  "mkeys m = fst ` set m"

lemma mget_empty [simp, gomap]: "mget [] k = None"
  by (simp add: mget_def)

lemma mget_Cons [gomap]: "mget ((k, v) # m) k' = (if k' = k then Some v else mget m k')"
  by (simp add: mget_def)

lemma mget_put [simp, gomap]: "mget (mput m k v) k' = (if k' = k then Some v else mget m k')"
  by (simp add: mget_def mput_def update_conv')

lemma mget_del [simp, gomap]: "mget (mdel m k) k' = (if k' = k then None else mget m k')"
  by (simp add: mget_def mdel_def delete_conv')

lemma mwf_empty [simp, gomap]: "mwf []"
  by (simp add: mwf_def)

lemma mwf_put [simp, gomap]: "mwf m \<Longrightarrow> mwf (mput m k v)"
  by (simp add: mwf_def mput_def distinct_update)

lemma mwf_del [simp, gomap]: "mwf m \<Longrightarrow> mwf (mdel m k)"
  by (simp add: mwf_def mdel_def distinct_delete)

lemma mget_Some_in: "mget m k = Some v \<Longrightarrow> (k, v) \<in> set m"
  by (simp add: mget_def map_of_SomeD)

lemma mget_iff_in: "mwf m \<Longrightarrow> mget m k = Some v \<longleftrightarrow> (k, v) \<in> set m"
  by (simp add: mget_def mwf_def)

lemma mget_None_iff: "mget m k = None \<longleftrightarrow> k \<notin> mkeys m"
  by (simp add: mget_def mkeys_def map_of_eq_None_iff)

lemma mkeys_iff: "k \<in> mkeys m \<longleftrightarrow> (\<exists>v. mget m k = Some v)"
  using mget_None_iff [of m k] by (cases "mget m k") auto

lemma mkeys_put [simp, gomap]: "mkeys (mput m k v) = insert k (mkeys m)"
  by (auto simp: mkeys_iff split: if_splits)

lemma mkeys_del [simp, gomap]: "mkeys (mdel m k) = mkeys m - {k}"
  by (auto simp: mkeys_iff split: if_splits)

lemma mdel_notin: "mget m k = None \<Longrightarrow> mdel m k = m"
  by (simp add: mdel_def mget_None_iff mkeys_def)

text \<open>A put of a fresh key appends the entry; a delete is a filter.\<close>

lemma mput_fresh: "mget m k = None \<Longrightarrow> mput m k v = m @ [(k, v)]"
  by (induction m) (auto simp: mput_def mget_def split: if_splits)

lemma mput_set_subset: "set (mput m k v) \<subseteq> insert (k, v) (set m)"
  by (induction m) (auto simp: mput_def)

lemma mdel_filter: "mdel m k = filter (\<lambda>e. fst e \<noteq> k) m"
  by (auto simp: mdel_def AList.delete_eq intro!: filter_cong)

lemma set_mput_fresh: "mget m k = None \<Longrightarrow> set (mput m k v) = insert (k, v) (set m)"
  by (simp add: mput_fresh)

lemma set_mdel: "set (mdel m k) = {e \<in> set m. fst e \<noteq> k}"
  by (simp add: mdel_filter)

section \<open>Big-endian integers\<close>

text \<open>
  \<open>binary.BigEndian.PutUint64\<close> and \<open>PutUint32\<close> store the most significant byte first;
  \<open>Uint64\<close> and \<open>Uint32\<close> read it back. Both are stated for any width: \<open>be_put n v\<close> is the
  list of the \<open>n\<close> bytes \<open>byte(v >> 8*(n-1))\<close>, \dots, \<open>byte(v)\<close>.
\<close>

definition be_put :: "nat \<Rightarrow> 'a::len word \<Rightarrow> bytes" where
  "be_put n v = map (\<lambda>i. ucast (drop_bit (8 * (n - 1 - i)) v)) [0..<n]"

definition be_get :: "bytes \<Rightarrow> 'a::len word" where
  "be_get bs = foldl (\<lambda>acc b. push_bit 8 acc OR ucast b) 0 bs"

lemma length_be_put [simp]: "length (be_put n v) = n"
  by (simp add: be_put_def)

lemma be_put_Suc: "be_put (Suc n) v = be_put n (drop_bit 8 v) @ [ucast v]"
proof -
  have "map (\<lambda>i. ucast (drop_bit (8 * (n - i)) v) :: u8) [0..<n]
      = map (\<lambda>i. ucast (drop_bit (8 * (n - 1 - i)) (drop_bit 8 v))) [0..<n]"
    by (rule map_cong) (auto simp: algebra_simps intro!: arg_cong [where f = "\<lambda>k. ucast (drop_bit k v)"])
  then show ?thesis by (simp add: be_put_def)
qed

lemma be_get_snoc: "be_get (bs @ [b]) = push_bit 8 (be_get bs) OR ucast b"
  by (simp add: be_get_def)

text \<open>Reading back what was stored keeps the low \<open>8 * n\<close> bits.\<close>

lemma be_get_put: "be_get (be_put n v) = take_bit (8 * n) v"
proof (induction n arbitrary: v)
  case 0
  then show ?case by (simp add: be_put_def be_get_def)
next
  case (Suc n)
  show ?case
    by (simp add: be_put_Suc be_get_snoc Suc.IH)
      (rule bit_word_eqI, auto simp: bit_simps)
qed

lemma be_get_put64 [simp]: "be_get (be_put 8 (v :: u64)) = v"
  by (simp add: be_get_put take_bit_word_eq_self)

lemma be_get_put32 [simp]: "be_get (be_put 4 (v :: u32)) = v"
  by (simp add: be_get_put take_bit_word_eq_self)

text \<open>Incrementing a word that is not the last one.\<close>

lemma unat_plus_one:
  fixes w :: "'a::len word"
  assumes "unat w + 1 < 2 ^ LENGTH('a)"
  shows "unat (w + 1) = unat w + 1"
proof -
  have "w + 1 = of_nat (unat w + 1)" by simp
  then show ?thesis using assms unat_of_nat [of "unat w + 1", where 'a = 'a] by (metis mod_less)
qed

text \<open>Storing what was read gives the bytes back, when the word is wide enough.\<close>

lemma bit_be_get: "bit (be_get bs :: 'a::len word) k \<Longrightarrow> k < 8 * length bs"
proof (induction bs arbitrary: k rule: rev_induct)
  case Nil
  then show ?case by (simp add: be_get_def)
next
  case (snoc b bs)
  from snoc.prems have "bit (push_bit 8 (be_get bs) :: 'a word) k \<or> bit (ucast b :: 'a word) k"
    by (simp add: be_get_snoc bit_or_iff)
  then show ?case
  proof
    assume "bit (push_bit 8 (be_get bs) :: 'a word) k"
    then have "8 \<le> k" and "bit (be_get bs :: 'a word) (k - 8)"
      by (auto simp: bit_push_bit_iff)
    with snoc.IH [of "k - 8"] show ?thesis by simp
  next
    assume "bit (ucast b :: 'a word) k"
    then have "k < 8" by (auto simp: bit_ucast_iff dest: bit_imp_le_length)
    then show ?thesis by simp
  qed
qed

lemma be_put_get:
  "8 * length bs \<le> LENGTH('a::len) \<Longrightarrow> be_put (length bs) (be_get bs :: 'a word) = bs"
proof (induction bs rule: rev_induct)
  case Nil
  then show ?case by (simp add: be_put_def)
next
  case (snoc b bs)
  have low: "ucast (push_bit 8 (be_get bs :: 'a word) OR ucast b :: 'a word) = b"
    using snoc.prems by (intro bit_word_eqI) (auto simp: bit_simps)
  have high: "drop_bit 8 (push_bit 8 (be_get bs) OR ucast b) = (be_get bs :: 'a word)"
  proof (rule bit_word_eqI)
    fix k
    assume k: "k < LENGTH('a)"
    have "8 + k < LENGTH('a)" if "bit (be_get bs :: 'a word) k"
      using bit_be_get [OF that] snoc.prems by simp
    then show "bit (drop_bit 8 (push_bit 8 (be_get bs) OR ucast b) :: 'a word) k
      = bit (be_get bs :: 'a word) k"
      by (auto simp: bit_simps dest: bit_imp_le_length)
  qed
  from snoc.prems have "be_put (length bs) (be_get bs :: 'a word) = bs"
    by (intro snoc.IH) simp
  with low high show ?case by (simp add: be_put_Suc be_get_snoc)
qed

section \<open>Decimal printing\<close>

text \<open>\<open>fmt.Sprintf("%d", n)\<close> and \<open>strconv.Itoa\<close> on a non-negative integer.\<close>

definition digit_char :: "nat \<Rightarrow> char" where
  "digit_char d = char_of (48 + d)"

fun show_nat :: "nat \<Rightarrow> string" where
  "show_nat n = (if n < 10 then [digit_char n] else show_nat (n div 10) @ [digit_char (n mod 10)])"

declare show_nat.simps [simp del]

definition read_digits :: "string \<Rightarrow> nat" where
  "read_digits s = foldl (\<lambda>acc c. 10 * acc + (of_char c - 48)) 0 s"

lemma of_digit_char: "d < 10 \<Longrightarrow> of_char (digit_char d) = 48 + d"
  by (simp add: digit_char_def of_char_of)

lemma read_show_nat [simp]: "read_digits (show_nat n) = n"
proof (induction n rule: show_nat.induct)
  case (1 n)
  show ?case
  proof (cases "n < 10")
    case True
    then show ?thesis by (simp add: show_nat.simps [of n] read_digits_def of_digit_char)
  next
    case False
    with "1.IH" have "read_digits (show_nat (n div 10)) = n div 10" by simp
    with False show ?thesis
      by (simp add: show_nat.simps [of n] read_digits_def of_digit_char)
  qed
qed

lemma show_nat_inject [simp]: "show_nat m = show_nat n \<longleftrightarrow> m = n"
  by (metis read_show_nat)

text \<open>The same of any integer.\<close>

definition show_int :: "int \<Rightarrow> string" where
  "show_int i = (if i < 0 then CHR ''-'' # show_nat (nat (- i)) else show_nat (nat i))"

text \<open>The decimal name of a session id, which keys the QoS tracker.\<close>

definition show_u64 :: "u64 \<Rightarrow> string" where
  "show_u64 w = show_nat (unat w)"

lemma show_u64_inject [simp]: "show_u64 a = show_u64 b \<longleftrightarrow> a = b"
  by (simp add: show_u64_def word_unat_eq_iff)

section \<open>Reachable states\<close>

inductive reach :: "('s \<Rightarrow> bool) \<Rightarrow> ('s \<Rightarrow> 's \<Rightarrow> bool) \<Rightarrow> 's \<Rightarrow> bool"
  for start :: "'s \<Rightarrow> bool" and trans :: "'s \<Rightarrow> 's \<Rightarrow> bool" where
  reach_start: "start s \<Longrightarrow> reach start trans s"
| reach_step: "reach start trans s \<Longrightarrow> trans s t \<Longrightarrow> reach start trans t"

text \<open>The interface of an inductive invariant: what a component proves of one step.\<close>

locale inductive_invariant =
  fixes start :: "'s \<Rightarrow> bool" and trans :: "'s \<Rightarrow> 's \<Rightarrow> bool" and holds :: "'s \<Rightarrow> bool"
  assumes holds_start: "start s \<Longrightarrow> holds s"
    and holds_step: "trans s t \<Longrightarrow> holds s \<Longrightarrow> holds t"
begin

lemma reach_holds: "reach start trans s \<Longrightarrow> holds s"
  by (induction rule: reach.induct) (blast intro: holds_start holds_step)+

end

end
