(* ===== verification/Proto.thy ===== *)
theory Proto
  imports Prelude
begin

text \<open>
  The control protocol and the datagram codec of \<^verbatim>\<open>internal/proto/proto.go\<close>: the control
  envelope with all its fields, length-prefixed framing on a byte stream, and the session-id
  prefix of every data-plane datagram.

  \<open>encoding/json\<close> enters as two arguments, \<open>marshal\<close> and \<open>unmarshal\<close>: framing is proved for
  every codec for which unmarshalling a marshalled message gives the message back. An
  \<open>io.Writer\<close> is a write function on its state; an \<open>io.Reader\<close> is the list of bytes still to
  be read, at whose end the stream is closed.
\<close>

section \<open>Messages\<close>

definition ALPN :: string where
  "ALPN = ''revquic-phase0''"

definition CloseClientShutdown :: u64 where
  "CloseClientShutdown = 4200"

datatype msg_type =
  MsgRegister | MsgRegisterOK | MsgSessionStart | MsgSessionEnd | MsgSessionSuspend
| MsgConnect | MsgConnectOK | MsgError | MsgSignal | MsgReport | MsgPing | MsgPong
| MsgNodeStatus

record exit_info =
  ei_NodeID :: string
  ei_Name :: string
  ei_Region :: string
  ei_System :: string
  ei_ActiveUsers :: int
  ei_Capacity :: int

record control =
  c_Type :: msg_type
  c_Token :: string
  c_NodeID :: string
  c_Region :: string
  c_Capacity :: int
  c_Name :: string
  c_RequestedRegion :: string
  c_RequestedExit :: string
  c_ResumeKey :: string
  c_ListExits :: bool
  c_ExitList :: "exit_info list"
  c_SessionID :: u64
  c_ClientIP :: string
  c_Netmask :: string
  c_MTU :: int
  c_StunURL :: string
  c_TurnURL :: string
  c_TurnUser :: string
  c_TurnPass :: string
  c_Error :: string
  c_Signal :: bytes
  c_Nonce :: string
  c_BytesUp :: u64
  c_BytesDown :: u64
  c_ThroughputBps :: float64
  c_Drops :: u64
  c_RTTms :: int
  c_Direct :: bool
  c_Host :: string
  c_TunName :: string
  c_PathKind :: string
  c_UsingStun :: bool
  c_UsingTurn :: bool
  c_OS :: string
  c_CPUPct :: float64
  c_MemPct :: float64
  c_DiskPct :: float64
  c_TS :: int

text \<open>A composite literal \<open>Control{Type: t}\<close>: every field not named has its zero value.\<close>

definition control_of :: "msg_type \<Rightarrow> control" where
  "control_of t = \<lparr>
     c_Type = t, c_Token = '''', c_NodeID = '''', c_Region = '''', c_Capacity = 0, c_Name = '''',
     c_RequestedRegion = '''', c_RequestedExit = '''', c_ResumeKey = '''', c_ListExits = False,
     c_ExitList = [], c_SessionID = 0, c_ClientIP = '''', c_Netmask = '''', c_MTU = 0,
     c_StunURL = '''', c_TurnURL = '''', c_TurnUser = '''', c_TurnPass = '''', c_Error = '''',
     c_Signal = [], c_Nonce = '''', c_BytesUp = 0, c_BytesDown = 0, c_ThroughputBps = 0,
     c_Drops = 0, c_RTTms = 0, c_Direct = False, c_Host = '''', c_TunName = '''', c_PathKind = '''',
     c_UsingStun = False, c_UsingTurn = False, c_OS = '''', c_CPUPct = 0, c_MemPct = 0,
     c_DiskPct = 0, c_TS = 0\<rparr>"

definition error_msg :: "string \<Rightarrow> control" where
  "error_msg e = (control_of MsgError)\<lparr>c_Error := e\<rparr>"

lemma control_of_fields [simp]:
  "c_Type (control_of t) = t" "c_SessionID (control_of t) = 0" "c_Error (control_of t) = ''''"
  "c_ExitList (control_of t) = []" "c_ClientIP (control_of t) = ''''"
  by (simp_all add: control_of_def)

lemma error_msg_fields [simp]: "c_Type (error_msg e) = MsgError" "c_Error (error_msg e) = e"
  by (simp_all add: error_msg_def)

section \<open>Framing\<close>

datatype frame_error =
  MarshalError string | UnmarshalError string | WriteError string
| TooLarge nat | EOF | UnexpectedEOF

definition maxControl :: nat where
  "maxControl = 2 ^ 20"

definition WriteControl ::
  "(control \<Rightarrow> string + bytes) \<Rightarrow> ('w \<Rightarrow> bytes \<Rightarrow> string option \<times> 'w) \<Rightarrow> 'w \<Rightarrow> control
    \<Rightarrow> frame_error option \<times> 'w" where
  "WriteControl marshal write w m =
    (case marshal m of
       Inl e \<Rightarrow> (Some (MarshalError e), w)
     | Inr b \<Rightarrow>
         if length b > maxControl then (Some (TooLarge (length b)), w)
         else (case write w (be_put 4 (of_nat (length b) :: u32)) of
                 (Some e, w1) \<Rightarrow> (Some (WriteError e), w1)
               | (None, w1) \<Rightarrow>
                   (case write w1 b of
                      (Some e, w2) \<Rightarrow> (Some (WriteError e), w2)
                    | (None, w2) \<Rightarrow> (None, w2))))"

text \<open>
  \<open>io.ReadFull\<close> on the rest of a stream: \<open>EOF\<close> when nothing is left, \<open>ErrUnexpectedEOF\<close> when
  too little is; reading no byte always succeeds.
\<close>

definition ReadFull :: "nat \<Rightarrow> bytes \<Rightarrow> (frame_error + bytes) \<times> bytes" where
  "ReadFull n r =
    (if n \<le> length r then (Inr (take n r), drop n r)
     else (Inl (if r = [] then EOF else UnexpectedEOF), []))"

definition ReadControl ::
  "(bytes \<Rightarrow> string + control) \<Rightarrow> bytes \<Rightarrow> (frame_error + control) \<times> bytes" where
  "ReadControl unmarshal r =
    (case ReadFull 4 r of
       (Inl e, r1) \<Rightarrow> (Inl e, r1)
     | (Inr hdr, r1) \<Rightarrow>
         let n = (be_get hdr :: u32) in
         if unat n > maxControl then (Inl (TooLarge (unat n)), r1)
         else (case ReadFull (unat n) r1 of
                 (Inl e, r2) \<Rightarrow> (Inl e, r2)
               | (Inr buf, r2) \<Rightarrow>
                   (case unmarshal buf of
                      Inl e \<Rightarrow> (Inl (UnmarshalError e), r2)
                    | Inr m \<Rightarrow> (Inr m, r2))))"

text \<open>An in-memory writer that never fails, as \<open>bytes.Buffer\<close> is.\<close>

definition buf_write :: "bytes \<Rightarrow> bytes \<Rightarrow> string option \<times> bytes" where
  "buf_write w b = (None, w @ b)"

text \<open>Messages written one after the other, stopping at the first error.\<close>

fun write_all ::
  "(control \<Rightarrow> string + bytes) \<Rightarrow> bytes \<Rightarrow> control list \<Rightarrow> frame_error option \<times> bytes" where
  "write_all marshal w [] = (None, w)"
| "write_all marshal w (m # ms) =
    (case WriteControl marshal buf_write w m of
       (Some e, w') \<Rightarrow> (Some e, w')
     | (None, w') \<Rightarrow> write_all marshal w' ms)"

text \<open>The read loop of a control connection: messages until the first error.\<close>

function read_loop ::
  "(bytes \<Rightarrow> string + control) \<Rightarrow> bytes \<Rightarrow> control list \<times> frame_error" where
  "read_loop unmarshal r =
    (case ReadControl unmarshal r of
       (Inl e, r') \<Rightarrow> ([], e)
     | (Inr m, r') \<Rightarrow> (let (ms, e) = read_loop unmarshal r' in (m # ms, e)))"
  by pat_completeness auto

lemma ReadFull_Inr [simp]:
  "ReadFull n r = (Inr b, r') \<longleftrightarrow> n \<le> length r \<and> b = take n r \<and> r' = drop n r"
  by (auto simp: ReadFull_def)

lemma ReadControl_consumes: "ReadControl u r = (Inr m, r') \<Longrightarrow> length r' < length r"
  by (auto simp: ReadControl_def Let_def split: prod.splits sum.splits if_splits)

termination read_loop
  by (relation "measure (\<lambda>(u, r). length r)") (auto dest: ReadControl_consumes[OF sym])

declare read_loop.simps [simp del]

section \<open>Datagrams\<close>

definition DatagramHeaderLen :: nat where
  "DatagramHeaderLen = 8"

definition SafeTunnelMTU :: nat where
  "SafeTunnelMTU = 1200"

definition EncodeDatagram :: "u64 \<Rightarrow> bytes \<Rightarrow> bytes" where
  "EncodeDatagram sessionID pkt = be_put DatagramHeaderLen sessionID @ pkt"

datatype datagram_error = ShortDatagram nat

definition DecodeDatagram :: "bytes \<Rightarrow> datagram_error + (u64 \<times> bytes)" where
  "DecodeDatagram b =
    (if length b < DatagramHeaderLen then Inl (ShortDatagram (length b))
     else Inr (be_get (take DatagramHeaderLen b), drop DatagramHeaderLen b))"

section \<open>Framing is a faithful channel\<close>

lemma frame_header: "length b \<le> maxControl \<Longrightarrow> unat (of_nat (length b) :: u32) = length b"
  by (simp add: maxControl_def unat_of_nat)

lemma WriteControl_buf:
  assumes "marshal m = Inr b" and "length b \<le> maxControl"
  shows "WriteControl marshal buf_write w m =
    (None, w @ be_put 4 (of_nat (length b) :: u32) @ b)"
  using assms by (simp add: WriteControl_def buf_write_def)

lemma ReadControl_frame:
  assumes "unmarshal b = Inr m" and "length b \<le> maxControl"
  shows "ReadControl unmarshal (be_put 4 (of_nat (length b) :: u32) @ b @ rest) = (Inr m, rest)"
  using assms by (simp add: ReadControl_def ReadFull_def Let_def frame_header)

lemma write_all_read_loop:
  assumes "\<And>m. m \<in> set ms \<Longrightarrow>
      \<exists>b. marshal m = Inr b \<and> unmarshal b = Inr m \<and> length b \<le> maxControl"
  shows "\<exists>s. write_all marshal w ms = (None, w @ s) \<and> read_loop unmarshal s = (ms, EOF)"
  using assms
proof (induction ms arbitrary: w)
  case Nil
  show ?case by (simp add: read_loop.simps ReadControl_def ReadFull_def)
next
  case (Cons m ms)
  then obtain b where b: "marshal m = Inr b" "unmarshal b = Inr m" "length b \<le> maxControl"
    by auto
  let ?f = "be_put 4 (of_nat (length b) :: u32) @ b"
  from Cons.IH [of "w @ ?f"] Cons.prems obtain s where
    s: "write_all marshal (w @ ?f) ms = (None, (w @ ?f) @ s)" "read_loop unmarshal s = (ms, EOF)"
    by auto
  have "read_loop unmarshal (?f @ s) = (m # ms, EOF)"
    using ReadControl_frame [where unmarshal = unmarshal, OF b(2,3), of s] s(2) by (simp add: read_loop.simps [of unmarshal "_ @ _"])
  with s(1) WriteControl_buf [where marshal = marshal, OF b(1,3), of w] show ?case
    by (intro exI [of _ "?f @ s"]) simp
qed

section \<open>The datagram codec as an interface\<close>

text \<open>What the relay, the sessions and the exit rely on when they prefix and split datagrams.\<close>

locale datagram_codec =
  fixes enc :: "'id \<Rightarrow> 'pkt \<Rightarrow> 'dg" and dec :: "'dg \<Rightarrow> 'e + ('id \<times> 'pkt)"
  assumes dec_enc [simp]: "dec (enc i p) = Inr (i, p)"
    and enc_dec: "dec d = Inr (i, p) \<Longrightarrow> enc i p = d"
begin

lemma enc_inject: "enc i p = enc j q \<longleftrightarrow> i = j \<and> p = q"
  by (metis dec_enc prod.inject sum.inject(2))

lemma dec_iff: "dec d = Inr (i, p) \<longleftrightarrow> d = enc i p"
  using enc_dec by auto

end

lemma Decode_Encode: "DecodeDatagram (EncodeDatagram sid pkt) = Inr (sid, pkt)"
  by (simp add: DecodeDatagram_def EncodeDatagram_def DatagramHeaderLen_def)

lemma Encode_Decode:
  assumes "DecodeDatagram d = Inr (sid, pkt)"
  shows "EncodeDatagram sid pkt = d"
proof -
  from assms have len: "8 \<le> length d" and sid: "sid = be_get (take 8 d)" and pkt: "pkt = drop 8 d"
    by (auto simp: DecodeDatagram_def DatagramHeaderLen_def split: if_splits)
  from len have "length (take 8 d) = 8" by simp
  then have "be_put 8 (be_get (take 8 d) :: u64) = take 8 d"
    using be_put_get [where 'a = 64, of "take 8 d"] by simp
  with sid pkt show ?thesis by (simp add: EncodeDatagram_def DatagramHeaderLen_def)
qed

interpretation dgram: datagram_codec EncodeDatagram DecodeDatagram
  by unfold_locales (simp_all add: Decode_Encode Encode_Decode)

lemma length_EncodeDatagram: "length (EncodeDatagram sid pkt) = DatagramHeaderLen + length pkt"
  by (simp add: EncodeDatagram_def)

section \<open>Properties\<close>



text \<open>
  A torn frame is never taken for a message: when the connection ends anywhere inside a frame,
  \<open>ReadControl\<close> reports the end of the stream (a clean one exactly at the two read boundaries)
  and leaves nothing behind; and a header that announces more than 1 MiB is refused before a
  byte of the body is read.
\<close>

theorem ReadControl_torn_or_oversized:
  assumes "length b \<le> maxControl" and "k < 4 + length b"
  shows "ReadControl u (take k (be_put 4 (of_nat (length b) :: u32) @ b))
        = (Inl (if k = 0 \<or> k = 4 then EOF else UnexpectedEOF), [])
    \<and> (length hdr = 4 \<and> unat (be_get hdr :: u32) > maxControl
        \<longrightarrow> ReadControl u (hdr @ rest) = (Inl (TooLarge (unat (be_get hdr :: u32))), rest))"
proof
  let ?h = "be_put 4 (of_nat (length b) :: u32)"
  show "ReadControl u (take k (?h @ b)) = (Inl (if k = 0 \<or> k = 4 then EOF else UnexpectedEOF), [])"
  proof (cases "k < 4")
    case True
    then have "length (take k (?h @ b)) = k" and "take k (?h @ b) = [] \<longleftrightarrow> k = 0"
      by (auto simp: length_0_conv [symmetric] simp del: length_0_conv)
    with True show ?thesis by (simp add: ReadControl_def ReadFull_def)
  next
    case False
    then have "take k (?h @ b) = ?h @ take (k - 4) b" by simp
    moreover have "\<not> maxControl < length b" and "k - 4 < length b"
      and "take (k - 4) b = [] \<longleftrightarrow> k = 4"
      using assms False by auto
    ultimately show ?thesis
      using False by (auto simp add: ReadControl_def ReadFull_def Let_def frame_header [OF assms(1)])
  qed
next
  show "length hdr = 4 \<and> unat (be_get hdr :: u32) > maxControl
      \<longrightarrow> ReadControl u (hdr @ rest) = (Inl (TooLarge (unat (be_get hdr :: u32))), rest)"
    by (simp add: ReadControl_def ReadFull_def Let_def)
qed

theorem ReadControl_torn_or_oversized_witness:
  "ReadControl (\<lambda>_. Inl ''json'') (take 5 (be_put 4 (of_nat (length [1, 2 :: u8]) :: u32) @ [1, 2]))
      = (Inl UnexpectedEOF, [])
   \<and> ReadControl (\<lambda>_. Inl ''json'') ([255, 255, 255, 255] @ [7])
      = (Inl (TooLarge (unat (be_get [255, 255, 255, 255] :: u32))), [7])"
proof -
  have big: "unat (be_get [255, 255, 255, 255] :: u32) > maxControl"
    by (simp add: be_get_def maxControl_def push_bit_eq_mult)
  show ?thesis
    using ReadControl_torn_or_oversized [where b = "[1, 2]" and k = 5
        and hdr = "[255, 255, 255, 255]" and rest = "[7]" and u = "\<lambda>_. Inl ''json''"] big
    by (simp add: maxControl_def)
qed

text \<open>
  The datagram codec: decoding inverts encoding and encoding inverts decoding, so distinct
  (session, packet) pairs have distinct datagrams; exactly the inputs shorter than the 8-byte
  header are refused; and a packet within the advertised tunnel MTU makes a datagram of at most
  1208 bytes.
\<close>

theorem datagram_codec_exact:
  "DecodeDatagram (EncodeDatagram sid pkt) = Inr (sid, pkt)
   \<and> (EncodeDatagram sid pkt = EncodeDatagram sid' pkt' \<longleftrightarrow> sid = sid' \<and> pkt = pkt')
   \<and> (case DecodeDatagram d of
        Inl e \<Rightarrow> length d < 8 \<and> e = ShortDatagram (length d)
      | Inr (i, p) \<Rightarrow> 8 \<le> length d \<and> EncodeDatagram i p = d)
   \<and> (length pkt \<le> SafeTunnelMTU \<longleftrightarrow> length (EncodeDatagram sid pkt) \<le> 1208)"
proof -
  have "case DecodeDatagram d of
        Inl e \<Rightarrow> length d < 8 \<and> e = ShortDatagram (length d)
      | Inr (i, p) \<Rightarrow> 8 \<le> length d \<and> EncodeDatagram i p = d"
    using Encode_Decode [of d]
    by (auto simp: DecodeDatagram_def DatagramHeaderLen_def split: sum.splits)
  then show ?thesis
    by (simp add: Decode_Encode dgram.enc_inject length_EncodeDatagram SafeTunnelMTU_def
        DatagramHeaderLen_def)
qed

end
