(* ===== verification/NetIp.thy ===== *)
theory NetIp
  imports Prelude
begin

text \<open>
  The part of Go's \<^verbatim>\<open>net/netip\<close> the program uses: addresses, successor, prefixes, and the
  dotted-decimal text form of IPv4 with its parser (the parser's own scan, octet by octet). The
  text form of IPv6 enters as an argument.
\<close>

datatype addr = AddrZero | Addr4 u32 | Addr6 "128 word"

definition IsValid :: "addr \<Rightarrow> bool" where
  "IsValid a = (a \<noteq> AddrZero)"

fun Is4 :: "addr \<Rightarrow> bool" where
  "Is4 (Addr4 _) = True"
| "Is4 _ = False"

text \<open>\<open>Addr.Next\<close>: the zero (invalid) address after the last one.\<close>

fun Next :: "addr \<Rightarrow> addr" where
  "Next AddrZero = AddrZero"
| "Next (Addr4 w) = (if w + 1 = 0 then AddrZero else Addr4 (w + 1))"
| "Next (Addr6 w) = (if w + 1 = 0 then AddrZero else Addr6 (w + 1))"

record prefix =
  pfx_addr :: addr
  pfx_bits :: nat

fun prefix_contains :: "prefix \<Rightarrow> addr \<Rightarrow> bool" where
  "prefix_contains p (Addr4 a) =
    (case pfx_addr p of Addr4 b \<Rightarrow> drop_bit (32 - pfx_bits p) (a XOR b) = 0 | _ \<Rightarrow> False)"
| "prefix_contains p (Addr6 a) =
    (case pfx_addr p of Addr6 b \<Rightarrow> drop_bit (128 - pfx_bits p) (a XOR b) = 0 | _ \<Rightarrow> False)"
| "prefix_contains p AddrZero = False"

text \<open>\<open>Prefix.Masked\<close> clears the host bits.\<close>

definition Masked :: "prefix \<Rightarrow> prefix" where
  "Masked p = p\<lparr>pfx_addr :=
     (case pfx_addr p of
        Addr4 w \<Rightarrow> Addr4 (push_bit (32 - pfx_bits p) (drop_bit (32 - pfx_bits p) w))
      | Addr6 w \<Rightarrow> Addr6 (push_bit (128 - pfx_bits p) (drop_bit (128 - pfx_bits p) w))
      | AddrZero \<Rightarrow> AddrZero)\<rparr>"

text \<open>\<open>Addr.As4\<close> of an IPv4 address, and \<open>netip.AddrFrom4\<close>.\<close>

definition As4 :: "u32 \<Rightarrow> bytes" where
  "As4 w = be_put 4 w"

definition AddrFrom4 :: "bytes \<Rightarrow> addr" where
  "AddrFrom4 bs = Addr4 (be_get bs)"

section \<open>Text form\<close>

definition dot :: string where
  "dot = ''.''"

definition show_octet :: "u8 \<Rightarrow> string" where
  "show_octet b = show_nat (unat b)"

definition string4 :: "u32 \<Rightarrow> string" where
  "string4 w = (case As4 w of
      [a, b, c, d] \<Rightarrow> show_octet a @ dot @ show_octet b @ dot @ show_octet c @ dot @ show_octet d
    | _ \<Rightarrow> '''')"

fun AddrString :: "(128 word \<Rightarrow> string) \<Rightarrow> addr \<Rightarrow> string" where
  "AddrString show6 AddrZero = ''invalid IP''"
| "AddrString show6 (Addr4 w) = string4 w"
| "AddrString show6 (Addr6 w) = show6 w"

datatype parse_error =
  LeadingZero | OctetTooLarge | EmptyField | TooLong | TooShort | UnexpectedChar
| MissingDot | OtherParse string

text \<open>
  The scan of \<open>parseIPv4Fields\<close>: \<open>v\<close> and \<open>digLen\<close> are the value and length of the current
  octet, \<open>flds\<close> the octets already read. A dot is misplaced when it follows no digit or ends
  the text.
\<close>

definition is_digit_char :: "char \<Rightarrow> bool" where
  "is_digit_char c = (48 \<le> (of_char c :: nat) \<and> (of_char c :: nat) \<le> 57)"

fun parse4 :: "string \<Rightarrow> nat \<Rightarrow> nat \<Rightarrow> bytes \<Rightarrow> parse_error + bytes" where
  "parse4 [] v digLen flds =
    (if length flds < 3 then Inl TooShort else Inr (flds @ [of_nat v]))"
| "parse4 (c # cs) v digLen flds =
    (if is_digit_char c then
       if digLen = 1 \<and> v = 0 then Inl LeadingZero
       else let v' = v * 10 + (of_char c - 48) in
         if v' > 255 then Inl OctetTooLarge else parse4 cs v' (Suc digLen) flds
     else if c = CHR ''.'' then
       if digLen = 0 \<or> cs = [] then Inl EmptyField
       else if length flds = 3 then Inl TooLong
       else parse4 cs 0 0 (flds @ [of_nat v])
     else Inl UnexpectedChar)"

text \<open>\<open>netip.ParseAddr\<close>: the first dot or colon decides the family.\<close>

fun addr_family :: "string \<Rightarrow> char option" where
  "addr_family [] = None"
| "addr_family (c # cs) =
    (if c = CHR ''.'' \<or> c = CHR '':'' \<or> c = CHR ''%'' then Some c else addr_family cs)"

definition ParseAddr :: "(string \<Rightarrow> parse_error + addr) \<Rightarrow> string \<Rightarrow> parse_error + addr" where
  "ParseAddr parse6 s =
    (case addr_family s of
       None \<Rightarrow> Inl (OtherParse ''unable to parse IP'')
     | Some c \<Rightarrow>
         if c = CHR ''.'' then
           (case parse4 s 0 0 [] of Inl e \<Rightarrow> Inl e | Inr bs \<Rightarrow> Inr (AddrFrom4 bs))
         else if c = CHR '':'' then parse6 s
         else Inl (OtherParse ''missing IPv6 address''))"

text \<open>
  \<open>netip.ParsePrefix\<close>: the address before the last slash, then a bit count with no sign and no
  leading zero, at most the width of the address.
\<close>

definition max_bits :: "addr \<Rightarrow> nat" where
  "max_bits a = (if Is4 a then 32 else 128)"

definition parse_bits :: "string \<Rightarrow> nat option" where
  "parse_bits s =
    (if s = [] \<or> \<not> list_all is_digit_char s \<or> (length s > 1 \<and> hd s = CHR ''0'') then None
     else Some (read_digits s))"

definition ParsePrefix :: "(string \<Rightarrow> parse_error + addr) \<Rightarrow> string \<Rightarrow> parse_error + prefix" where
  "ParsePrefix parse6 s =
    (if CHR ''/'' \<notin> set s then Inl (OtherParse ''no slash'')
     else
       let bitsStr = rev (takeWhile (\<lambda>c. c \<noteq> CHR ''/'') (rev s));
           ipStr = take (length s - length bitsStr - 1) s
       in case ParseAddr parse6 ipStr of
            Inl e \<Rightarrow> Inl e
          | Inr ip \<Rightarrow>
              (case parse_bits bitsStr of
                 None \<Rightarrow> Inl (OtherParse ''bad bits after slash'')
               | Some n \<Rightarrow>
                   if n > max_bits ip then Inl (OtherParse ''prefix length out of range'')
                   else Inr \<lparr>pfx_addr = ip, pfx_bits = n\<rparr>))"

section \<open>The text form of an IPv4 address parses back\<close>

lemma of_char_digit: "d < 10 \<Longrightarrow> (of_char (digit_char d) :: nat) = 48 + d"
  by (simp add: digit_char_def of_char_of)

lemma digit_is_digit [simp]: "d < 10 \<Longrightarrow> is_digit_char (digit_char d)"
  by (simp add: is_digit_char_def of_char_digit)

lemma digit_not_sep:
  "d < 10 \<Longrightarrow> digit_char d \<noteq> CHR ''.'' \<and> digit_char d \<noteq> CHR '':'' \<and> digit_char d \<noteq> CHR ''%''"
proof -
  assume "d < 10"
  then have "is_digit_char (digit_char d)" by simp
  then show ?thesis by (auto simp: is_digit_char_def)
qed

lemma parse4_digit:
  assumes "d < 10" and "v * 10 + d \<le> 255" and "\<not> (digLen = 1 \<and> v = 0)"
  shows "parse4 (digit_char d # cs) v digLen fs = parse4 cs (v * 10 + d) (Suc digLen) fs"
  using assms by (auto simp: of_char_digit Let_def)

lemma parse4_first:
  "d < 10 \<Longrightarrow> parse4 (digit_char d # cs) 0 0 fs = parse4 cs d (Suc 0) fs"
  using parse4_digit [of d 0 0 cs fs] by simp

text \<open>One printed octet is consumed whole.\<close>

lemma show_nat_cases:
  "n < 256 \<Longrightarrow> show_nat n =
    (if n < 10 then [digit_char n]
     else if n < 100 then [digit_char (n div 10), digit_char (n mod 10)]
     else [digit_char (n div 100), digit_char (n div 10 mod 10), digit_char (n mod 10)])"
proof -
  have step: "show_nat m = (if m < 10 then [digit_char m]
      else show_nat (m div 10) @ [digit_char (m mod 10)])" for m
    by (rule show_nat.simps)
  assume n: "n < 256"
  consider "n < 10" | "10 \<le> n" "n < 100" | "100 \<le> n" by linarith
  then show ?thesis
  proof cases
    case 2
    then have "n div 10 < 10" by auto
    with 2 show ?thesis using step [of n] step [of "n div 10"] by simp
  next
    case 3
    with n have "n div 10 div 10 < 10" "\<not> n div 10 < 10" "n div 10 div 10 = n div 100"
      by (auto simp: div_mult2_eq [symmetric])
    with 3 show ?thesis using step [of n] step [of "n div 10"] step [of "n div 100"] by simp
  qed (use step [of n] in simp)
qed

lemma parse4_octet:
  assumes "n < 256"
  shows "\<exists>k. parse4 (show_nat n @ cs) 0 0 fs = parse4 cs n (Suc k) fs"
proof -
  consider "n < 10" | "10 \<le> n" "n < 100" | "100 \<le> n" by linarith
  then show ?thesis
  proof cases
    case 1
    then have "parse4 (show_nat n @ cs) 0 0 fs = parse4 cs n (Suc 0) fs"
      using assms by (simp only: show_nat_cases if_True append.simps parse4_first)
    then show ?thesis by blast
  next
    case 2
    then have d: "n div 10 < 10" "n mod 10 < 10" "n div 10 \<noteq> 0" "n div 10 * 10 + n mod 10 = n"
      by auto
    have "show_nat n = [digit_char (n div 10), digit_char (n mod 10)]"
      using 2 show_nat_cases [OF assms] by simp
    then have "parse4 (show_nat n @ cs) 0 0 fs = parse4 cs n (Suc (Suc 0)) fs"
      using assms d by (simp del: parse4.simps add: parse4_first parse4_digit)
    then show ?thesis by blast
  next
    case 3
    have m: "n div 100 = n div 10 div 10" by (simp add: div_mult2_eq [symmetric])
    from 3 assms have d: "n div 100 < 10" "n div 10 mod 10 < 10" "n mod 10 < 10" "n div 100 \<noteq> 0"
      "n div 10 \<noteq> 0" "n div 100 * 10 + n div 10 mod 10 = n div 10" "n div 10 * 10 + n mod 10 = n"
      "n div 10 \<le> 255"
      unfolding m by (auto simp: div_eq_0_iff)
    have "show_nat n = [digit_char (n div 100), digit_char (n div 10 mod 10), digit_char (n mod 10)]"
      using 3 show_nat_cases [OF assms] by simp
    then have "parse4 (show_nat n @ cs) 0 0 fs = parse4 cs n (Suc (Suc (Suc 0))) fs"
      using assms d by (simp del: parse4.simps add: parse4_first parse4_digit)
    then show ?thesis by blast
  qed
qed

lemma parse4_dot:
  "length fs < 3 \<Longrightarrow> cs \<noteq> [] \<Longrightarrow> parse4 (CHR ''.'' # cs) v (Suc k) fs = parse4 cs 0 0 (fs @ [of_nat v])"
  by (simp add: is_digit_char_def)

lemma octet_bound: "unat (b :: u8) < 256"
  using unsigned_less [of b, where 'a = nat] by simp

lemma parse4_show_dot:
  assumes "length fs < 3" and "cs \<noteq> []"
  shows "parse4 (show_octet b @ CHR ''.'' # cs) 0 0 fs = parse4 cs 0 0 (fs @ [b])"
proof -
  obtain k where "parse4 (show_nat (unat b) @ CHR ''.'' # cs) 0 0 fs
      = parse4 (CHR ''.'' # cs) (unat b) (Suc k) fs"
    using parse4_octet [of "unat b" "CHR ''.'' # cs" fs] octet_bound [of b] by blast
  with assms show ?thesis by (simp del: parse4.simps add: show_octet_def parse4_dot)
qed

lemma parse4_show_last:
  assumes "length fs = 3"
  shows "parse4 (show_octet b) 0 0 fs = Inr (fs @ [b])"
  using parse4_octet [of "unat b" "[]" fs] octet_bound [of b] assms
  by (auto simp: show_octet_def)

lemma show_nat_ne [simp]: "show_nat n \<noteq> []"
  by (simp add: show_nat.simps [of n])

lemma list4: "length xs = 4 \<Longrightarrow> \<exists>a b c d. xs = [a, b, c, d]"
  by (auto simp: numeral_eq_Suc length_Suc_conv)

lemma parse4_string4: "parse4 (string4 w) 0 0 [] = Inr (As4 w)"
proof -
  obtain a b c d where w: "As4 w = [a, b, c, d]"
    using list4 [of "As4 w"] by (auto simp: As4_def)
  have ne: "show_octet x \<noteq> []" for x by (simp add: show_octet_def)
  show ?thesis
    by (simp add: string4_def w dot_def parse4_show_dot parse4_show_last ne)
qed

lemma family_digits: "(\<And>c. c \<in> set s \<Longrightarrow> c \<noteq> CHR ''.'' \<and> c \<noteq> CHR '':'' \<and> c \<noteq> CHR ''%'') \<Longrightarrow>
    addr_family (s @ t) = addr_family t"
  by (induction s) auto

lemma set_show_nat: "c \<in> set (show_nat n) \<Longrightarrow> \<exists>d<10. c = digit_char d"
proof (induction n rule: show_nat.induct)
  case (1 n)
  then show ?case
    using show_nat.simps [of n] by (cases "n < 10") (auto intro: exI [of _ "n mod 10"])
qed

lemma family_show_nat: "addr_family (show_nat n @ t) = addr_family t"
proof (rule family_digits)
  fix c assume "c \<in> set (show_nat n)"
  then obtain d where "d < 10" "c = digit_char d" using set_show_nat by blast
  then show "c \<noteq> CHR ''.'' \<and> c \<noteq> CHR '':'' \<and> c \<noteq> CHR ''%''"
    using digit_not_sep by simp
qed

lemma family_string4: "addr_family (string4 w) = Some (CHR ''.'')"
proof -
  obtain a b c d where w: "As4 w = [a, b, c, d]"
    using list4 [of "As4 w"] by (auto simp: As4_def)
  show ?thesis
    by (simp add: string4_def w dot_def show_octet_def family_show_nat)
qed

lemma ParseAddr_string4 [simp]: "ParseAddr parse6 (string4 w) = Inr (Addr4 w)"
  by (simp add: ParseAddr_def family_string4 parse4_string4 AddrFrom4_def) (simp add: As4_def)

lemma string4_inject [simp]: "string4 v = string4 w \<longleftrightarrow> v = w"
proof
  assume "string4 v = string4 w"
  then have "ParseAddr (\<lambda>_. Inl TooLong) (string4 v) = ParseAddr (\<lambda>_. Inl TooLong) (string4 w)"
    by simp
  then show "v = w" by simp
qed simp

end
