(* ===== verification/IpPool.thy ===== *)
theory IpPool
  imports NetIp
begin

text \<open>
  \<^verbatim>\<open>internal/ippool/ippool.go\<close>: the VPN address pool. The pool, \<open>New\<close>, \<open>usable\<close>,
  \<open>isBroadcast\<close>, \<open>Allocate\<close> with its rotating cursor and its sweep bound, \<open>Release\<close> and
  \<open>InUse\<close>. The two Go maps of booleans hold \<open>true\<close> only, so they are sets. The lemmas show that
  an IPv4 pool hands out exactly the usable addresses, never one twice, and answers
  \<open>ErrExhausted\<close> only when none is free.
\<close>

record pool =
  p_prefix :: prefix
  p_reserved :: "addr set"
  p_used :: "addr set"
  p_next :: addr

datatype alloc_error = ErrExhausted | NegativeShift

definition pool_New ::
  "(string \<Rightarrow> parse_error + addr) \<Rightarrow> string \<Rightarrow> addr list \<Rightarrow> parse_error + pool" where
  "pool_New parse6 cidr reserved =
    (case ParsePrefix parse6 cidr of
       Inl e \<Rightarrow> Inl e
     | Inr pfx0 \<Rightarrow>
         (let pfx = Masked pfx0
          in Inr \<lparr>p_prefix = pfx, p_reserved = set reserved, p_used = {},
                  p_next = Next (pfx_addr pfx)\<rparr>))"

text \<open>All host bits of an IPv4 address set; bit \<open>i\<close> sits in byte \<open>3 - i/8\<close>.\<close>

definition isBroadcast :: "pool \<Rightarrow> addr \<Rightarrow> bool" where
  "isBroadcast p a =
    (case a of
       Addr4 w \<Rightarrow>
         (let bits = As4 w; hostBits = 32 - pfx_bits (p_prefix p)
          in list_all (\<lambda>i. (bits ! (3 - i div 8)) AND push_bit (i mod 8) 1 \<noteq> 0) [0..<hostBits])
     | _ \<Rightarrow> False)"

definition usable :: "pool \<Rightarrow> addr \<Rightarrow> bool" where
  "usable p a =
    (if \<not> prefix_contains (p_prefix p) a then False
     else if a = pfx_addr (p_prefix p) then False
     else if isBroadcast p a then False
     else a \<notin> p_reserved p)"

text \<open>
  The sweep bound \<open>1<<(32-bits)+1\<close>. Go panics on a negative shift count, so an IPv6 prefix
  longer than 32 bits has no bound.
\<close>

definition sweep_bound :: "pool \<Rightarrow> nat option" where
  "sweep_bound p =
    (if pfx_bits (p_prefix p) > 32 then None else Some (2 ^ (32 - pfx_bits (p_prefix p)) + 1))"

definition wrap_addr :: "pool \<Rightarrow> addr \<Rightarrow> addr" where
  "wrap_addr p a =
    (if \<not> IsValid a \<or> \<not> prefix_contains (p_prefix p) a then Next (pfx_addr (p_prefix p)) else a)"

function alloc_loop :: "pool \<Rightarrow> addr \<Rightarrow> nat \<Rightarrow> (alloc_error + addr) \<times> pool" where
  "alloc_loop p a0 i =
    (let a = wrap_addr p a0 in
     if usable p a \<and> a \<notin> p_used p then
       (Inr a, p\<lparr>p_used := insert a (p_used p), p_next := Next a\<rparr>)
     else
       (case sweep_bound p of
          None \<Rightarrow> (Inl NegativeShift, p)
        | Some bnd \<Rightarrow> if i > bnd then (Inl ErrExhausted, p) else alloc_loop p (Next a) (Suc i)))"
  by pat_completeness auto
termination
  by (relation "measure (\<lambda>(p, a, i). (case sweep_bound p of None \<Rightarrow> 0 | Some bnd \<Rightarrow> bnd + 1) - i)") auto

declare alloc_loop.simps [simp del]

definition Allocate :: "pool \<Rightarrow> (alloc_error + addr) \<times> pool" where
  "Allocate p = alloc_loop p (p_next p) 0"

definition Release :: "addr \<Rightarrow> pool \<Rightarrow> pool" where
  "Release a p = p\<lparr>p_used := p_used p - {a}\<rparr>"

definition InUse :: "pool \<Rightarrow> nat" where
  "InUse p = card (p_used p)"

section \<open>IPv4 prefixes as intervals\<close>

text \<open>A pool over an IPv4 prefix whose host bits are clear, as \<open>New\<close> builds it.\<close>

definition pool4 :: "pool \<Rightarrow> bool" where
  "pool4 p =
    (case pfx_addr (p_prefix p) of
       Addr4 b \<Rightarrow> pfx_bits (p_prefix p) \<le> 32 \<and> take_bit (32 - pfx_bits (p_prefix p)) b = 0
     | _ \<Rightarrow> False)"

definition net_base :: "pool \<Rightarrow> nat" where
  "net_base p = (case pfx_addr (p_prefix p) of Addr4 b \<Rightarrow> unat b | _ \<Rightarrow> 0)"

definition net_size :: "pool \<Rightarrow> nat" where
  "net_size p = 2 ^ (32 - pfx_bits (p_prefix p))"

lemma u32_bound: "unat (w :: u32) < 4294967296"
  using unsigned_less [of w, where 'a = nat] by simp

lemma xor_zero_iff: "x XOR y = (0 :: 'a::len word) \<longleftrightarrow> x = y"
proof
  assume "x XOR y = 0"
  then have "(x XOR y) XOR y = 0 XOR y" by simp
  then show "x = y" by (simp add: xor.assoc)
qed simp

lemma drop_bit_xor_zero:
  fixes a b :: u32
  shows "drop_bit h (a XOR b) = 0 \<longleftrightarrow> unat a div 2 ^ h = unat b div 2 ^ h"
proof -
  have "drop_bit h (a XOR b) = 0 \<longleftrightarrow> drop_bit h a = drop_bit h b"
    by (simp add: drop_bit_xor xor_zero_iff)
  also have "\<dots> \<longleftrightarrow> unat (drop_bit h a) = unat (drop_bit h b)"
    by (simp add: word_unat_eq_iff)
  also have "\<dots> \<longleftrightarrow> unat a div 2 ^ h = unat b div 2 ^ h"
    by (simp add: unsigned_drop_bit_eq drop_bit_eq_div [where 'a = nat] take_bit_nat_eq_self u32_bound)
  finally show ?thesis .
qed

lemma div_same_block:
  fixes a b n :: nat
  assumes "b mod n = 0" and "0 < n"
  shows "a div n = b div n \<longleftrightarrow> b \<le> a \<and> a < b + n"
proof -
  obtain k where b: "b = n * k" using assms(1) by (auto elim: dvdE)
  have "a div n = k \<longleftrightarrow> n * k \<le> a \<and> a < n * k + n"
    using assms(2) dividend_less_times_div [of n a] times_div_less_eq_dividend [of n a]
    by (auto intro: div_nat_eqI)
  with b assms(2) show ?thesis by simp
qed

lemma take_bit_zero_mod: "take_bit h (b :: u32) = 0 \<longleftrightarrow> unat b mod 2 ^ h = 0"
proof -
  have "take_bit h b = 0 \<longleftrightarrow> unat (take_bit h b) = 0" by (simp add: unat_eq_0)
  then show ?thesis by (simp add: unsigned_take_bit_eq take_bit_eq_mod [where 'a = nat])
qed

lemma net_size_pos [simp]: "0 < net_size p"
  by (simp add: net_size_def)

lemma pool4_facts:
  assumes "pool4 p"
  shows pool4_addr: "pfx_addr (p_prefix p) = Addr4 (of_nat (net_base p))"
    and pool4_mod: "net_base p mod net_size p = 0"
    and pool4_bits: "pfx_bits (p_prefix p) \<le> 32"
    and pool4_base: "net_base p < 4294967296"
  using assms
  by (cases "pfx_addr (p_prefix p)";
      auto simp: pool4_def net_base_def net_size_def take_bit_zero_mod u32_bound)+

lemma contains4:
  assumes "pool4 p"
  shows "prefix_contains (p_prefix p) a \<longleftrightarrow>
    (\<exists>w. a = Addr4 w \<and> net_base p \<le> unat w \<and> unat w < net_base p + net_size p)"
proof (cases a)
  case (Addr4 w)
  define b :: u32 where "b = of_nat (net_base p)"
  have b: "pfx_addr (p_prefix p) = Addr4 b" "net_base p = unat b" "net_base p mod net_size p = 0"
    using pool4_facts [OF assms] by (simp_all add: b_def unat_of_nat)
  have "prefix_contains (p_prefix p) a \<longleftrightarrow> unat w div net_size p = unat b div net_size p"
    using drop_bit_xor_zero [of "32 - pfx_bits (p_prefix p)" w b] by (simp add: Addr4 b net_size_def)
  also have "\<dots> \<longleftrightarrow> net_base p \<le> unat w \<and> unat w < net_base p + net_size p"
    using div_same_block [of "unat b" "net_size p" "unat w"] b by simp
  finally show ?thesis using Addr4 by simp
qed (use assms in \<open>auto simp: pool4_def split: addr.splits\<close>)

lemma base_size_bound:
  assumes "pool4 p"
  shows "net_base p + net_size p \<le> 4294967296"
proof -
  define d :: nat where "d = 2 ^ pfx_bits (p_prefix p)"
  have d: "net_size p * d = 4294967296"
    using pool4_bits [OF assms] by (simp add: net_size_def d_def power_add [symmetric])
  obtain k where k: "net_base p = net_size p * k" using pool4_mod [OF assms] by (auto elim: dvdE)
  have "net_size p * k < net_size p * d" using pool4_base [OF assms] k d by simp
  then have "k < d" by simp
  then have "net_size p * (k + 1) \<le> net_size p * d" by (intro mult_le_mono2) simp
  then show ?thesis using k d by simp
qed

text \<open>The broadcast test is the last address of the block.\<close>

lemma As4_bit: "i < 32 \<Longrightarrow> bit (As4 w ! (3 - i div 8)) (i mod 8) = bit w i"
proof -
  assume "i < 32"
  then have "3 - i div 8 < 4" "3 - (3 - i div 8) = i div 8" "i mod 8 < 8" "8 * (i div 8) + i mod 8 = i"
    by auto
  then show ?thesis by (simp add: As4_def be_put_def bit_simps)
qed

lemma and_push_bit_one: "(x :: u8) AND push_bit k 1 \<noteq> 0 \<longleftrightarrow> bit x k"
  by (simp add: bit_iff_and_push_bit_not_eq_0)

lemma isBroadcast_bits:
  assumes "pfx_bits (p_prefix p) \<le> 32"
  shows "isBroadcast p (Addr4 w) \<longleftrightarrow> (\<forall>i < 32 - pfx_bits (p_prefix p). bit w i)"
proof -
  have "isBroadcast p (Addr4 w) \<longleftrightarrow>
      (\<forall>i < 32 - pfx_bits (p_prefix p). bit (As4 w ! (3 - i div 8)) (i mod 8))"
    unfolding isBroadcast_def Let_def list_all_iff and_push_bit_one by auto
  then show ?thesis using assms by (simp add: As4_bit)
qed

lemma all_low_bits: "h \<le> 32 \<Longrightarrow> (\<forall>i<h. bit (w :: u32) i) \<longleftrightarrow> unat w mod 2 ^ h = 2 ^ h - 1"
proof -
  assume h: "h \<le> 32"
  have "(\<forall>i<h. bit w i) \<longleftrightarrow> (\<forall>i<h. bit (unat w) i)" using h by (auto simp: bit_simps)
  also have "\<dots> \<longleftrightarrow> take_bit h (unat w) = mask h"
    by (auto simp: bit_eq_iff bit_simps)
  finally show ?thesis by (simp add: take_bit_eq_mod mask_eq_exp_minus_1)
qed

lemma isBroadcast4:
  assumes "pool4 p"
  shows "isBroadcast p (Addr4 w) \<longleftrightarrow> unat w mod net_size p = net_size p - 1"
proof -
  have "pfx_bits (p_prefix p) \<le> 32" using pool4_bits [OF assms] .
  then show ?thesis
    using isBroadcast_bits [of p w] all_low_bits [of "32 - pfx_bits (p_prefix p)" w]
    by (simp add: net_size_def)
qed

lemma block_mod:
  fixes w b n :: nat
  assumes "b mod n = 0" and "b \<le> w" and "w < b + n"
  shows "w mod n = w - b"
proof -
  obtain k where "b = n * k" using assms(1) by (auto elim: dvdE)
  then have "w = (w - b) + n * k" using assms(2) by simp
  then have "w mod n = (w - b) mod n" by (metis mod_mult_self2)
  then show ?thesis using assms(2,3) by simp
qed

lemma usable4:
  assumes "pool4 p"
  shows "usable p a \<longleftrightarrow> (\<exists>w. a = Addr4 w \<and> net_base p < unat w \<and>
    unat w + 1 < net_base p + net_size p \<and> a \<notin> p_reserved p)"
proof (cases "prefix_contains (p_prefix p) a")
  case True
  then obtain w where w: "a = Addr4 w" "net_base p \<le> unat w" "unat w < net_base p + net_size p"
    using contains4 [OF assms] by blast
  define b :: u32 where "b = of_nat (net_base p)"
  have b: "pfx_addr (p_prefix p) = Addr4 b" "net_base p = unat b" "net_base p mod net_size p = 0"
    using pool4_facts [OF assms] by (simp_all add: b_def unat_of_nat)
  have "isBroadcast p a \<longleftrightarrow> unat w + 1 = net_base p + net_size p"
    using isBroadcast4 [OF assms, of w] block_mod [OF b(3) w(2,3)] w by auto
  moreover have "a = pfx_addr (p_prefix p) \<longleftrightarrow> unat w = net_base p"
    using b w by (simp add: word_unat_eq_iff)
  ultimately show ?thesis using True w by (auto simp: usable_def)
next
  case False
  then show ?thesis using contains4 [OF assms, of a] by (auto simp: usable_def)
qed

section \<open>The sweep visits every host address\<close>

text \<open>IPv4 addresses by number.\<close>

definition a4 :: "nat \<Rightarrow> addr" where
  "a4 n = Addr4 (of_nat n)"

lemma unat_of_nat32: "n < 4294967296 \<Longrightarrow> unat (of_nat n :: u32) = n"
  by (simp add: unat_of_nat)

lemma a4_eq_iff: "m < 4294967296 \<Longrightarrow> n < 4294967296 \<Longrightarrow> a4 m = a4 n \<longleftrightarrow> m = n"
  by (metis a4_def addr.inject(1) unat_of_nat32)

lemma Next_a4: "n + 1 < 4294967296 \<Longrightarrow> Next (a4 n) = a4 (n + 1)"
proof -
  assume n: "n + 1 < 4294967296"
  have "(of_nat n :: u32) + 1 = of_nat (n + 1)" by simp
  moreover have "(of_nat (n + 1) :: u32) \<noteq> 0" using unat_of_nat32 [OF n] by auto
  ultimately show ?thesis by (simp only: a4_def Next.simps if_False)
qed

lemma Next_a4_last: "n + 1 = 4294967296 \<Longrightarrow> Next (a4 n) = AddrZero"
proof -
  assume "n + 1 = 4294967296"
  then have n: "n = 4294967295" by simp
  show ?thesis by (simp add: a4_def n)
qed

lemma contains_a4:
  "pool4 p \<Longrightarrow> n < 4294967296 \<Longrightarrow>
    prefix_contains (p_prefix p) (a4 n) \<longleftrightarrow> net_base p \<le> n \<and> n < net_base p + net_size p"
  using contains4 [of p "a4 n"] by (auto simp: a4_def unat_of_nat32 simp del: of_nat_add)

lemma contains_offset:
  assumes "pool4 p" and "prefix_contains (p_prefix p) a"
  shows "\<exists>k < net_size p. a = a4 (net_base p + k)"
proof -
  obtain w where w: "a = Addr4 w" "net_base p \<le> unat w" "unat w < net_base p + net_size p"
    using assms contains4 by blast
  then have "a = a4 (net_base p + (unat w - net_base p))" by (simp add: a4_def)
  with w show ?thesis by (intro exI [of _ "unat w - net_base p"]) auto
qed

text \<open>One step of the cursor: the next offset, or past the end and back to offset 1.\<close>

definition succ_off :: "nat \<Rightarrow> nat \<Rightarrow> nat" where
  "succ_off n k = (if k + 1 < n then k + 1 else 1)"

lemma wrap_inside:
  "pool4 p \<Longrightarrow> k < net_size p \<Longrightarrow> wrap_addr p (a4 (net_base p + k)) = a4 (net_base p + k)"
  using base_size_bound [of p] contains_a4 [of p "net_base p + k"]
  by (simp add: wrap_addr_def IsValid_def a4_def)

lemma wrap_outside:
  assumes p: "pool4 p" and n: "2 \<le> net_size p" and a: "\<not> prefix_contains (p_prefix p) a"
  shows "wrap_addr p a = a4 (net_base p + 1)"
proof -
  have "pfx_addr (p_prefix p) = a4 (net_base p)" using pool4_addr [OF p] by (simp add: a4_def)
  then have "Next (pfx_addr (p_prefix p)) = a4 (net_base p + 1)"
    using Next_a4 [of "net_base p"] base_size_bound [OF p] n by simp
  with a show ?thesis by (simp add: wrap_addr_def)
qed

lemma wrap_step:
  assumes p: "pool4 p" and k: "k < net_size p" and n: "2 \<le> net_size p"
  shows "wrap_addr p (Next (a4 (net_base p + k))) = a4 (net_base p + succ_off (net_size p) k)"
proof (cases "k + 1 < net_size p")
  case True
  then have "Next (a4 (net_base p + k)) = a4 (net_base p + (k + 1))"
    using Next_a4 [of "net_base p + k"] base_size_bound [OF p] by (simp add: add.assoc)
  then show ?thesis using wrap_inside [OF p True] True by (simp add: succ_off_def)
next
  case False
  define m where "m = net_base p + k"
  have m: "m + 1 = net_base p + net_size p" using False k by (simp add: m_def)
  have "\<not> prefix_contains (p_prefix p) (Next (a4 m))"
  proof (cases "m + 1 = 4294967296")
    case True
    then show ?thesis using Next_a4_last by simp
  next
    case less: False
    then have "m + 1 < 4294967296" using base_size_bound [OF p] m by simp
    then show ?thesis using contains_a4 [OF p, of "m + 1"] m by (simp add: Next_a4)
  qed
  then show ?thesis using wrap_outside [OF p n] False by (simp add: m_def succ_off_def)
qed

text \<open>Probes from offset \<open>k\<close> until offset \<open>t\<close>; after the last offset the cursor is at 1.\<close>

definition probes :: "nat \<Rightarrow> nat \<Rightarrow> nat \<Rightarrow> nat" where
  "probes n k t = (if k \<le> t then t - k else n - 1 - k + t)"

lemma probes_step:
  assumes "k \<noteq> t" and "k < n" and "0 < t" and "t < n"
  shows "probes n (succ_off n k) t + 1 = probes n k t"
  using assms by (auto simp: probes_def succ_off_def)

lemma alloc_loop_finds:
  assumes "pool4 p" and "2 \<le> net_size p" and "k < net_size p" and "0 < t" and "t < net_size p"
    and "usable p (a4 (net_base p + t))" and "a4 (net_base p + t) \<notin> p_used p"
    and "wrap_addr p a0 = a4 (net_base p + k)"
    and "sweep_bound p = Some bnd" and "i + probes (net_size p) k t \<le> bnd + 1"
  shows "\<exists>x p'. alloc_loop p a0 i = (Inr x, p')"
  using assms
proof (induction "probes (net_size p) k t" arbitrary: k i a0 rule: less_induct)
  case (less k i a0)
  show ?case
  proof (cases "usable p (a4 (net_base p + k)) \<and> a4 (net_base p + k) \<notin> p_used p")
    case True
    then show ?thesis using less.prems(8) by (simp add: alloc_loop.simps [of p a0 i] Let_def)
  next
    case False
    define k' where "k' = succ_off (net_size p) k"
    have kt: "k \<noteq> t" using False less.prems(6,7) by auto
    have d: "probes (net_size p) k' t + 1 = probes (net_size p) k t"
      using probes_step [OF kt] less.prems by (simp add: k'_def)
    have k': "k' < net_size p" using less.prems(2) by (simp add: k'_def succ_off_def)
    have "\<exists>x p'. alloc_loop p (Next (a4 (net_base p + k))) (Suc i) = (Inr x, p')"
      using less.prems d k' wrap_step [of p k] by (intro less.hyps [of k']) (simp_all add: k'_def)
    moreover have "\<not> i > bnd" using d less.prems(10) by simp
    ultimately show ?thesis
      using False less.prems(8,9) by (auto simp: alloc_loop.simps [of p a0 i] Let_def)
  qed
qed

text \<open>What a returned address is, for every prefix, and that an error leaves the pool alone.\<close>

lemma alloc_loop_result:
  "(case alloc_loop p a0 i of
      (Inr a, p') \<Rightarrow> usable p a \<and> a \<notin> p_used p \<and>
        p' = p\<lparr>p_used := insert a (p_used p), p_next := Next a\<rparr>
    | (Inl e, p') \<Rightarrow> p' = p \<and> (e = NegativeShift \<longrightarrow> sweep_bound p = None))"
proof (induction p a0 i rule: alloc_loop.induct)
  case (1 p a0 i)
  then show ?case
    by (subst alloc_loop.simps) (auto simp: Let_def split: option.split)
qed

lemma Allocate_Inr:
  "Allocate p = (Inr a, p') \<Longrightarrow> usable p a \<and> a \<notin> p_used p \<and>
    p' = p\<lparr>p_used := insert a (p_used p), p_next := Next a\<rparr>"
  using alloc_loop_result [of p "p_next p" 0] by (simp add: Allocate_def)

lemma Allocate_Inl:
  "Allocate p = (Inl e, p') \<Longrightarrow> p' = p \<and> (e = NegativeShift \<longrightarrow> sweep_bound p = None)"
  using alloc_loop_result [of p "p_next p" 0] by (simp add: Allocate_def)

lemma Allocate_complete:
  assumes p: "pool4 p" and x: "usable p x" "x \<notin> p_used p"
  shows "\<exists>a p'. Allocate p = (Inr a, p')"
proof -
  obtain w where w: "x = Addr4 w" "net_base p < unat w" "unat w + 1 < net_base p + net_size p"
    using x(1) usable4 [OF p] by blast
  define t where "t = unat w - net_base p"
  have t: "0 < t" "t < net_size p" "x = a4 (net_base p + t)" and n: "2 \<le> net_size p"
    using w by (auto simp: t_def a4_def)
  obtain k where k: "k < net_size p" "wrap_addr p (p_next p) = a4 (net_base p + k)"
  proof (cases "prefix_contains (p_prefix p) (p_next p)")
    case True
    then show ?thesis using contains_offset [OF p] wrap_inside [OF p] that by metis
  next
    case False
    then show ?thesis using wrap_outside [OF p n] n that [of 1] by simp
  qed
  have "sweep_bound p = Some (net_size p + 1)"
    using pool4_bits [OF p] by (simp add: sweep_bound_def net_size_def)
  moreover have "probes (net_size p) k t \<le> net_size p + 2"
    using k(1) t(2) by (auto simp: probes_def)
  ultimately show ?thesis
    using alloc_loop_finds [OF p n k(1) t(1,2) _ _ k(2), of "net_size p + 1" 0] x t(3)
    by (simp add: Allocate_def)
qed

lemma pool4_cong:
  assumes "p_prefix p' = p_prefix p"
  shows "pool4 p' = pool4 p"
  unfolding pool4_def assms ..

lemma usable_cong:
  assumes "p_prefix p' = p_prefix p" and "p_reserved p' = p_reserved p"
  shows "usable p' = usable p"
  unfolding usable_def isBroadcast_def assms fun_eq_iff by simp

lemma lease_update_simps [simp]:
  "usable (p\<lparr>p_used := u, p_next := n\<rparr>) = usable p"
  "pool4 (p\<lparr>p_used := u, p_next := n\<rparr>) = pool4 p"
  by (rule usable_cong pool4_cong; simp)+

lemma Release_simps [simp]:
  "p_used (Release a p) = p_used p - {a}" "usable (Release a p) = usable p"
  "pool4 (Release a p) = pool4 p" "p_prefix (Release a p) = p_prefix p"
  using usable_cong [of "Release a p" p] pool4_cong [of "Release a p" p]
  by (simp_all add: Release_def)

lemma usable_subset: "pool4 p \<Longrightarrow> {a. usable p a} \<subseteq> a4 ` {net_base p + 1..<net_base p + net_size p - 1}"
proof
  fix a assume "pool4 p" "a \<in> {a. usable p a}"
  then obtain w where "a = Addr4 w" "net_base p < unat w" "unat w + 1 < net_base p + net_size p"
    using usable4 [of p a] by auto
  then show "a \<in> a4 ` {net_base p + 1..<net_base p + net_size p - 1}"
    by (intro image_eqI [of _ _ "unat w"]) (auto simp: a4_def)
qed

lemma usable_finite: "pool4 p \<Longrightarrow> finite {a. usable p a}"
  using usable_subset finite_subset by blast

lemma usable_card: "pool4 p \<Longrightarrow> card {a. usable p a} \<le> net_size p - 2"
proof -
  assume p: "pool4 p"
  have "card {a. usable p a} \<le> card {net_base p + 1..<net_base p + net_size p - 1}"
    using usable_subset [OF p] by (meson surj_card_le finite_atLeastLessThan)
  then show ?thesis by simp
qed

section \<open>The pool as an interface\<close>

text \<open>
  What a holder of leases relies on: \<open>alloc\<close> hands out an available address that is not leased and
  fails only when none is left; \<open>release\<close> gives one back.
\<close>

locale address_pool =
  fixes alloc :: "'p \<Rightarrow> ('e + 'a) \<times> 'p"
    and release :: "'a \<Rightarrow> 'p \<Rightarrow> 'p"
    and leased :: "'p \<Rightarrow> 'a set"
    and avail :: "'p \<Rightarrow> 'a set"
    and ok :: "'p \<Rightarrow> bool"
  assumes alloc_Inr: "ok p \<Longrightarrow> alloc p = (Inr a, p') \<Longrightarrow>
      a \<in> avail p \<and> a \<notin> leased p \<and> leased p' = insert a (leased p) \<and> avail p' = avail p \<and> ok p'"
    and alloc_Inl: "ok p \<Longrightarrow> alloc p = (Inl e, p') \<Longrightarrow> p' = p \<and> avail p \<subseteq> leased p"
    and leased_release: "leased (release a p) = leased p - {a}"
    and avail_release: "avail (release a p) = avail p"
    and ok_release: "ok p \<Longrightarrow> ok (release a p)"
    and avail_finite: "ok p \<Longrightarrow> finite (avail p)"
begin

text \<open>The leases a client of the pool holds: each address once, all of them leased.\<close>

definition leases_ok :: "'a list \<Rightarrow> 'p \<Rightarrow> bool" where
  "leases_ok L p \<longleftrightarrow> ok p \<and> distinct L \<and> set L = leased p \<and> leased p \<subseteq> avail p"

lemma leases_alloc: "leases_ok L p \<Longrightarrow> alloc p = (Inr a, p') \<Longrightarrow> leases_ok (a # L) p'"
  using alloc_Inr [of p a p'] by (auto simp: leases_ok_def)

lemma leases_fail: "leases_ok L p \<Longrightarrow> alloc p = (Inl e, p') \<Longrightarrow> p' = p \<and> set L = avail p"
  using alloc_Inl [of p e p'] by (auto simp: leases_ok_def)

lemma leases_release: "leases_ok L p \<Longrightarrow> leases_ok (removeAll a L) (release a p)"
  by (auto simp: leases_ok_def leased_release avail_release ok_release distinct_removeAll)

lemma leases_bound: "leases_ok L p \<Longrightarrow> length L \<le> card (avail p)"
  by (metis leases_ok_def avail_finite card_mono distinct_card)

end

interpretation vpn: address_pool Allocate Release p_used "\<lambda>p. {a. usable p a}" pool4
proof unfold_locales
  fix p a p'
  assume "pool4 p" "Allocate p = (Inr a, p')"
  then show "a \<in> {a. usable p a} \<and> a \<notin> p_used p \<and> p_used p' = insert a (p_used p) \<and>
      {a. usable p' a} = {a. usable p a} \<and> pool4 p'"
    using Allocate_Inr [of p a p'] by simp
next
  fix p e p'
  assume p: "pool4 p" and e: "Allocate p = (Inl e, p')"
  have "x \<in> p_used p" if "usable p x" for x
    using Allocate_complete [OF p that] e by (rule_tac ccontr) simp
  then show "p' = p \<and> {a. usable p a} \<subseteq> p_used p"
    using Allocate_Inl [OF e] by auto
qed (simp_all add: usable_finite)

section \<open>Sequences of pool operations\<close>

datatype pool_op = OpAllocate | OpRelease addr

text \<open>The pool beside the list of leases its callers hold.\<close>

fun pool_step :: "pool_op \<Rightarrow> pool \<times> addr list \<Rightarrow> pool \<times> addr list" where
  "pool_step OpAllocate (p, L) =
    (case Allocate p of (Inr a, p') \<Rightarrow> (p', a # L) | (Inl _, p') \<Rightarrow> (p', L))"
| "pool_step (OpRelease a) (p, L) = (Release a p, removeAll a L)"

lemma pool_step_leases:
  "vpn.leases_ok L p \<Longrightarrow> pool_step x (p, L) = (p', L') \<Longrightarrow> vpn.leases_ok L' p'"
  by (cases x; cases "Allocate p")
    (auto split: sum.splits dest: vpn.leases_alloc vpn.leases_fail simp: vpn.leases_release)

lemma pool_step_avail:
  "pool_step x (p, L) = (p', L') \<Longrightarrow> usable p' = usable p \<and> net_size p' = net_size p"
  by (cases x; cases "Allocate p")
    (auto split: sum.splits dest!: Allocate_Inr Allocate_Inl simp: net_size_def)

lemma pool_run_leases:
  "vpn.leases_ok L p \<Longrightarrow> fold pool_step ops (p, L) = (p', L') \<Longrightarrow>
    vpn.leases_ok L' p' \<and> usable p' = usable p \<and> net_size p' = net_size p"
proof (induction ops arbitrary: p L)
  case (Cons x ops)
  obtain p1 L1 where "pool_step x (p, L) = (p1, L1)" by fastforce
  with Cons show ?case
    using pool_step_leases [of L p x p1 L1] pool_step_avail [of x p L p1 L1] by simp
qed simp

lemma Masked_pool4:
  assumes "pfx_addr pfx = Addr4 w" and "pfx_bits pfx \<le> 32"
  shows "pool4 \<lparr>p_prefix = Masked pfx, p_reserved = R, p_used = U, p_next = n\<rparr>"
  using assms by (simp add: pool4_def Masked_def take_bit_push_bit)

lemma pool_New_empty:
  assumes "pool_New parse6 cidr reserved = Inr p" and "Is4 (pfx_addr (p_prefix p))"
  shows "vpn.leases_ok [] p"
proof -
  obtain pfx where pfx: "ParsePrefix parse6 cidr = Inr pfx"
      "p = \<lparr>p_prefix = Masked pfx, p_reserved = set reserved, p_used = {},
            p_next = Next (pfx_addr (Masked pfx))\<rparr>"
    using assms(1) by (auto simp: pool_New_def Let_def split: sum.splits)
  obtain w where w: "pfx_addr pfx = Addr4 w"
    using assms(2) pfx by (cases "pfx_addr pfx") (auto simp: Masked_def)
  have "pfx_bits pfx \<le> max_bits (pfx_addr pfx)"
    using pfx(1) by (auto simp: ParsePrefix_def Let_def split: if_splits sum.splits option.splits)
  then have "pool4 p" using w pfx(2) by (simp add: max_bits_def Masked_pool4)
  then show ?thesis using pfx(2) by (simp add: vpn.leases_ok_def)
qed

section \<open>Properties\<close>

text \<open>
  C14: \<open>Allocate\<close> of an IPv4 pool returns a usable address that is not in use and marks exactly it
  used, moving the cursor past it; it answers \<open>ErrExhausted\<close>, leaving the pool as it was, only
  when every usable address is in use. The sweep always ends, wherever the cursor stands.
\<close>

theorem Allocate_exact:
  assumes "pool4 p"
  shows "case Allocate p of
      (Inr a, p') \<Rightarrow> usable p a \<and> a \<notin> p_used p \<and>
        p' = p\<lparr>p_used := insert a (p_used p), p_next := Next a\<rparr>
    | (Inl e, p') \<Rightarrow> e = ErrExhausted \<and> p' = p \<and> {x. usable p x} \<subseteq> p_used p"
proof (cases "Allocate p")
  case (Pair r p')
  show ?thesis
  proof (cases r)
    case (Inl e)
    have "sweep_bound p \<noteq> None" using pool4_bits [OF assms] by (simp add: sweep_bound_def)
    then show ?thesis
      using Allocate_Inl [of p e p'] vpn.alloc_Inl [OF assms, of e p'] Pair Inl
      by (cases e) auto
  qed (use Allocate_Inr Pair in auto)
qed

definition pool30 :: pool where
  "pool30 = \<lparr>p_prefix = \<lparr>pfx_addr = Addr4 0x0A630000, pfx_bits = 30\<rparr>,
     p_reserved = {Addr4 0x0A630001}, p_used = {Addr4 0x0A630002}, p_next = Addr4 0x0A630003\<rparr>"

theorem Allocate_exact_witness:
  "pool4 pool30 \<and> (case Allocate pool30 of
      (Inr a, p') \<Rightarrow> usable pool30 a \<and> a \<notin> p_used pool30 \<and>
        p' = pool30\<lparr>p_used := insert a (p_used pool30), p_next := Next a\<rparr>
    | (Inl e, p') \<Rightarrow> e = ErrExhausted \<and> p' = pool30 \<and> {x. usable pool30 x} \<subseteq> p_used pool30)"
proof -
  have p: "pool4 pool30" by (simp add: pool4_def pool30_def)
  show ?thesis by (rule conjI [OF p Allocate_exact [OF p]])
qed

text \<open>
  C22: from a pool built by \<open>New\<close> over an IPv4 prefix, after any sequence of \<open>Allocate\<close> and
  \<open>Release\<close> the outstanding leases are pairwise different, are exactly the used set, are usable
  host addresses, and \<open>InUse\<close> counts them; there are never more than the block has hosts.
\<close>

theorem pool_leases_exact:
  assumes "pool_New parse6 cidr reserved = Inr p" and "Is4 (pfx_addr (p_prefix p))"
    and "fold pool_step ops (p, []) = (p', L)"
  shows "distinct L \<and> set L = p_used p' \<and> (\<forall>a \<in> set L. usable p a) \<and>
    InUse p' = length L \<and> length L \<le> net_size p - 2"
proof -
  have ok: "vpn.leases_ok L p'" "usable p' = usable p" "net_size p' = net_size p"
    using pool_run_leases [OF pool_New_empty [OF assms(1,2)] assms(3)] by auto
  then have "pool4 p'" by (simp add: vpn.leases_ok_def)
  with ok show ?thesis
    using vpn.leases_bound [OF ok(1)] usable_card [of p'] distinct_card [of L]
    by (auto simp: vpn.leases_ok_def InUse_def)
qed

definition pool29 :: pool where
  "pool29 = \<lparr>p_prefix = \<lparr>pfx_addr = Addr4 0x0A630000, pfx_bits = 29\<rparr>,
     p_reserved = {Addr4 0x0A630001}, p_used = {}, p_next = Addr4 0x0A630001\<rparr>"

lemma pool29_New:
  "pool_New (\<lambda>_. Inl TooLong) ''10.99.0.0/29'' [Addr4 0x0A630001] = Inr pool29"
  by code_simp

lemma pool29_run:
  "fold pool_step [OpAllocate, OpAllocate, OpRelease (Addr4 0x0A630002), OpAllocate] (pool29, []) =
    (pool29\<lparr>p_used := {Addr4 0x0A630003, Addr4 0x0A630004}, p_next := Addr4 0x0A630005\<rparr>,
     [Addr4 0x0A630004, Addr4 0x0A630003])"
  by code_simp

theorem pool_leases_exact_witness:
  "distinct [Addr4 0x0A630004, Addr4 0x0A630003] \<and>
   usable pool29 (Addr4 0x0A630004) \<and> usable pool29 (Addr4 0x0A630003) \<and> 2 \<le> net_size pool29 - 2"
  using pool_leases_exact [OF pool29_New _ pool29_run] by (simp add: pool29_def)

end
