(* ===== verification/Lb.thy ===== *)
theory Lb
  imports Prelude "HOL-Library.Multiset"
begin

text \<open>
  \<^verbatim>\<open>internal/lb/lb.go\<close>: selection of an exit for a new session. Strategies, the load view of a
  node, eligibility and \<open>Pick\<close> with the caller's round-robin counter as a 64-bit word that wraps.
  \<open>rand.Intn(n)\<close> reduces an accepted random draw modulo \<open>n\<close>; the draw is the argument \<open>draw\<close>,
  and the lemmas hold for every draw. Load fractions are exact rationals.
\<close>

datatype strategy = LeastConn | RoundRobin | Random | OtherStrategy string

definition Strategy_of :: "string \<Rightarrow> strategy" where
  "Strategy_of s =
    (if s = ''least-conn'' then LeastConn else if s = ''round-robin'' then RoundRobin
     else if s = ''random'' then Random else OtherStrategy s)"

definition lb_Parse :: "string \<Rightarrow> strategy" where
  "lb_Parse s =
    (case Strategy_of s of RoundRobin \<Rightarrow> RoundRobin | Random \<Rightarrow> Random | _ \<Rightarrow> LeastConn)"

record lb_node =
  n_ID :: string
  n_Region :: string
  n_Active :: int
  n_Capacity :: int

definition hasSpare :: "lb_node \<Rightarrow> bool" where
  "hasSpare n = (n_Capacity n \<le> 0 \<or> n_Active n < n_Capacity n)"

definition loadFraction :: "lb_node \<Rightarrow> float64" where
  "loadFraction n =
    (if n_Capacity n \<le> 0 then of_int (n_Active n) / 1000000000
     else of_int (n_Active n) / of_int (n_Capacity n))"

definition eligible_nodes :: "string \<Rightarrow> lb_node list \<Rightarrow> lb_node list" where
  "eligible_nodes region nodes = filter (\<lambda>n. n_Region n = region \<and> hasSpare n) nodes"

text \<open>One comparison of the least-connections loop.\<close>

definition better :: "lb_node \<Rightarrow> lb_node \<Rightarrow> bool" where
  "better n best =
    (n_Active n < n_Active best \<or>
     (n_Active n = n_Active best \<and> loadFraction n < loadFraction best))"

definition least_conn :: "lb_node list \<Rightarrow> lb_node" where
  "least_conn ns = foldl (\<lambda>best n. if better n best then n else best) (hd ns) (tl ns)"

definition Intn :: "nat \<Rightarrow> nat \<Rightarrow> nat" where
  "Intn draw n = draw mod n"

text \<open>
  \<open>sort.Slice\<close> orders the eligible nodes by id; ids of one broker are distinct (they key its map),
  so the stable \<open>sort_key\<close> is that order.
\<close>

definition Pick ::
  "nat \<Rightarrow> strategy \<Rightarrow> string \<Rightarrow> lb_node list \<Rightarrow> u64 option \<Rightarrow> string option \<times> u64 option" where
  "Pick draw strategy region nodes rr =
    (let eligible = eligible_nodes region nodes in
     if eligible = [] then (None, rr)
     else
       let sorted = sort_key n_ID eligible in
       (case strategy of
          RoundRobin \<Rightarrow>
            (case rr of
               None \<Rightarrow> (Some (n_ID (sorted ! 0)), None)
             | Some i \<Rightarrow> (Some (n_ID (sorted ! unat (i mod of_nat (length sorted)))), Some (i + 1)))
        | Random \<Rightarrow> (Some (n_ID (sorted ! Intn draw (length sorted))), rr)
        | _ \<Rightarrow> (Some (n_ID (least_conn sorted)), rr)))"

section \<open>The least-connections loop\<close>

text \<open>The order the loop minimises: connections, then load fraction, then id.\<close>

definition lc_le :: "lb_node \<Rightarrow> lb_node \<Rightarrow> bool" where
  "lc_le a b =
    (n_Active a < n_Active b \<or> (n_Active a = n_Active b \<and>
      (loadFraction a < loadFraction b \<or> (loadFraction a = loadFraction b \<and> n_ID a \<le> n_ID b))))"

lemma lc_le_refl [simp]: "lc_le a a"
  by (simp add: lc_le_def)

lemma lc_le_trans: "lc_le a b \<Longrightarrow> lc_le b c \<Longrightarrow> lc_le a c"
  by (auto simp: lc_le_def)

lemma better_lc_le: "better n best \<Longrightarrow> lc_le n best"
  by (auto simp: better_def lc_le_def)

lemma not_better_lc_le: "\<not> better n best \<Longrightarrow> n_ID best \<le> n_ID n \<Longrightarrow> lc_le best n"
  by (auto simp: better_def lc_le_def)

lemma best_fold:
  assumes "sorted (map n_ID (best # ns))"
  shows "foldl (\<lambda>best n. if better n best then n else best) best ns \<in> set (best # ns) \<and>
    (\<forall>n \<in> set (best # ns). lc_le (foldl (\<lambda>best n. if better n best then n else best) best ns) n)"
  using assms
proof (induction ns arbitrary: best)
  case Nil
  then show ?case by simp
next
  case (Cons n ns)
  define b where "b = (if better n best then n else best)"
  define r where "r = foldl (\<lambda>best n. if better n best then n else best) b ns"
  have b: "lc_le b best" "lc_le b n" "b \<in> {n, best}"
    using Cons.prems better_lc_le not_better_lc_le by (auto simp: b_def)
  have "sorted (map n_ID (b # ns))" using Cons.prems by (auto simp: b_def)
  from Cons.IH [OF this] have "r \<in> set (b # ns)" "\<forall>n \<in> set (b # ns). lc_le r n"
    by (simp_all add: r_def)
  then show ?case using b lc_le_trans [of r b] by (auto simp: r_def b_def [symmetric])
qed

section \<open>Selection\<close>

lemma eligible_sorted [simp]: "set (sort_key n_ID xs) = set xs" "length (sort_key n_ID xs) = length xs"
  by simp_all

lemma mod_index:
  assumes "0 < n" and "n < 2 ^ 64"
  shows "unat ((i :: u64) mod of_nat n) = unat i mod n"
  using assms by (simp add: unat_mod unat_of_nat)

text \<open>
  The contract of a selector: it answers with an eligible node whenever there is one, and never
  with anything else.
\<close>

locale exit_selector =
  fixes pick :: "string \<Rightarrow> lb_node list \<Rightarrow> 's \<Rightarrow> string option \<times> 's"
    and good :: "lb_node list \<Rightarrow> bool"
  assumes pick_None: "good ns \<Longrightarrow> fst (pick r ns s) = None \<longleftrightarrow> eligible_nodes r ns = []"
    and pick_Some: "good ns \<Longrightarrow> fst (pick r ns s) = Some i \<Longrightarrow> i \<in> n_ID ` set (eligible_nodes r ns)"
begin

lemma pick_within_capacity:
  assumes "good ns" and "fst (pick r ns s) = Some i"
  shows "\<exists>n \<in> set ns. n_ID n = i \<and> n_Region n = r \<and> (n_Capacity n \<le> 0 \<or> n_Active n < n_Capacity n)"
  using pick_Some [OF assms] by (auto simp: eligible_nodes_def hasSpare_def)

lemma pick_total:
  assumes "good ns" and "n \<in> set ns" and "n_Region n = r" and "hasSpare n"
  shows "\<exists>i. fst (pick r ns s) = Some i"
proof -
  have "n \<in> set (eligible_nodes r ns)" using assms by (simp add: eligible_nodes_def)
  then have "fst (pick r ns s) \<noteq> None" using pick_None [OF assms(1), of r s] by auto
  then show ?thesis by simp
qed

end

lemma best_in:
  assumes "ns \<noteq> []"
  shows "least_conn (sort_key n_ID ns) \<in> set ns \<and> (\<forall>n \<in> set ns. lc_le (least_conn (sort_key n_ID ns)) n)"
proof -
  define srt where "srt = sort_key n_ID ns"
  have "length srt = length ns" by (simp add: srt_def)
  then have "srt \<noteq> []" using assms by auto
  then have "hd srt # tl srt = srt" by simp
  moreover have "sorted (map n_ID srt)" "set srt = set ns" by (simp_all add: srt_def)
  ultimately show ?thesis
    using best_fold [of "hd srt" "tl srt"] by (simp add: least_conn_def srt_def)
qed

lemma nth_sorted_in: "i < length ns \<Longrightarrow> sort_key n_ID ns ! i \<in> set ns"
  by (metis eligible_sorted nth_mem)

lemma length_eligible: "length (eligible_nodes r ns) \<le> length ns"
  by (simp add: eligible_nodes_def)

interpretation selector: exit_selector "Pick draw strategy" "\<lambda>ns. length ns < 2 ^ 64"
  for draw strategy
proof unfold_locales
  fix ns :: "lb_node list" and r s i
  assume len: "length ns < 2 ^ 64"
  show "fst (Pick draw strategy r ns s) = None \<longleftrightarrow> eligible_nodes r ns = []"
    by (auto simp: Pick_def Let_def split: strategy.splits option.splits)
  assume i: "fst (Pick draw strategy r ns s) = Some i"
  let ?e = "eligible_nodes r ns"
  have ne: "?e \<noteq> []" using i by (auto simp: Pick_def Let_def)
  then have pos: "0 < length ?e" by simp
  have idx: "unat (j mod of_nat (length ?e) :: u64) < length ?e" for j
    using mod_index [OF pos] length_eligible [of r ns] len pos by simp
  have intn: "Intn draw (length ?e) < length ?e" using pos by (simp add: Intn_def)
  show "i \<in> n_ID ` set ?e"
    using i ne best_in [OF ne] nth_sorted_in [of _ ?e] idx intn pos
    by (auto simp: Pick_def Let_def split: strategy.splits option.splits)
qed

section \<open>Rounds of the round-robin counter\<close>

text \<open>\<open>k\<close> consecutive picks over an unchanged set of nodes, threading the caller's counter.\<close>

fun pick_round :: "nat \<Rightarrow> string \<Rightarrow> lb_node list \<Rightarrow> u64 option \<Rightarrow> string option list" where
  "pick_round 0 region nodes rr = []"
| "pick_round (Suc k) region nodes rr =
    (let (r, rr') = Pick 0 RoundRobin region nodes rr in r # pick_round k region nodes rr')"

lemma pick_round_nth:
  assumes "eligible_nodes region nodes \<noteq> []" and "length nodes < 2 ^ 64" and "unat i + k < 2 ^ 64"
  defines "srt \<equiv> sort_key n_ID (eligible_nodes region nodes)"
  shows "pick_round k region nodes (Some i) =
    map (\<lambda>j. Some (n_ID (srt ! ((unat i + j) mod length srt)))) [0..<k]"
  using assms(3)
proof (induction k arbitrary: i)
  case (Suc k)
  have len: "length srt = length (eligible_nodes region nodes)" by (simp add: srt_def)
  have pos: "0 < length srt" "length srt < 2 ^ 64"
    using assms(1,2) length_eligible [of region nodes] by (simp_all add: len)
  have i: "unat (i + 1) = unat i + 1" using Suc.prems by (intro unat_plus_one) simp
  have "Pick 0 RoundRobin region nodes (Some i) = (Some (n_ID (srt ! (unat i mod length srt))), Some (i + 1))"
    using assms(1) mod_index [OF pos, of i] len by (simp add: Pick_def Let_def srt_def)
  moreover have "pick_round k region nodes (Some (i + 1)) =
      map (\<lambda>j. Some (n_ID (srt ! ((unat i + Suc j) mod length srt)))) [0..<k]"
    using Suc.IH [of "i + 1"] Suc.prems by (simp add: i)
  moreover have "[0..<Suc k] = 0 # map Suc [0..<k]" by (simp add: map_Suc_upt upt_conv_Cons del: upt_Suc)
  ultimately show ?case by (simp del: upt_Suc add: comp_def)
qed simp

lemma rotation_mset:
  assumes "0 < length xs"
  shows "mset (map (\<lambda>j. xs ! ((s + j) mod length xs)) [0..<length xs]) = mset xs"
proof -
  have "map (\<lambda>j. xs ! ((s + j) mod length xs)) [0..<length xs] = rotate s xs"
    using assms by (intro nth_equalityI) (auto simp: nth_rotate)
  moreover have "mset (rotate s xs) = mset xs"
  proof (induction s)
    case (Suc s)
    then show ?case by (cases "rotate s xs") auto
  qed simp
  ultimately show ?thesis by simp
qed

section \<open>Properties\<close>

text \<open>
  C26: \<open>Pick\<close> answers no exit exactly when the region has no eligible one, and otherwise the id of
  a node of the list that serves the region and has spare capacity, for every strategy, counter
  and random draw.
\<close>

theorem Pick_sound_complete:
  assumes "length nodes < 2 ^ 64"
  shows "case fst (Pick draw strategy region nodes rr) of
      None \<Rightarrow> (\<forall>n \<in> set nodes. n_Region n = region \<longrightarrow> 0 < n_Capacity n \<and> n_Capacity n \<le> n_Active n)
    | Some i \<Rightarrow> (\<exists>n \<in> set nodes. n_ID n = i \<and> n_Region n = region \<and>
        (n_Capacity n \<le> 0 \<or> n_Active n < n_Capacity n))"
proof (cases "fst (Pick draw strategy region nodes rr)")
  case None
  then have "eligible_nodes region nodes = []"
    using selector.pick_None [OF assms, of draw strategy region rr] by simp
  with None show ?thesis by (auto simp: eligible_nodes_def filter_empty_conv hasSpare_def)
next
  case (Some i)
  then show ?thesis
    using selector.pick_within_capacity [OF assms, of draw strategy region rr i] by simp
qed

definition nodes3 :: "lb_node list" where
  "nodes3 =
    [\<lparr>n_ID = ''c'', n_Region = ''eu'', n_Active = 1, n_Capacity = 2\<rparr>,
     \<lparr>n_ID = ''b'', n_Region = ''eu'', n_Active = 1, n_Capacity = 4\<rparr>,
     \<lparr>n_ID = ''a'', n_Region = ''us'', n_Active = 9, n_Capacity = 9\<rparr>]"

theorem Pick_sound_complete_witness:
  "fst (Pick 5 LeastConn ''eu'' nodes3 None) = Some ''b'' \<and>
   fst (Pick 5 Random ''us'' nodes3 None) = None \<and>
   (\<exists>n \<in> set nodes3. n_ID n = ''b'' \<and> n_Region n = ''eu'' \<and>
     (n_Capacity n \<le> 0 \<or> n_Active n < n_Capacity n)) \<and>
   n_Capacity (nodes3 ! 2) \<le> n_Active (nodes3 ! 2)"
proof -
  have b: "fst (Pick 5 LeastConn ''eu'' nodes3 None) = Some ''b''"
    and u: "fst (Pick 5 Random ''us'' nodes3 None) = None" by code_simp+
  have len: "length nodes3 < 2 ^ 64" by (simp add: nodes3_def)
  have "nodes3 ! 2 \<in> set nodes3" "n_Region (nodes3 ! 2) = ''us''" by (simp_all add: nodes3_def)
  then have us: "n_Capacity (nodes3 ! 2) \<le> n_Active (nodes3 ! 2)"
    using Pick_sound_complete [OF len, where draw = 5 and strategy = Random and region = "''us''" and rr = None] u
    by simp
  show ?thesis
    using Pick_sound_complete [OF len, where draw = 5 and strategy = LeastConn and region = "''eu''" and rr = None]
      b u us by simp
qed

text \<open>
  C15: under least connections the chosen exit is minimal among the eligible ones in the documented
  order: fewest active clients, then lowest load fraction, then lowest id.
\<close>

theorem Pick_LeastConn_minimal:
  assumes "fst (Pick draw LeastConn region nodes rr) = Some i"
  shows "\<exists>n \<in> set (eligible_nodes region nodes). n_ID n = i \<and>
    (\<forall>m \<in> set (eligible_nodes region nodes).
       n_Active n < n_Active m \<or> (n_Active n = n_Active m \<and> (loadFraction n < loadFraction m \<or>
         (loadFraction n = loadFraction m \<and> n_ID n \<le> n_ID m))))"
proof -
  have ne: "eligible_nodes region nodes \<noteq> []" using assms by (auto simp: Pick_def Let_def)
  then have "n_ID (least_conn (sort_key n_ID (eligible_nodes region nodes))) = i"
    using assms by (simp add: Pick_def Let_def)
  then show ?thesis using best_in [OF ne] by (auto simp: lc_le_def)
qed

theorem Pick_LeastConn_minimal_witness:
  "\<exists>n. n \<in> set nodes3 \<and> n_ID n = ''b'' \<and> n_Active n = n_Active (nodes3 ! 0) \<and>
    loadFraction n < loadFraction (nodes3 ! 0)"
proof -
  have e: "eligible_nodes ''eu'' nodes3 = take 2 nodes3"
    by (simp add: eligible_nodes_def hasSpare_def nodes3_def)
  have "fst (Pick 0 LeastConn ''eu'' nodes3 None) = Some ''b''" by code_simp
  from Pick_LeastConn_minimal [OF this]
  have "\<exists>n \<in> set (take 2 nodes3). n_ID n = ''b'' \<and> (\<forall>m \<in> set (take 2 nodes3). lc_le n m)"
    unfolding e lc_le_def .
  moreover have "nodes3 ! 0 \<in> set (take 2 nodes3)" by (simp add: nodes3_def)
  ultimately obtain n where n: "n \<in> set (take 2 nodes3)" "n_ID n = ''b''" "lc_le n (nodes3 ! 0)"
    by blast
  moreover have "n_Active n = n_Active (nodes3 ! 0)" "n_ID n < n_ID (nodes3 ! 0)" "loadFraction n \<noteq> loadFraction (nodes3 ! 0)"
    using n(1,2) by (auto simp: nodes3_def loadFraction_def)
  ultimately show ?thesis by (auto simp: lc_le_def dest: in_set_takeD)
qed

text \<open>
  round-robin is fair: over as many consecutive picks as there are eligible exits, with the set
  of nodes unchanged and the counter not wrapping, every eligible exit is chosen exactly once.
\<close>

theorem Pick_RoundRobin_fair:
  assumes "eligible_nodes region nodes \<noteq> []" and "length nodes < 2 ^ 64"
    and "unat i + length (eligible_nodes region nodes) < 2 ^ 64"
  shows "mset (pick_round (length (eligible_nodes region nodes)) region nodes (Some i)) =
    image_mset Some (image_mset n_ID (mset (eligible_nodes region nodes)))"
proof -
  define srt where "srt = sort_key n_ID (eligible_nodes region nodes)"
  have len: "length srt = length (eligible_nodes region nodes)" by (simp add: srt_def)
  have "mset (pick_round (length (eligible_nodes region nodes)) region nodes (Some i)) =
      image_mset (Some \<circ> n_ID) (mset (map (\<lambda>j. srt ! ((unat i + j) mod length srt)) [0..<length srt]))"
    using pick_round_nth [OF assms]
    by (simp add: srt_def [symmetric] len comp_def multiset.map_comp del: mset_map flip: mset_map)
  also have "\<dots> = image_mset (Some \<circ> n_ID) (mset srt)"
    using rotation_mset [of srt "unat i"] assms(1) len by simp
  finally show ?thesis by (simp add: srt_def multiset.map_comp)
qed

theorem Pick_RoundRobin_fair_witness:
  "mset (pick_round 2 ''eu'' nodes3 (Some 7)) = {#Some ''b'', Some ''c''#}"
proof -
  have e: "eligible_nodes ''eu'' nodes3 = take 2 nodes3"
    by (simp add: eligible_nodes_def hasSpare_def nodes3_def)
  have n: "length (eligible_nodes ''eu'' nodes3) = 2"
      "image_mset Some (image_mset n_ID (mset (eligible_nodes ''eu'' nodes3))) = {#Some ''b'', Some ''c''#}"
    unfolding e by (simp_all add: nodes3_def)
  have "eligible_nodes ''eu'' nodes3 \<noteq> []" "length nodes3 < 2 ^ 64"
    unfolding e by (simp_all add: nodes3_def)
  from Pick_RoundRobin_fair [OF this, of 7] show ?thesis unfolding n by simp
qed

end
