(* ===== verification/QosStore.thy ===== *)
theory QosStore
  imports Prelude
begin

text \<open>
  \<^verbatim>\<open>internal/qos/history.go\<close>: the persistent history store. An event, the asynchronous store
  (bounded queue, writer goroutine, close flag) and the JSONL file backend. The file is the list of
  events its lines hold, oldest first; a line that does not parse is skipped on reading and so is
  not an element. What the operating system answers on a write is an argument.
\<close>

record qos_event =
  ev_TS :: gotime
  ev_Kind :: string
  ev_SessionID :: string
  ev_NodeID :: string
  ev_Region :: string
  ev_Username :: string
  ev_ThroughputBps :: float64
  ev_Detail :: string

section \<open>The file backend\<close>

record file_backend =
  fb_rows :: "qos_event list"
  fb_maxRows :: nat
  fb_open :: bool

definition defaultFileMaxRows :: nat where
  "defaultFileMaxRows = 5000"

text \<open>A failing write leaves the file as it was and its error is dropped by the writer.\<close>

definition fb_write :: "bool \<Rightarrow> qos_event \<Rightarrow> file_backend \<Rightarrow> file_backend" where
  "fb_write io_ok ev fb = (if io_ok then fb\<lparr>fb_rows := fb_rows fb @ [ev]\<rparr> else fb)"

text \<open>The loop of \<open>load\<close>: from the last row back, stopping at the limit.\<close>

fun load_loop :: "int \<Rightarrow> qos_event list \<Rightarrow> qos_event list \<Rightarrow> qos_event list" where
  "load_loop limit [] out = out"
| "load_loop limit (e # es) out =
    (let out' = out @ [e]
     in if limit > 0 \<and> int (length out') \<ge> limit then out' else load_loop limit es out')"

definition fb_load :: "int \<Rightarrow> file_backend \<Rightarrow> qos_event list" where
  "fb_load limit fb = load_loop limit (rev (fb_rows fb)) []"

definition fb_trim :: "file_backend \<Rightarrow> file_backend" where
  "fb_trim fb =
    (let evs = fb_rows fb in
     if length evs \<le> fb_maxRows fb then fb
     else fb\<lparr>fb_rows := drop (length evs - fb_maxRows fb) evs\<rparr>)"

definition fb_close :: "file_backend \<Rightarrow> file_backend" where
  "fb_close fb = fb\<lparr>fb_open := False\<rparr>"

section \<open>The asynchronous store\<close>

record async_store =
  as_b :: file_backend
  as_ch :: "qos_event list"
  as_cap :: nat
  as_closed :: bool

definition newAsyncStore :: "file_backend \<Rightarrow> int \<Rightarrow> async_store" where
  "newAsyncStore fb buf =
    \<lparr>as_b = fb, as_ch = [], as_cap = nat (if buf \<le> 0 then 1024 else buf), as_closed = False\<rparr>"

definition NewFileHistory :: "qos_event list \<Rightarrow> async_store" where
  "NewFileHistory rows =
    newAsyncStore
      (fb_trim \<lparr>fb_rows = rows, fb_maxRows = defaultFileMaxRows, fb_open = False\<rparr>\<lparr>fb_open := True\<rparr>) 1024"

definition as_Append :: "qos_event \<Rightarrow> async_store \<Rightarrow> async_store" where
  "as_Append ev a =
    (if as_closed a then a
     else if length (as_ch a) < as_cap a then a\<lparr>as_ch := as_ch a @ [ev]\<rparr>
     else a)"

text \<open>One turn of the writer goroutine.\<close>

definition as_run :: "bool \<Rightarrow> async_store \<Rightarrow> async_store" where
  "as_run io_ok a =
    (case as_ch a of
       [] \<Rightarrow> a
     | ev # evs \<Rightarrow> a\<lparr>as_ch := evs, as_b := fb_write io_ok ev (as_b a)\<rparr>)"

definition as_Load :: "int \<Rightarrow> async_store \<Rightarrow> qos_event list" where
  "as_Load limit a = fb_load limit (as_b a)"

text \<open>\<open>Close\<close> waits until the writer has drained the queue.\<close>

definition as_Close :: "async_store \<Rightarrow> async_store" where
  "as_Close a =
    (if as_closed a then a
     else a\<lparr>as_closed := True, as_ch := [],
            as_b := fb_close (fold (fb_write True) (as_ch a) (as_b a))\<rparr>)"

section \<open>What the store keeps\<close>

lemma load_loop_spec:
  "load_loop limit es out =
    (if limit \<le> 0 then out @ es
     else if int (length out) < limit then out @ take (nat limit - length out) es
     else out @ take 1 es)"
proof (induction es arbitrary: out)
  case (Cons e es)
  show ?case
  proof (cases "limit > 0 \<and> int (length (out @ [e])) \<ge> limit")
    case True
    then have "int (length out) < limit \<Longrightarrow> nat limit - length out = 1" by simp
    with True show ?thesis by (simp add: Let_def)
  next
    case False
    then show ?thesis using Cons.IH [of "out @ [e]"]
      by (auto simp: Let_def take_Cons' Suc_diff_Suc nat_less_iff)
  qed
qed simp

lemma fb_load_spec:
  "fb_load limit fb = (if limit \<le> 0 then rev (fb_rows fb) else take (nat limit) (rev (fb_rows fb)))"
  by (simp add: fb_load_def load_loop_spec)

lemma fb_write_rows [simp]: "fb_rows (fb_write True ev fb) = fb_rows fb @ [ev]"
  by (simp add: fb_write_def)

lemma fold_write_rows: "fb_rows (fold (fb_write True) evs fb) = fb_rows fb @ evs"
  by (induction evs arbitrary: fb) simp_all

lemma fb_trim_rows: "fb_rows (fb_trim fb) = drop (length (fb_rows fb) - fb_maxRows fb) (fb_rows fb)"
  by (simp add: fb_trim_def Let_def)

text \<open>The events the store has accepted: those in the file and those still queued.\<close>

definition as_log :: "async_store \<Rightarrow> qos_event list" where
  "as_log a = fb_rows (as_b a) @ as_ch a"

lemma as_log_Append:
  "as_log (as_Append ev a) =
    as_log a @ (if as_closed a \<or> as_cap a \<le> length (as_ch a) then [] else [ev])"
  by (simp add: as_log_def as_Append_def not_less)

lemma as_log_run [simp]: "as_log (as_run True a) = as_log a"
  by (simp add: as_log_def as_run_def split: list.splits)

lemma as_Close_rows: "\<not> as_closed a \<Longrightarrow> fb_rows (as_b (as_Close a)) = as_log a"
  by (simp add: as_Close_def as_log_def fold_write_rows fb_close_def)

lemma as_Append_closed [simp]: "as_closed (as_Append ev a) = as_closed a" "as_cap (as_Append ev a) = as_cap a"
  by (simp_all add: as_Append_def)

lemma as_queue_bound: "length (as_ch a) \<le> as_cap a \<Longrightarrow> length (as_ch (as_Append ev a)) \<le> as_cap a"
  by (simp add: as_Append_def)

end
