(* ===== verification/Qos.thy ===== *)
theory Qos
  imports QosStore
begin

text \<open>
  \<^verbatim>\<open>internal/qos/qos.go\<close>: the quality-of-service tracker. Per-exit and per-session state, every
  operation, the capped history ring and the read-outs. The clock is an argument of the operations
  that read it; rates are exact rationals; byte counters are 64-bit and wrap.
\<close>

definition KindNodeUp :: string where "KindNodeUp = ''node_up''"
definition KindNodeDown :: string where "KindNodeDown = ''node_down''"
definition KindConnect :: string where "KindConnect = ''connect''"
definition KindDisconnect :: string where "KindDisconnect = ''disconnect''"
definition KindSpeedDrop :: string where "KindSpeedDrop = ''speed_drop''"
definition KindRecovered :: string where "KindRecovered = ''recovered''"

lemmas kind_defs = KindNodeUp_def KindNodeDown_def KindConnect_def KindDisconnect_def
  KindSpeedDrop_def KindRecovered_def

definition PathRelay :: string where "PathRelay = ''relay''"
definition PathDirect :: string where "PathDirect = ''direct''"

definition DefaultHistory :: int where "DefaultHistory = 1000"
definition defaultDropFactor :: float64 where "defaultDropFactor = 1 / 2"
definition defaultRecoverPct :: float64 where "defaultRecoverPct = 4 / 5"
definition defaultFloorBps :: float64 where "defaultFloorBps = 65536"
definition windowDur :: duration where "windowDur = second"

record session_stat =
  ss_SessionID :: string
  ss_NodeID :: string
  ss_Region :: string
  ss_Username :: string
  ss_Path :: string
  ss_StartedAt :: gotime
  ss_DurationSec :: int
  ss_BytesUp :: u64
  ss_BytesDown :: u64
  ss_ThroughputBps :: float64
  ss_PeakBps :: float64
  ss_Drops :: u64
  ss_RTTms :: int
  ss_Host :: string
  ss_TunName :: string
  ss_OS :: string
  ss_CPUPct :: float64
  ss_MemPct :: float64
  ss_DiskPct :: float64
  ss_Degraded :: bool
  ss_LastSeen :: gotime

record exit_stat =
  es_NodeID :: string
  es_Region :: string
  es_ActiveClients :: int
  es_BytesUp :: u64
  es_BytesDown :: u64
  es_ThroughputBps :: float64
  es_PeakBps :: float64
  es_ConnectedAt :: gotime
  es_LastSeen :: gotime

record qos_report =
  r_BytesUp :: u64
  r_BytesDown :: u64
  r_ThroughputBps :: float64
  r_Drops :: u64
  r_RTTms :: int
  r_Direct :: bool
  r_Host :: string
  r_TunName :: string
  r_OS :: string
  r_CPUPct :: float64
  r_MemPct :: float64
  r_DiskPct :: float64

record session_state =
  q_id :: string
  q_nodeID :: string
  q_region :: string
  q_username :: string
  q_path :: string
  q_startedAt :: gotime
  q_lastSeen :: gotime
  q_bytesUp :: u64
  q_bytesDown :: u64
  q_bps :: float64
  q_peakBps :: float64
  q_drops :: u64
  q_rttMs :: int
  q_host :: string
  q_tunName :: string
  q_os :: string
  q_cpu :: float64
  q_mem :: float64
  q_disk :: float64
  q_degraded :: bool
  q_winStart :: gotime
  q_winBytes :: u64

record exit_state =
  x_nodeID :: string
  x_region :: string
  x_active :: int
  x_bytesUp :: u64
  x_bytesDown :: u64
  x_bps :: float64
  x_peakBps :: float64
  x_connectedAt :: gotime
  x_lastSeen :: gotime
  x_winStart :: gotime
  x_winBytes :: u64

record tracker =
  t_histCap :: int
  t_hist :: "qos_event list"
  t_dropFactor :: float64
  t_recoverPct :: float64
  t_floorBps :: float64
  t_sessions :: "(string, session_state) gomap"
  t_exits :: "(string, exit_state) gomap"
  t_store :: "async_store option"

definition qos_New :: "int \<Rightarrow> tracker" where
  "qos_New histCap =
    \<lparr>t_histCap = (if histCap \<le> 0 then DefaultHistory else histCap), t_hist = [],
     t_dropFactor = defaultDropFactor, t_recoverPct = defaultRecoverPct, t_floorBps = defaultFloorBps,
     t_sessions = [], t_exits = [], t_store = None\<rparr>"

text \<open>A history entry with every field the caller leaves out at its zero value.\<close>

definition qos_ev :: "gotime \<Rightarrow> string \<Rightarrow> qos_event" where
  "qos_ev ts kind = \<lparr>ev_TS = ts, ev_Kind = kind, ev_SessionID = '''', ev_NodeID = '''',
     ev_Region = '''', ev_Username = '''', ev_ThroughputBps = 0, ev_Detail = ''''\<rparr>"

definition last_n :: "int \<Rightarrow> 'a list \<Rightarrow> 'a list" where
  "last_n n xs = (if int (length xs) > n then drop (nat (int (length xs) - n)) xs else xs)"

definition appendEvent :: "qos_event \<Rightarrow> tracker \<Rightarrow> tracker" where
  "appendEvent ev t =
    t\<lparr>t_hist := last_n (t_histCap t) (t_hist t @ [ev]),
      t_store := map_option (as_Append ev) (t_store t)\<rparr>"

definition NodeUp :: "gotime \<Rightarrow> string \<Rightarrow> string \<Rightarrow> gotime \<Rightarrow> tracker \<Rightarrow> tracker" where
  "NodeUp ts nodeID region connectedAt t =
    appendEvent ((qos_ev ts KindNodeUp)\<lparr>ev_NodeID := nodeID, ev_Region := region\<rparr>)
      (t\<lparr>t_exits := mput (t_exits t) nodeID
           \<lparr>x_nodeID = nodeID, x_region = region, x_active = 0, x_bytesUp = 0, x_bytesDown = 0,
            x_bps = 0, x_peakBps = 0, x_connectedAt = connectedAt, x_lastSeen = ts, x_winStart = ts,
            x_winBytes = 0\<rparr>\<rparr>)"

definition NodeDown :: "gotime \<Rightarrow> string \<Rightarrow> tracker \<Rightarrow> tracker" where
  "NodeDown ts nodeID t =
    (let region = (case mget (t_exits t) nodeID of Some e \<Rightarrow> x_region e | None \<Rightarrow> '''')
     in appendEvent ((qos_ev ts KindNodeDown)\<lparr>ev_NodeID := nodeID, ev_Region := region\<rparr>)
          (t\<lparr>t_exits := mdel (t_exits t) nodeID\<rparr>))"

definition qos_Connect ::
  "gotime \<Rightarrow> string \<Rightarrow> string \<Rightarrow> string \<Rightarrow> string \<Rightarrow> gotime \<Rightarrow> tracker \<Rightarrow> tracker" where
  "qos_Connect ts sessionID nodeID region username startedAt t =
    (let ss = \<lparr>q_id = sessionID, q_nodeID = nodeID, q_region = region, q_username = username,
               q_path = PathRelay, q_startedAt = startedAt, q_lastSeen = ts, q_bytesUp = 0,
               q_bytesDown = 0, q_bps = 0, q_peakBps = 0, q_drops = 0, q_rttMs = 0, q_host = '''',
               q_tunName = '''', q_os = '''', q_cpu = 0, q_mem = 0, q_disk = 0, q_degraded = False,
               q_winStart = ts, q_winBytes = 0\<rparr>;
         t = t\<lparr>t_sessions := mput (t_sessions t) sessionID ss\<rparr>;
         t = (case mget (t_exits t) nodeID of
                None \<Rightarrow> t
              | Some e \<Rightarrow> t\<lparr>t_exits := mput (t_exits t) nodeID
                  (e\<lparr>x_active := x_active e + 1, x_lastSeen := ts\<rparr>)\<rparr>)
     in appendEvent ((qos_ev ts KindConnect)\<lparr>ev_SessionID := sessionID, ev_NodeID := nodeID,
          ev_Region := region, ev_Username := username\<rparr>) t)"

definition qos_Disconnect :: "gotime \<Rightarrow> string \<Rightarrow> tracker \<Rightarrow> tracker" where
  "qos_Disconnect ts sessionID t =
    (case mget (t_sessions t) sessionID of
       None \<Rightarrow> t
     | Some ss \<Rightarrow>
         (let t = t\<lparr>t_sessions := mdel (t_sessions t) sessionID\<rparr>;
              t = (case mget (t_exits t) (q_nodeID ss) of
                     None \<Rightarrow> t
                   | Some e \<Rightarrow>
                       if x_active e > 0 then
                         t\<lparr>t_exits := mput (t_exits t) (q_nodeID ss) (e\<lparr>x_active := x_active e - 1\<rparr>)\<rparr>
                       else t)
          in appendEvent ((qos_ev ts KindDisconnect)\<lparr>ev_SessionID := sessionID,
               ev_NodeID := q_nodeID ss, ev_Region := q_region ss, ev_Username := q_username ss\<rparr>) t))"

text \<open>
  \<open>sampleSession\<close> updates the session and may emit one event; the caller stores the session and
  the event is appended to the tracker's history.
\<close>

definition speed_event :: "gotime \<Rightarrow> string \<Rightarrow> session_state \<Rightarrow> float64 \<Rightarrow> qos_event" where
  "speed_event ts kind ss bps = (qos_ev ts kind)\<lparr>ev_SessionID := q_id ss, ev_NodeID := q_nodeID ss,
     ev_Region := q_region ss, ev_Username := q_username ss, ev_ThroughputBps := bps\<rparr>"

definition sampleSession ::
  "session_state \<Rightarrow> float64 \<Rightarrow> gotime \<Rightarrow> tracker \<Rightarrow> session_state \<times> tracker" where
  "sampleSession ss bps ts t =
    (let ss = ss\<lparr>q_bps := bps\<rparr>;
         ss = (if bps > q_peakBps ss then ss\<lparr>q_peakBps := bps\<rparr> else ss)
     in if q_peakBps ss < t_floorBps t then (ss, t)
        else if \<not> q_degraded ss \<and> bps < q_peakBps ss * t_dropFactor t then
          (let ss = ss\<lparr>q_degraded := True\<rparr> in (ss, appendEvent (speed_event ts KindSpeedDrop ss bps) t))
        else if q_degraded ss \<and> bps \<ge> q_peakBps ss * t_recoverPct t then
          (let ss = ss\<lparr>q_degraded := False\<rparr> in (ss, appendEvent (speed_event ts KindRecovered ss bps) t))
        else (ss, t))"

definition u64_float :: "u64 \<Rightarrow> float64" where
  "u64_float w = of_nat (unat w)"

definition exit_addBytes :: "gotime \<Rightarrow> bool \<Rightarrow> int \<Rightarrow> exit_state \<Rightarrow> exit_state" where
  "exit_addBytes ts fromClient n e =
    (let e = e\<lparr>x_lastSeen := ts\<rparr>;
         e = (if fromClient then e\<lparr>x_bytesUp := x_bytesUp e + of_int n\<rparr>
              else e\<lparr>x_bytesDown := x_bytesDown e + of_int n\<rparr>);
         e = e\<lparr>x_winBytes := x_winBytes e + of_int n\<rparr>;
         d = ts - x_winStart e
     in if d \<ge> windowDur then
          let e = e\<lparr>x_bps := u64_float (x_winBytes e) / dur_seconds d\<rparr>;
              e = (if x_bps e > x_peakBps e then e\<lparr>x_peakBps := x_bps e\<rparr> else e)
          in e\<lparr>x_winStart := ts, x_winBytes := 0\<rparr>
        else e)"

definition session_addBytes :: "gotime \<Rightarrow> bool \<Rightarrow> int \<Rightarrow> session_state \<Rightarrow> session_state" where
  "session_addBytes ts fromClient n ss =
    (let ss = ss\<lparr>q_lastSeen := ts\<rparr>;
         ss = (if fromClient then ss\<lparr>q_bytesUp := q_bytesUp ss + of_int n\<rparr>
               else ss\<lparr>q_bytesDown := q_bytesDown ss + of_int n\<rparr>)
     in ss\<lparr>q_winBytes := q_winBytes ss + of_int n\<rparr>)"

definition session_window :: "gotime \<Rightarrow> session_state \<Rightarrow> tracker \<Rightarrow> session_state \<times> tracker" where
  "session_window ts ss t =
    (let d = ts - q_winStart ss in
     if d \<ge> windowDur then
       (let (ss, t) = sampleSession ss (u64_float (q_winBytes ss) / dur_seconds d) ts t
        in (ss\<lparr>q_winStart := ts, q_winBytes := 0\<rparr>, t))
     else (ss, t))"

definition AddBytes :: "gotime \<Rightarrow> string \<Rightarrow> bool \<Rightarrow> int \<Rightarrow> tracker \<Rightarrow> tracker" where
  "AddBytes ts sessionID fromClient n t =
    (case mget (t_sessions t) sessionID of
       None \<Rightarrow> t
     | Some ss0 \<Rightarrow>
         (let (ss, t) = session_window ts (session_addBytes ts fromClient n ss0) t;
              t = t\<lparr>t_sessions := mput (t_sessions t) sessionID ss\<rparr>
          in case mget (t_exits t) (q_nodeID ss) of
               None \<Rightarrow> t
             | Some e \<Rightarrow> t\<lparr>t_exits := mput (t_exits t) (q_nodeID ss) (exit_addBytes ts fromClient n e)\<rparr>))"

text \<open>The field-by-field merge of \<open>Report\<close>.\<close>

definition merge_report :: "gotime \<Rightarrow> qos_report \<Rightarrow> session_state \<Rightarrow> session_state" where
  "merge_report ts r ss =
    (let ss = ss\<lparr>q_lastSeen := ts\<rparr>;
         ss = (if r_BytesUp r > q_bytesUp ss then ss\<lparr>q_bytesUp := r_BytesUp r\<rparr> else ss);
         ss = (if r_BytesDown r > q_bytesDown ss then ss\<lparr>q_bytesDown := r_BytesDown r\<rparr> else ss);
         ss = (if r_Drops r > q_drops ss then ss\<lparr>q_drops := r_Drops r\<rparr> else ss);
         ss = (if r_RTTms r > 0 then ss\<lparr>q_rttMs := r_RTTms r\<rparr> else ss);
         ss = (if r_Host r \<noteq> '''' then ss\<lparr>q_host := r_Host r\<rparr> else ss);
         ss = (if r_TunName r \<noteq> '''' then ss\<lparr>q_tunName := r_TunName r\<rparr> else ss);
         ss = (if r_OS r \<noteq> '''' then ss\<lparr>q_os := r_OS r\<rparr> else ss);
         ss = (if r_CPUPct r > 0 then ss\<lparr>q_cpu := r_CPUPct r\<rparr> else ss);
         ss = (if r_MemPct r > 0 then ss\<lparr>q_mem := r_MemPct r\<rparr> else ss);
         ss = (if r_DiskPct r > 0 then ss\<lparr>q_disk := r_DiskPct r\<rparr> else ss)
     in if r_Direct r then ss\<lparr>q_path := PathDirect\<rparr> else ss)"

definition Report :: "gotime \<Rightarrow> string \<Rightarrow> qos_report \<Rightarrow> tracker \<Rightarrow> tracker" where
  "Report ts sessionID r t =
    (case mget (t_sessions t) sessionID of
       None \<Rightarrow> t
     | Some ss0 \<Rightarrow>
         (let ss = merge_report ts r ss0;
              (ss, t) = (if r_ThroughputBps r > 0 then sampleSession ss (r_ThroughputBps r) ts t else (ss, t))
          in t\<lparr>t_sessions := mput (t_sessions t) sessionID ss\<rparr>))"

section \<open>The store and the read-outs\<close>

definition WithStore :: "async_store \<Rightarrow> tracker \<Rightarrow> tracker" where
  "WithStore s t = t\<lparr>t_store := Some s\<rparr>"

definition CloseStore :: "tracker \<Rightarrow> tracker" where
  "CloseStore t = t\<lparr>t_store := map_option as_Close (t_store t)\<rparr>"

definition Preload :: "int \<Rightarrow> tracker \<Rightarrow> tracker" where
  "Preload limit t =
    (case t_store t of
       None \<Rightarrow> t
     | Some s \<Rightarrow> t\<lparr>t_hist := last_n (t_histCap t) (rev (as_Load limit s))\<rparr>)"

text \<open>\<open>int64\<close> of a float truncates towards zero.\<close>

definition trunc_seconds :: "duration \<Rightarrow> int" where
  "trunc_seconds d = sgn d * (\<bar>d\<bar> div 1000000000)"

text \<open>The list view leaves the endpoint's host fields out; the view of one session has them.\<close>

definition stat_row :: "gotime \<Rightarrow> session_state \<Rightarrow> session_stat" where
  "stat_row now ss =
    \<lparr>ss_SessionID = q_id ss, ss_NodeID = q_nodeID ss, ss_Region = q_region ss,
     ss_Username = q_username ss, ss_Path = q_path ss, ss_StartedAt = q_startedAt ss,
     ss_DurationSec = trunc_seconds (now - q_startedAt ss), ss_BytesUp = q_bytesUp ss,
     ss_BytesDown = q_bytesDown ss, ss_ThroughputBps = q_bps ss, ss_PeakBps = q_peakBps ss,
     ss_Drops = q_drops ss, ss_RTTms = q_rttMs ss, ss_Host = '''', ss_TunName = '''', ss_OS = '''',
     ss_CPUPct = 0, ss_MemPct = 0, ss_DiskPct = 0, ss_Degraded = q_degraded ss,
     ss_LastSeen = q_lastSeen ss\<rparr>"

definition qos_Sessions :: "gotime \<Rightarrow> tracker \<Rightarrow> session_stat list" where
  "qos_Sessions now t = sort_key ss_SessionID (map (stat_row now \<circ> snd) (t_sessions t))"

definition qos_Session :: "gotime \<Rightarrow> string \<Rightarrow> tracker \<Rightarrow> session_stat option" where
  "qos_Session now sid t =
    map_option (\<lambda>ss. (stat_row now ss)\<lparr>ss_Host := q_host ss, ss_TunName := q_tunName ss,
      ss_OS := q_os ss, ss_CPUPct := q_cpu ss, ss_MemPct := q_mem ss, ss_DiskPct := q_disk ss\<rparr>)
      (mget (t_sessions t) sid)"

definition exit_row :: "exit_state \<Rightarrow> exit_stat" where
  "exit_row e =
    \<lparr>es_NodeID = x_nodeID e, es_Region = x_region e, es_ActiveClients = x_active e,
     es_BytesUp = x_bytesUp e, es_BytesDown = x_bytesDown e, es_ThroughputBps = x_bps e,
     es_PeakBps = x_peakBps e, es_ConnectedAt = x_connectedAt e, es_LastSeen = x_lastSeen e\<rparr>"

definition ExitOne :: "string \<Rightarrow> tracker \<Rightarrow> exit_stat option" where
  "ExitOne i t = map_option exit_row (mget (t_exits t) i)"

definition qos_Exits :: "tracker \<Rightarrow> exit_stat list" where
  "qos_Exits t = sort_key es_NodeID (map (exit_row \<circ> snd) (t_exits t))"

definition ActiveClients :: "string \<Rightarrow> tracker \<Rightarrow> int" where
  "ActiveClients nodeID t =
    (case mget (t_exits t) nodeID of Some e \<Rightarrow> x_active e | None \<Rightarrow> 0)"

definition History :: "int \<Rightarrow> tracker \<Rightarrow> qos_event list" where
  "History limit t =
    (let h = t_hist t;
         n = (if limit > 0 \<and> limit < int (length h) then nat limit else length h)
     in map (\<lambda>i. h ! (length h - 1 - i)) [0..<n])"

section \<open>Traces of operations\<close>

datatype qos_op =
  QNodeUp gotime string string gotime | QNodeDown gotime string
| QConnect gotime string string string string gotime | QDisconnect gotime string
| QAddBytes gotime string bool int | QReport gotime string qos_report | QWriter

fun qos_step :: "qos_op \<Rightarrow> tracker \<Rightarrow> tracker" where
  "qos_step (QNodeUp ts n r c) t = NodeUp ts n r c t"
| "qos_step (QNodeDown ts n) t = NodeDown ts n t"
| "qos_step (QConnect ts s n r u st) t = qos_Connect ts s n r u st t"
| "qos_step (QDisconnect ts s) t = qos_Disconnect ts s t"
| "qos_step (QAddBytes ts s c n) t = AddBytes ts s c n t"
| "qos_step (QReport ts s r) t = Report ts s r t"
| "qos_step QWriter t = t\<lparr>t_store := map_option (as_run True) (t_store t)\<rparr>"

text \<open>
  The events a step records, computed from the same state. The log of a run is the list of all of
  them, with no cap.
\<close>

definition new_peak :: "session_state \<Rightarrow> float64 \<Rightarrow> float64" where
  "new_peak ss bps = (if bps > q_peakBps ss then bps else q_peakBps ss)"

definition sample_events :: "session_state \<Rightarrow> float64 \<Rightarrow> gotime \<Rightarrow> tracker \<Rightarrow> qos_event list" where
  "sample_events ss bps ts t =
    (if new_peak ss bps < t_floorBps t then []
     else if \<not> q_degraded ss \<and> bps < new_peak ss bps * t_dropFactor t then
       [speed_event ts KindSpeedDrop ss bps]
     else if q_degraded ss \<and> bps \<ge> new_peak ss bps * t_recoverPct t then
       [speed_event ts KindRecovered ss bps]
     else [])"

fun emitted :: "qos_op \<Rightarrow> tracker \<Rightarrow> qos_event list" where
  "emitted (QNodeUp ts n r c) t = [(qos_ev ts KindNodeUp)\<lparr>ev_NodeID := n, ev_Region := r\<rparr>]"
| "emitted (QNodeDown ts n) t =
    [(qos_ev ts KindNodeDown)\<lparr>ev_NodeID := n,
       ev_Region := (case mget (t_exits t) n of Some e \<Rightarrow> x_region e | None \<Rightarrow> '''')\<rparr>]"
| "emitted (QConnect ts s n r u st) t =
    [(qos_ev ts KindConnect)\<lparr>ev_SessionID := s, ev_NodeID := n, ev_Region := r, ev_Username := u\<rparr>]"
| "emitted (QDisconnect ts s) t =
    (case mget (t_sessions t) s of
       None \<Rightarrow> []
     | Some ss \<Rightarrow> [(qos_ev ts KindDisconnect)\<lparr>ev_SessionID := s, ev_NodeID := q_nodeID ss,
         ev_Region := q_region ss, ev_Username := q_username ss\<rparr>])"
| "emitted (QAddBytes ts s c n) t =
    (case mget (t_sessions t) s of
       None \<Rightarrow> []
     | Some ss \<Rightarrow>
         if ts - q_winStart ss \<ge> windowDur then
           sample_events ss (u64_float (q_winBytes ss + of_int n) / dur_seconds (ts - q_winStart ss)) ts t
         else [])"
| "emitted (QReport ts s r) t =
    (case mget (t_sessions t) s of
       None \<Rightarrow> []
     | Some ss \<Rightarrow> if r_ThroughputBps r > 0 then sample_events ss (r_ThroughputBps r) ts t else [])"
| "emitted QWriter t = []"

fun qos_log :: "qos_op list \<Rightarrow> tracker \<Rightarrow> qos_event list" where
  "qos_log [] t = []"
| "qos_log (x # xs) t = emitted x t @ qos_log xs (qos_step x t)"

text \<open>A step appends its events to the ring; the configuration stays.\<close>

definition appends :: "qos_event list \<Rightarrow> tracker \<Rightarrow> tracker \<Rightarrow> bool" where
  "appends evs t t' =
    (t_histCap t' = t_histCap t \<and> t_dropFactor t' = t_dropFactor t \<and>
     t_recoverPct t' = t_recoverPct t \<and> t_floorBps t' = t_floorBps t \<and>
     t_hist t' = fold (\<lambda>e h. last_n (t_histCap t) (h @ [e])) evs (t_hist t))"

lemma appends_trans: "appends es t t1 \<Longrightarrow> appends fs t1 t2 \<Longrightarrow> appends (es @ fs) t t2"
  by (auto simp: appends_def)

lemma appendEvent_simps [simp]:
  "t_sessions (appendEvent ev t) = t_sessions t" "t_exits (appendEvent ev t) = t_exits t"
  "t_histCap (appendEvent ev t) = t_histCap t" "t_dropFactor (appendEvent ev t) = t_dropFactor t"
  "t_recoverPct (appendEvent ev t) = t_recoverPct t" "t_floorBps (appendEvent ev t) = t_floorBps t"
  "t_hist (appendEvent ev t) = last_n (t_histCap t) (t_hist t @ [ev])"
  "t_store (appendEvent ev t) = map_option (as_Append ev) (t_store t)"
  by (simp_all add: appendEvent_def)

text \<open>The outcome of one throughput sample.\<close>

lemma sampleSession_fst:
  "fst (sampleSession ss bps ts t) =
    ss\<lparr>q_bps := bps, q_peakBps := new_peak ss bps,
       q_degraded := (q_degraded ss \<noteq> (sample_events ss bps ts t \<noteq> []))\<rparr>"
  by (auto simp: sampleSession_def sample_events_def new_peak_def Let_def)

lemma sampleSession_snd: "snd (sampleSession ss bps ts t) = fold appendEvent (sample_events ss bps ts t) t"
  by (auto simp: sampleSession_def sample_events_def new_peak_def speed_event_def Let_def)

lemma sampleSession_pair:
  "sampleSession ss bps ts t =
    (ss\<lparr>q_bps := bps, q_peakBps := new_peak ss bps,
        q_degraded := (q_degraded ss \<noteq> (sample_events ss bps ts t \<noteq> []))\<rparr>,
     fold appendEvent (sample_events ss bps ts t) t)"
  using sampleSession_fst sampleSession_snd by (metis prod.collapse)

lemma fold_append_simps [simp]:
  "t_sessions (fold appendEvent evs t) = t_sessions t" "t_exits (fold appendEvent evs t) = t_exits t"
  "t_histCap (fold appendEvent evs t) = t_histCap t" "t_dropFactor (fold appendEvent evs t) = t_dropFactor t"
  "t_recoverPct (fold appendEvent evs t) = t_recoverPct t" "t_floorBps (fold appendEvent evs t) = t_floorBps t"
  "t_hist (fold appendEvent evs t) = fold (\<lambda>e h. last_n (t_histCap t) (h @ [e])) evs (t_hist t)"
  by (induction evs arbitrary: t) simp_all

lemma fold_append_store:
  "t_store (fold appendEvent evs t) = map_option (fold as_Append evs) (t_store t)"
  by (induction evs arbitrary: t) (simp_all add: option.map_comp comp_def option.map_id id_def option.map_ident)

lemma merge_report_keeps [simp]:
  "q_id (merge_report ts r ss) = q_id ss" "q_nodeID (merge_report ts r ss) = q_nodeID ss"
  "q_region (merge_report ts r ss) = q_region ss" "q_username (merge_report ts r ss) = q_username ss"
  "q_peakBps (merge_report ts r ss) = q_peakBps ss" "q_degraded (merge_report ts r ss) = q_degraded ss"
  by (simp_all add: merge_report_def Let_def)

lemma sample_events_cong:
  assumes "q_id s' = q_id s" "q_nodeID s' = q_nodeID s" "q_region s' = q_region s"
    "q_username s' = q_username s" "q_peakBps s' = q_peakBps s" "q_degraded s' = q_degraded s"
  shows "sample_events s' bps ts t = sample_events s bps ts t"
  using assms by (simp add: sample_events_def new_peak_def speed_event_def)

lemma exit_addBytes_keeps [simp]:
  "x_active (exit_addBytes ts c n e) = x_active e" "x_nodeID (exit_addBytes ts c n e) = x_nodeID e"
  "x_region (exit_addBytes ts c n e) = x_region e"
  by (simp_all add: exit_addBytes_def Let_def)

text \<open>What a data-plane step (\<open>AddBytes\<close>, \<open>Report\<close>) does to a session it knows.\<close>

definition touches :: "string \<Rightarrow> session_state \<Rightarrow> qos_event list \<Rightarrow> tracker \<Rightarrow> tracker \<Rightarrow> bool" where
  "touches sid ss evs t t' =
    (\<exists>ss'. t_sessions t' = mput (t_sessions t) sid ss' \<and> q_id ss' = q_id ss \<and>
      q_nodeID ss' = q_nodeID ss \<and> q_degraded ss' = (q_degraded ss \<noteq> (evs \<noteq> [])))"

lemma AddBytes_effect:
  assumes "mget (t_sessions t) sid = Some ss"
    and evs_def: "evs = emitted (QAddBytes ts sid c n) t"
  shows "touches sid ss evs t (AddBytes ts sid c n t) \<and> appends evs t (AddBytes ts sid c n t) \<and>
    t_store (AddBytes ts sid c n t) = map_option (fold as_Append evs) (t_store t) \<and>
    (\<forall>k. map_option x_active (mget (t_exits (AddBytes ts sid c n t)) k) = map_option x_active (mget (t_exits t) k))"
proof -
  define s1 where "s1 = session_addBytes ts c n ss"
  have s1: "q_id s1 = q_id ss" "q_nodeID s1 = q_nodeID ss" "q_region s1 = q_region ss"
      "q_username s1 = q_username ss" "q_peakBps s1 = q_peakBps ss" "q_degraded s1 = q_degraded ss"
      "q_winStart s1 = q_winStart ss" "q_winBytes s1 = q_winBytes ss + of_int n"
    by (simp_all add: s1_def session_addBytes_def Let_def)
  obtain s2 t2 where w: "session_window ts s1 t = (s2, t2)" by fastforce
  have "evs = (if ts - q_winStart ss \<ge> windowDur
      then sample_events s1 (u64_float (q_winBytes s1) / dur_seconds (ts - q_winStart s1)) ts t else [])"
    using assms(1) s1 sample_events_cong [of s1 ss] by (simp add: evs_def)
  then have s2: "t2 = fold appendEvent evs t" "q_id s2 = q_id ss" "q_nodeID s2 = q_nodeID ss"
      "q_degraded s2 = (q_degraded ss \<noteq> (evs \<noteq> []))"
    using s1 w by (auto simp: session_window_def sampleSession_pair Let_def split: if_splits)
  have "AddBytes ts sid c n t =
      (let t1 = t2\<lparr>t_sessions := mput (t_sessions t2) sid s2\<rparr>
       in case mget (t_exits t1) (q_nodeID s2) of None \<Rightarrow> t1
          | Some e \<Rightarrow> t1\<lparr>t_exits := mput (t_exits t1) (q_nodeID s2) (exit_addBytes ts c n e)\<rparr>)"
    using assms(1) w by (simp add: AddBytes_def s1_def)
  then show ?thesis
    using s2 by (auto simp: Let_def touches_def appends_def fold_append_store split: option.splits)
qed

lemma Report_effect:
  assumes "mget (t_sessions t) sid = Some ss" and evs_def: "evs = emitted (QReport ts sid r) t"
  shows "touches sid ss evs t (Report ts sid r t) \<and> appends evs t (Report ts sid r t) \<and>
    t_store (Report ts sid r t) = map_option (fold as_Append evs) (t_store t) \<and>
    t_exits (Report ts sid r t) = t_exits t"
proof -
  define s1 where "s1 = merge_report ts r ss"
  obtain s2 t2 where w: "(if r_ThroughputBps r > 0 then sampleSession s1 (r_ThroughputBps r) ts t else (s1, t)) = (s2, t2)"
    by fastforce
  have "evs = (if r_ThroughputBps r > 0 then sample_events s1 (r_ThroughputBps r) ts t else [])"
    using assms(1) sample_events_cong [of s1 ss] by (simp add: evs_def s1_def)
  then have s2: "t2 = fold appendEvent evs t" "q_id s2 = q_id ss" "q_nodeID s2 = q_nodeID ss"
      "q_degraded s2 = (q_degraded ss \<noteq> (evs \<noteq> []))"
    using w by (auto simp: sampleSession_pair s1_def split: if_splits)
  have "Report ts sid r t = t2\<lparr>t_sessions := mput (t_sessions t2) sid s2\<rparr>"
    using assms(1) w by (auto simp: Report_def s1_def [symmetric] Let_def split: if_splits)
  then show ?thesis
    using s2 by (auto simp: touches_def appends_def fold_append_store)
qed

lemma unknown_session:
  "mget (t_sessions t) sid = None \<Longrightarrow> AddBytes ts sid c n t = t"
  "mget (t_sessions t) sid = None \<Longrightarrow> Report ts sid r t = t"
  "mget (t_sessions t) sid = None \<Longrightarrow> qos_Disconnect ts sid t = t"
  by (simp_all add: AddBytes_def Report_def qos_Disconnect_def)

lemma step_appends: "appends (emitted x t) t (qos_step x t)"
proof (cases x)
  case (QAddBytes ts sid c n)
  show ?thesis
  proof (cases "mget (t_sessions t) sid")
    case None
    then show ?thesis using QAddBytes by (simp add: unknown_session appends_def)
  next
    case (Some ss)
    then show ?thesis using AddBytes_effect [OF Some refl, of ts c n] QAddBytes by simp
  qed
next
  case (QReport ts sid r)
  show ?thesis
  proof (cases "mget (t_sessions t) sid")
    case None
    then show ?thesis using QReport by (simp add: unknown_session appends_def)
  next
    case (Some ss)
    then show ?thesis using Report_effect [OF Some refl, of ts r] QReport by simp
  qed
qed (auto simp: appends_def NodeUp_def NodeDown_def qos_Connect_def qos_Disconnect_def Let_def
    split: option.splits)

lemma run_appends: "appends (qos_log ops t) t (fold qos_step ops t)"
proof (induction ops arbitrary: t)
  case (Cons x ops)
  then show ?case using appends_trans [OF step_appends [of x t]] by simp
qed (simp add: appends_def)

text \<open>The ring keeps the newest events.\<close>

lemma last_n_drop: "0 < c \<Longrightarrow> last_n c xs = drop (length xs - nat c) xs"
  by (auto simp: last_n_def nat_diff_distrib)

lemma last_n_append: "0 < c \<Longrightarrow> last_n c (last_n c xs @ ys) = last_n c (xs @ ys)"
  by (cases "length xs \<le> nat c") (auto simp: last_n_drop add.commute)

lemma ring_fold:
  "0 < c \<Longrightarrow> fold (\<lambda>e h. last_n c (h @ [e])) evs (last_n c h) = last_n c (h @ evs)"
proof (induction evs arbitrary: h)
  case (Cons e evs)
  have "last_n c (last_n c h @ [e]) = last_n c (h @ [e])" using Cons.prems by (rule last_n_append)
  then show ?case using Cons.IH [of "h @ [e]"] Cons.prems by simp
qed simp

lemma rev_drop_last: "rev (drop (length xs - n) xs) = take n (rev xs)"
  by (cases "n \<le> length xs") (auto simp: rev_drop)

lemma rev_last_n: "0 < c \<Longrightarrow> rev (last_n c xs) = take (nat c) (rev xs)"
  by (simp add: last_n_drop rev_drop_last)

lemma History_take:
  "History limit t = (if limit > 0 then take (nat limit) (rev (t_hist t)) else rev (t_hist t))"
proof -
  define h where "h = t_hist t"
  have "map (\<lambda>i. h ! (length h - 1 - i)) [0..<n] = take n (rev h)" if "n \<le> length h" for n
    using that by (intro nth_equalityI) (auto simp: rev_nth)
  then show ?thesis by (auto simp: History_def h_def Let_def)
qed

lemma run_history:
  assumes "0 < t_histCap t" and "t_hist t = last_n (t_histCap t) h"
  shows "t_hist (fold qos_step ops t) = last_n (t_histCap t) (h @ qos_log ops t)"
  using run_appends [of ops t] ring_fold [OF assms(1), of "qos_log ops t" h] assms(2)
  by (simp add: appends_def)

section \<open>Restart\<close>

text \<open>The store while its queue has room for everything the run records.\<close>

lemma fold_Append_room:
  assumes "\<not> as_closed s" and "length (as_ch s) + length evs \<le> as_cap s"
  shows "as_log (fold as_Append evs s) = as_log s @ evs \<and> \<not> as_closed (fold as_Append evs s) \<and>
    as_cap (fold as_Append evs s) = as_cap s \<and>
    length (as_ch (fold as_Append evs s)) = length (as_ch s) + length evs"
  using assms
proof (induction evs arbitrary: s)
  case (Cons e evs)
  from Cons.prems
  have "as_log (as_Append e s) = as_log s @ [e]" "length (as_ch (as_Append e s)) = Suc (length (as_ch s))"
    by (simp_all add: as_log_def as_Append_def)
  then show ?case using Cons by simp
qed simp

lemma step_store:
  "t_store (qos_step x t) =
    (if x = QWriter then map_option (as_run True) (t_store t)
     else map_option (fold as_Append (emitted x t)) (t_store t))"
proof (cases x)
  case (QAddBytes ts sid c n)
  show ?thesis
  proof (cases "mget (t_sessions t) sid")
    case None
    then show ?thesis using QAddBytes by (simp add: unknown_session option.map_id)
  next
    case (Some ss)
    then show ?thesis using AddBytes_effect [OF Some refl, of ts c n] QAddBytes by simp
  qed
next
  case (QReport ts sid r)
  show ?thesis
  proof (cases "mget (t_sessions t) sid")
    case None
    then show ?thesis using QReport by (simp add: unknown_session option.map_id)
  next
    case (Some ss)
    then show ?thesis using Report_effect [OF Some refl, of ts r] QReport by simp
  qed
qed (auto simp: NodeUp_def NodeDown_def qos_Connect_def qos_Disconnect_def Let_def option.map_id
    split: option.splits)

lemma as_run_ch: "length (as_ch (as_run b s)) \<le> length (as_ch s)" "as_closed (as_run b s) = as_closed s"
  "as_cap (as_run b s) = as_cap s"
  by (simp_all add: as_run_def split: list.splits)

lemma run_store:
  assumes "t_store t = Some s" and "\<not> as_closed s" and "length (as_ch s) + length (qos_log ops t) \<le> as_cap s"
  shows "\<exists>s'. t_store (fold qos_step ops t) = Some s' \<and> as_log s' = as_log s @ qos_log ops t \<and> \<not> as_closed s'"
  using assms
proof (induction ops arbitrary: t s)
  case (Cons x ops)
  define s1 where "s1 = (if x = QWriter then as_run True s else fold as_Append (emitted x t) s)"
  have st: "t_store (qos_step x t) = Some s1"
    using Cons.prems(1) step_store [of x t] by (simp add: s1_def)
  have s1: "as_log s1 = as_log s @ emitted x t" "\<not> as_closed s1" "as_cap s1 = as_cap s"
      "length (as_ch s1) \<le> length (as_ch s) + length (emitted x t)"
    using fold_Append_room [of s "emitted x t"] Cons.prems as_run_ch [of True s] by (auto simp: s1_def)
  show ?case using Cons.IH [OF st s1(2)] s1 Cons.prems(3) by auto
qed simp

section \<open>Counts and hysteresis\<close>

text \<open>
  Well-formed tracker state: maps with distinct keys, sessions stored under their own id, and the
  active count of an exit between zero and the number of sessions on it.
\<close>

definition sessions_on :: "string \<Rightarrow> tracker \<Rightarrow> string set" where
  "sessions_on n t = {k. \<exists>ss. mget (t_sessions t) k = Some ss \<and> q_nodeID ss = n}"

definition qos_ok :: "tracker \<Rightarrow> bool" where
  "qos_ok t =
    (mwf (t_sessions t) \<and> mwf (t_exits t) \<and>
     (\<forall>k ss. mget (t_sessions t) k = Some ss \<longrightarrow> q_id ss = k) \<and>
     (\<forall>n e. mget (t_exits t) n = Some e \<longrightarrow> 0 \<le> x_active e \<and> x_active e \<le> int (card (sessions_on n t))))"

text \<open>A connect uses a session id the tracker does not hold.\<close>

fun fresh_op :: "tracker \<Rightarrow> qos_op \<Rightarrow> bool" where
  "fresh_op t (QConnect ts s n r u st) = (mget (t_sessions t) s = None)"
| "fresh_op t _ = True"

fun fresh_ops :: "qos_op list \<Rightarrow> tracker \<Rightarrow> bool" where
  "fresh_ops [] t = True"
| "fresh_ops (x # xs) t = (fresh_op t x \<and> fresh_ops xs (qos_step x t))"

lemma sessions_on_finite [simp]: "finite (sessions_on n t)"
proof -
  have "sessions_on n t \<subseteq> fst ` set (t_sessions t)"
    by (auto simp: sessions_on_def dest!: mget_Some_in intro: rev_image_eqI)
  then show ?thesis by (rule finite_subset) simp
qed

lemma qos_ok_cong:
  assumes "qos_ok t" and "t_sessions t' = t_sessions t" and "t_exits t' = t_exits t"
  shows "qos_ok t'"
  using assms by (simp add: qos_ok_def sessions_on_def)

lemma qos_ok_touch:
  assumes ok: "qos_ok t" and ss: "mget (t_sessions t) sid = Some ss" and touch: "touches sid ss evs t t'"
    and wf: "mwf (t_exits t')"
    and act: "\<And>k. map_option x_active (mget (t_exits t') k) = map_option x_active (mget (t_exits t) k)"
  shows "qos_ok t'"
proof -
  obtain ss' where ss': "t_sessions t' = mput (t_sessions t) sid ss'" "q_id ss' = q_id ss" "q_nodeID ss' = q_nodeID ss"
    using touch by (auto simp: touches_def)
  have on: "sessions_on n t' = sessions_on n t" for n
    using ss ss' by (auto simp: sessions_on_def split: if_splits)
  have "0 \<le> x_active e' \<and> x_active e' \<le> int (card (sessions_on n t'))"
    if e': "mget (t_exits t') n = Some e'" for n e'
  proof -
    obtain e where "mget (t_exits t) n = Some e" "x_active e' = x_active e"
      using act [of n] e' by (cases "mget (t_exits t) n") auto
    then show ?thesis using ok on by (auto simp: qos_ok_def)
  qed
  then show ?thesis
    using ok ss ss' wf by (auto simp: qos_ok_def split: if_splits)
qed

lemma AddBytes_wf: "mwf (t_exits t) \<Longrightarrow> mwf (t_exits (AddBytes ts sid c n t))"
  by (auto simp: AddBytes_def session_window_def sampleSession_pair Let_def split: option.splits prod.splits if_splits)

lemma qos_ok_connect:
  assumes ok: "qos_ok t" and fresh: "mget (t_sessions t) s = None"
  shows "qos_ok (qos_Connect ts s n r u st t)"
proof -
  have grow: "card (sessions_on n (qos_Connect ts s n r u st t)) = Suc (card (sessions_on n t))"
  proof -
    have "sessions_on n (qos_Connect ts s n r u st t) = insert s (sessions_on n t)"
      using fresh by (auto simp: sessions_on_def qos_Connect_def Let_def split: option.splits if_splits)
    moreover have "s \<notin> sessions_on n t" using fresh by (simp add: sessions_on_def)
    ultimately show ?thesis by simp
  qed
  have same: "sessions_on m (qos_Connect ts s n r u st t) = sessions_on m t" if "m \<noteq> n" for m
    using that fresh by (auto simp: sessions_on_def qos_Connect_def Let_def split: option.splits if_splits)
  have "0 \<le> x_active e \<and> x_active e \<le> int (card (sessions_on m (qos_Connect ts s n r u st t)))"
    if e: "mget (t_exits (qos_Connect ts s n r u st t)) m = Some e" for m e
    using e ok grow same [of m] unfolding qos_ok_def
    by (cases "m = n"; cases "mget (t_exits t) n") (force simp: qos_Connect_def Let_def)+
  then show ?thesis
    using ok by (auto simp: qos_ok_def qos_Connect_def Let_def split: option.splits if_splits)
qed

lemma qos_ok_disconnect:
  assumes ok: "qos_ok t"
  shows "qos_ok (qos_Disconnect ts s t)"
proof (cases "mget (t_sessions t) s")
  case None
  then show ?thesis using ok by (simp add: unknown_session)
next
  case (Some ss)
  let ?t = "qos_Disconnect ts s t" and ?n = "q_nodeID ss"
  have sess: "t_sessions ?t = mdel (t_sessions t) s"
    using Some by (auto simp: qos_Disconnect_def Let_def split: option.splits)
  have "sessions_on ?n t = insert s (sessions_on ?n ?t)" "s \<notin> sessions_on ?n ?t"
    using Some sess by (auto simp: sessions_on_def split: if_splits)
  then have shrink: "card (sessions_on ?n t) = Suc (card (sessions_on ?n ?t))" by simp
  have same: "sessions_on m ?t = sessions_on m t" if "m \<noteq> ?n" for m
    using that Some sess by (auto simp: sessions_on_def split: if_splits)
  have "0 \<le> x_active e \<and> x_active e \<le> int (card (sessions_on m ?t))"
    if e: "mget (t_exits ?t) m = Some e" for m e
    using e ok shrink same [of m] Some unfolding qos_ok_def
    by (cases "m = ?n"; cases "mget (t_exits t) ?n")
      (force simp: qos_Disconnect_def Let_def split: if_splits)+
  then show ?thesis
    using ok sess Some by (auto simp: qos_ok_def qos_Disconnect_def Let_def split: option.splits if_splits)
qed

lemma qos_ok_nodes:
  "qos_ok t \<Longrightarrow> qos_ok (NodeUp ts n r c t)" "qos_ok t \<Longrightarrow> qos_ok (NodeDown ts n t)"
  "qos_ok t \<Longrightarrow> qos_ok (t\<lparr>t_store := st\<rparr>)"
  by (auto simp: qos_ok_def sessions_on_def NodeUp_def NodeDown_def Let_def)

lemma qos_ok_step: "qos_ok t \<Longrightarrow> fresh_op t x \<Longrightarrow> qos_ok (qos_step x t)"
proof (cases x)
  case (QAddBytes ts sid c n)
  assume ok: "qos_ok t"
  show ?thesis
  proof (cases "mget (t_sessions t) sid")
    case (Some ss)
    from AddBytes_effect [OF Some refl, of ts c n]
    have eff: "touches sid ss (emitted (QAddBytes ts sid c n) t) t (AddBytes ts sid c n t)"
      "\<And>k. map_option x_active (mget (t_exits (AddBytes ts sid c n t)) k) = map_option x_active (mget (t_exits t) k)"
      by blast+
    have "mwf (t_exits (AddBytes ts sid c n t))"
      using ok AddBytes_wf by (simp add: qos_ok_def)
    from qos_ok_touch [OF ok Some eff(1) this eff(2)] show ?thesis using QAddBytes by simp
  qed (use ok QAddBytes in \<open>simp add: unknown_session\<close>)
next
  case (QReport ts sid r)
  assume ok: "qos_ok t"
  show ?thesis
  proof (cases "mget (t_sessions t) sid")
    case (Some ss)
    from Report_effect [OF Some refl, of ts r]
    have eff: "touches sid ss (emitted (QReport ts sid r) t) t (Report ts sid r t)"
      "t_exits (Report ts sid r t) = t_exits t"
      by blast+
    then show ?thesis using qos_ok_touch [OF ok Some eff(1)] ok QReport by (simp add: qos_ok_def)
  qed (use ok QReport in \<open>simp add: unknown_session\<close>)
qed (simp_all add: qos_ok_connect qos_ok_disconnect qos_ok_nodes)

lemma qos_ok_run: "qos_ok t \<Longrightarrow> fresh_ops ops t \<Longrightarrow> qos_ok (fold qos_step ops t)"
  by (induction ops arbitrary: t) (auto simp: qos_ok_step)

text \<open>The speed events of one session alternate, starting with a drop when it is not degraded.\<close>

fun alternates :: "bool \<Rightarrow> string list \<Rightarrow> bool" where
  "alternates degraded [] = True"
| "alternates degraded (k # ks) =
    (k = (if degraded then KindRecovered else KindSpeedDrop) \<and> alternates (\<not> degraded) ks)"

definition speed_kinds :: "string \<Rightarrow> qos_event list \<Rightarrow> string list" where
  "speed_kinds sid evs =
    map ev_Kind (filter (\<lambda>e. ev_SessionID e = sid \<and> ev_Kind e \<in> {KindSpeedDrop, KindRecovered}) evs)"

lemma speed_kinds_append: "speed_kinds sid (xs @ ys) = speed_kinds sid xs @ speed_kinds sid ys"
  by (simp add: speed_kinds_def)

lemma alternates_append:
  "alternates d (xs @ ys) = (alternates d xs \<and> alternates (d \<noteq> odd (length xs)) ys)"
  by (induction xs arbitrary: d) auto

text \<open>The operations that open or close the session \<open>sid\<close>.\<close>

fun opens_or_closes :: "string \<Rightarrow> qos_op \<Rightarrow> bool" where
  "opens_or_closes sid (QConnect ts s n r u st) = (s = sid)"
| "opens_or_closes sid (QDisconnect ts s) = (s = sid)"
| "opens_or_closes sid _ = False"

lemma sample_events_kinds:
  "sample_events ss bps ts t = [] \<or>
   (\<exists>e. sample_events ss bps ts t = [e] \<and> ev_SessionID e = q_id ss \<and>
      ev_Kind e = (if q_degraded ss then KindRecovered else KindSpeedDrop))"
  by (auto simp: sample_events_def speed_event_def qos_ev_def)

text \<open>Control-plane operations record no speed event and leave other sessions alone.\<close>

lemma control_kind_neq [simp]:
  "KindNodeUp \<noteq> KindSpeedDrop" "KindNodeUp \<noteq> KindRecovered" "KindNodeDown \<noteq> KindSpeedDrop"
  "KindNodeDown \<noteq> KindRecovered" "KindConnect \<noteq> KindSpeedDrop" "KindConnect \<noteq> KindRecovered"
  "KindDisconnect \<noteq> KindSpeedDrop" "KindDisconnect \<noteq> KindRecovered"
  by (simp_all add: kind_defs)

lemma control_kinds:
  "speed_kinds sid (emitted (QNodeUp ts n r c) t) = []" "speed_kinds sid (emitted (QNodeDown ts n) t) = []"
  "speed_kinds sid (emitted (QConnect ts s n r u st) t) = []"
  "speed_kinds sid (emitted (QDisconnect ts s) t) = []" "speed_kinds sid (emitted QWriter t) = []"
  by (simp_all add: speed_kinds_def qos_ev_def split: option.split)

lemma control_sessions:
  "t_sessions (NodeUp ts n r c t) = t_sessions t" "t_sessions (NodeDown ts n t) = t_sessions t"
  "s \<noteq> sid \<Longrightarrow> mget (t_sessions (qos_Connect ts s n r u st t)) sid = mget (t_sessions t) sid"
  "s \<noteq> sid \<Longrightarrow> mget (t_sessions (qos_Disconnect ts s t)) sid = mget (t_sessions t) sid"
  by (auto simp: NodeUp_def NodeDown_def qos_Connect_def qos_Disconnect_def Let_def split: option.split)

text \<open>One step seen from a session that stays open.\<close>

lemma step_session:
  assumes ok: "\<forall>k ss. mget (t_sessions t) k = Some ss \<longrightarrow> q_id ss = k"
    and ss: "mget (t_sessions t) sid = Some ss" and stays: "\<not> opens_or_closes sid x"
  shows "\<exists>ss'. mget (t_sessions (qos_step x t)) sid = Some ss' \<and>
    q_degraded ss' = (q_degraded ss \<noteq> odd (length (speed_kinds sid (emitted x t)))) \<and>
    alternates (q_degraded ss) (speed_kinds sid (emitted x t))"
proof -
  have data: ?thesis
    if touch: "touches s ss0 (emitted x t) t (qos_step x t)" and s: "mget (t_sessions t) s = Some ss0"
      and ev: "emitted x t = [] \<or> (\<exists>e. emitted x t = [e] \<and> ev_SessionID e = q_id ss0 \<and>
        ev_Kind e = (if q_degraded ss0 then KindRecovered else KindSpeedDrop))" for s ss0
  proof -
    obtain ss' where ss': "t_sessions (qos_step x t) = mput (t_sessions t) s ss'"
        "q_degraded ss' = (q_degraded ss0 \<noteq> (emitted x t \<noteq> []))"
      using touch by (auto simp: touches_def)
    have id0: "q_id ss0 = s" using ok s by simp
    show ?thesis
    proof (cases "s = sid")
      case True
      with s ss have "ss0 = ss" by simp
      with True ss' ev id0 show ?thesis by (auto simp: speed_kinds_def)
    next
      case False
      with ev id0 have "speed_kinds sid (emitted x t) = []" by (auto simp: speed_kinds_def)
      with False ss' ss show ?thesis by simp
    qed
  qed
  show ?thesis
  proof (cases x)
    case (QAddBytes ts s c n)
    show ?thesis
    proof (cases "mget (t_sessions t) s")
      case (Some ss0)
      then show ?thesis
        using data [OF _ Some] AddBytes_effect [OF Some refl, of ts c n] QAddBytes
          sample_events_kinds [of ss0] by auto
    qed (use QAddBytes ss in \<open>simp add: unknown_session speed_kinds_def\<close>)
  next
    case (QReport ts s r)
    show ?thesis
    proof (cases "mget (t_sessions t) s")
      case (Some ss0)
      then show ?thesis
        using data [OF _ Some] Report_effect [OF Some refl, of ts r] QReport
          sample_events_kinds [of ss0] by auto
    qed (use QReport ss in \<open>simp add: unknown_session speed_kinds_def\<close>)
  qed (use ss stays in \<open>simp_all add: control_kinds control_sessions del: emitted.simps\<close>)
qed

lemma run_session:
  assumes "qos_ok t" and "fresh_ops ops t" and "mget (t_sessions t) sid = Some ss"
    and "list_all (\<lambda>x. \<not> opens_or_closes sid x) ops"
  shows "\<exists>ss'. mget (t_sessions (fold qos_step ops t)) sid = Some ss' \<and>
    q_degraded ss' = (q_degraded ss \<noteq> odd (length (speed_kinds sid (qos_log ops t)))) \<and>
    alternates (q_degraded ss) (speed_kinds sid (qos_log ops t))"
  using assms
proof (induction ops arbitrary: t ss)
  case (Cons x ops)
  have keys: "\<forall>k ss. mget (t_sessions t) k = Some ss \<longrightarrow> q_id ss = k"
    using Cons.prems(1) by (simp add: qos_ok_def)
  obtain ss1 where ss1: "mget (t_sessions (qos_step x t)) sid = Some ss1"
      "q_degraded ss1 = (q_degraded ss \<noteq> odd (length (speed_kinds sid (emitted x t))))"
      "alternates (q_degraded ss) (speed_kinds sid (emitted x t))"
    using step_session [OF keys Cons.prems(3), of x] Cons.prems(4) by auto
  show ?case
    using Cons.IH [OF _ _ ss1(1)] qos_ok_step [of t x] Cons.prems ss1(2,3)
    by (auto simp: speed_kinds_append alternates_append)
qed (simp add: speed_kinds_def)

section \<open>Properties\<close>

text \<open>
  after any sequence of tracker operations \<open>History\<close> returns, newest first, the events the
  operations recorded: as many as the limit asks for, and never more than the cap of the ring.
\<close>

theorem history_is_recent_log:
  "History limit (fold qos_step ops (qos_New cap)) =
    take (if limit > 0 then min (nat limit) (nat (if cap \<le> 0 then 1000 else cap))
          else nat (if cap \<le> 0 then 1000 else cap))
      (rev (qos_log ops (qos_New cap)))"
proof -
  let ?c = "if cap \<le> 0 then 1000 else cap"
  have c: "t_histCap (qos_New cap) = ?c" "0 < t_histCap (qos_New cap)"
    by (simp_all add: qos_New_def DefaultHistory_def)
  have "t_hist (qos_New cap) = last_n (t_histCap (qos_New cap)) []"
    by (simp add: qos_New_def last_n_def DefaultHistory_def)
  from run_history [OF c(2) this, of ops] show ?thesis
    using c by (simp add: History_take rev_last_n)
qed


text \<open>A short run: one exit, one client whose throughput drops and recovers.\<close>

definition fast_report :: "float64 \<Rightarrow> qos_report" where
  "fast_report bps = \<lparr>r_BytesUp = 0, r_BytesDown = 0, r_ThroughputBps = bps, r_Drops = 0, r_RTTms = 0,
     r_Direct = False, r_Host = '''', r_TunName = '''', r_OS = '''', r_CPUPct = 0, r_MemPct = 0, r_DiskPct = 0\<rparr>"

definition demo_ops :: "qos_op list" where
  "demo_ops =
    [QNodeUp 1 ''n1'' ''eu'' 1, QConnect 2 ''7'' ''n1'' ''eu'' ''bob'' 2,
     QReport 3 ''7'' (fast_report 100000), QReport 4 ''7'' (fast_report 40000),
     QWriter, QReport 5 ''7'' (fast_report 90000)]"


text \<open>
  while every connect uses a fresh session id, the tracker's state is well formed after any
  sequence of operations: each session is stored under its own id and the active count of every
  exit lies between zero and the number of sessions the tracker holds on it.
\<close>

theorem active_counts_sound:
  assumes "fresh_ops ops (qos_New cap)"
    and "mget (t_exits (fold qos_step ops (qos_New cap))) n = Some e"
  shows "0 \<le> x_active e \<and> x_active e \<le> int (card (sessions_on n (fold qos_step ops (qos_New cap)))) \<and>
    ActiveClients n (fold qos_step ops (qos_New cap)) = x_active e"
proof -
  have "qos_ok (qos_New cap)" by (simp add: qos_ok_def qos_New_def)
  from qos_ok_run [OF this assms(1)] assms(2) show ?thesis
    by (auto simp: qos_ok_def ActiveClients_def)
qed

theorem active_counts_sound_witness:
  "ActiveClients ''n1'' (fold qos_step demo_ops (qos_New 10)) = 1 \<and>
   1 \<le> card (sessions_on ''n1'' (fold qos_step demo_ops (qos_New 10)))"
proof -
  have fresh: "fresh_ops demo_ops (qos_New 10)" by code_simp
  have "map_option x_active (mget (t_exits (fold qos_step demo_ops (qos_New 10))) ''n1'') = Some 1"
    by code_simp
  then obtain e where "mget (t_exits (fold qos_step demo_ops (qos_New 10))) ''n1'' = Some e" "x_active e = 1"
    by auto
  from active_counts_sound [OF fresh this(1)] this(2) show ?thesis by simp
qed

text \<open>
  speed alarms have hysteresis. While a session stays open, the speed events recorded for it
  alternate between drop and recovered, beginning with a drop if it is not degraded, and it is
  flagged degraded exactly when the last of them is a drop.
\<close>

theorem speed_events_alternate:
  assumes "qos_ok t" and "fresh_ops ops t" and "mget (t_sessions t) sid = Some ss"
    and "list_all (\<lambda>x. \<not> opens_or_closes sid x) ops"
  shows "alternates (q_degraded ss) (speed_kinds sid (qos_log ops t)) \<and>
    (\<exists>ss'. mget (t_sessions (fold qos_step ops t)) sid = Some ss' \<and>
      q_degraded ss' = (q_degraded ss \<noteq> odd (length (speed_kinds sid (qos_log ops t)))))"
  using run_session [OF assms] by blast

theorem speed_events_alternate_witness:
  "speed_kinds ''7'' (qos_log (drop 2 demo_ops) (fold qos_step (take 2 demo_ops) (qos_New 10))) =
     [''speed_drop'', ''recovered''] \<and>
   alternates False
     (speed_kinds ''7'' (qos_log (drop 2 demo_ops) (fold qos_step (take 2 demo_ops) (qos_New 10))))"
proof -
  let ?t = "fold qos_step (take 2 demo_ops) (qos_New 10)"
  have "qos_ok (qos_New 10)" by (simp add: qos_ok_def qos_New_def)
  moreover have "fresh_ops (take 2 demo_ops) (qos_New 10)" by code_simp
  ultimately have ok: "qos_ok ?t" by (rule qos_ok_run)
  have "map_option q_degraded (mget (t_sessions ?t) ''7'') = Some False" by code_simp
  then obtain ss where ss: "mget (t_sessions ?t) ''7'' = Some ss" "\<not> q_degraded ss" by auto
  have fresh: "fresh_ops (drop 2 demo_ops) ?t" by code_simp
  have stays: "list_all (\<lambda>x. \<not> opens_or_closes ''7'' x) (drop 2 demo_ops)" by code_simp
  have "speed_kinds ''7'' (qos_log (drop 2 demo_ops) ?t) = [''speed_drop'', ''recovered'']" by code_simp
  with speed_events_alternate [OF ok fresh ss(1) stays] ss(2) show ?thesis by simp
qed

end
