(* ===== verification/AdminApi.thy ===== *)
theory AdminApi
  imports Prelude
begin

text \<open>
  \<^verbatim>\<open>internal/adminapi/types.go\<close> and \<^verbatim>\<open>internal/events/events.go\<close>: the data types of the
  admin API and the in-process event bus that feeds the live dashboard. A subscriber's buffered
  channel is the list of events it holds; whether it is closed is recorded too.
\<close>

section \<open>Types\<close>

definition UserEnabled :: string where "UserEnabled = ''enabled''"
definition UserDisabled :: string where "UserDisabled = ''disabled''"
definition NodeOnline :: string where "NodeOnline = ''online''"

record user =
  u_ID :: string
  u_Username :: string
  u_AllowedRegions :: "string list"
  u_Status :: string
  u_ActiveSessionCount :: int
  u_CreatedAt :: gotime
  u_UpdatedAt :: gotime

text \<open>The zero \<open>User\<close> the store returns beside an error.\<close>

definition no_user :: user where
  "no_user = \<lparr>u_ID = '''', u_Username = '''', u_AllowedRegions = [], u_Status = '''',
     u_ActiveSessionCount = 0, u_CreatedAt = 0, u_UpdatedAt = 0\<rparr>"

record user_create =
  uc_Username :: string
  uc_Credential :: string
  uc_AllowedRegions :: "string list"
  uc_Status :: string

record user_update =
  uu_AllowedRegions :: "string list option"
  uu_Status :: "string option"
  uu_Credential :: "string option"

record device_config =
  dc_Region :: string
  dc_Capacity :: int
  dc_VPNType :: string
  dc_DataplaneMode :: string
  dc_UplinkIface :: string
  dc_Version :: string

record device_view =
  dv_NodeID :: string
  dv_Name :: string
  dv_Region :: string
  dv_Status :: string
  dv_Version :: string
  dv_NATType :: string
  dv_System :: string
  dv_PublicAddr :: string
  dv_Capacity :: int
  dv_ActiveUsers :: int
  dv_LoadPct :: float64
  dv_CPUPct :: float64
  dv_MemPct :: float64
  dv_DiskPct :: float64
  dv_ThroughputBps :: float64
  dv_RTTms :: int
  dv_ConnectedAt :: gotime
  dv_LastSeen :: gotime
  dv_Config :: device_config

record admin_session =
  as_SessionID :: string
  as_UserID :: string
  as_Username :: string
  as_Name :: string
  as_NodeID :: string
  as_Region :: string
  as_Mode :: string
  as_State :: string
  as_StartedAt :: gotime
  as_BytesUp :: u64
  as_BytesDown :: u64
  as_ThroughputBps :: float64
  as_RTTms :: int
  as_Host :: string
  as_TunName :: string
  as_OS :: string
  as_CPUPct :: float64
  as_MemPct :: float64
  as_DiskPct :: float64

datatype event_type =
  EvSnapshot | EvNodeConnected | EvNodeUpdated | EvNodeDisconnected | EvSessionStarted | EvSessionEnded

record snapshot =
  sn_Nodes :: "device_view list"
  sn_Sessions :: "admin_session list"

record admin_event =
  e_Type :: event_type
  e_TS :: gotime
  e_Snapshot :: "snapshot option"
  e_Node :: "device_view option"
  e_NodeID :: string
  e_Session :: "admin_session option"

definition admin_ev :: "event_type \<Rightarrow> gotime \<Rightarrow> admin_event" where
  "admin_ev ty ts = \<lparr>e_Type = ty, e_TS = ts, e_Snapshot = None, e_Node = None, e_NodeID = '''', e_Session = None\<rparr>"

section \<open>The event bus\<close>

record sub_chan =
  ch_buf :: "admin_event list"
  ch_closed :: bool

definition chan_cap :: nat where
  "chan_cap = 64"

text \<open>
  \<open>bus_subs\<close> is the Go map of subscribers; \<open>bus_gone\<close> holds the channels taken out of it, which their
  readers still hold.
\<close>

record bus =
  bus_subs :: "(nat, sub_chan) gomap"
  bus_gone :: "(nat, sub_chan) gomap"
  bus_next :: nat

definition NewBus :: bus where
  "NewBus = \<lparr>bus_subs = [], bus_gone = [], bus_next = 0\<rparr>"

definition Subscribe :: "bus \<Rightarrow> nat \<times> bus" where
  "Subscribe b =
    (bus_next b, b\<lparr>bus_subs := mput (bus_subs b) (bus_next b) \<lparr>ch_buf = [], ch_closed = False\<rparr>,
                   bus_next := bus_next b + 1\<rparr>)"

text \<open>The function \<open>Subscribe\<close> returns; it may be called again and then does nothing.\<close>

definition Unsubscribe :: "nat \<Rightarrow> bus \<Rightarrow> bus" where
  "Unsubscribe i b =
    (case mget (bus_subs b) i of
       None \<Rightarrow> b
     | Some c \<Rightarrow> b\<lparr>bus_subs := mdel (bus_subs b) i,
                     bus_gone := mput (bus_gone b) i (c\<lparr>ch_closed := True\<rparr>)\<rparr>)"

text \<open>A send that would block is dropped for that subscriber.\<close>

definition chan_offer :: "admin_event \<Rightarrow> sub_chan \<Rightarrow> sub_chan" where
  "chan_offer ev c = (if length (ch_buf c) < chan_cap then c\<lparr>ch_buf := ch_buf c @ [ev]\<rparr> else c)"

definition Publish :: "admin_event \<Rightarrow> bus \<Rightarrow> bus" where
  "Publish ev b = b\<lparr>bus_subs := map (\<lambda>(i, c). (i, chan_offer ev c)) (bus_subs b)\<rparr>"

text \<open>The subscriber takes the oldest event of its channel.\<close>

definition chan_recv :: "nat \<Rightarrow> bus \<Rightarrow> admin_event option \<times> bus" where
  "chan_recv i b =
    (case mget (bus_subs b) i of
       None \<Rightarrow> (None, b)
     | Some c \<Rightarrow>
         (case ch_buf c of
            [] \<Rightarrow> (None, b)
          | ev # evs \<Rightarrow> (Some ev, b\<lparr>bus_subs := mput (bus_subs b) i (c\<lparr>ch_buf := evs\<rparr>)\<rparr>)))"

section \<open>Delivery\<close>

definition bus_ok :: "bus \<Rightarrow> bool" where
  "bus_ok b =
    (mwf (bus_subs b) \<and> (\<forall>i \<in> mkeys (bus_subs b). i < bus_next b) \<and>
     (\<forall>i \<in> mkeys (bus_gone b). i < bus_next b) \<and> mkeys (bus_subs b) \<inter> mkeys (bus_gone b) = {} \<and>
     (\<forall>i c. mget (bus_subs b) i = Some c \<longrightarrow> \<not> ch_closed c \<and> length (ch_buf c) \<le> chan_cap))"

lemma mget_map: "mget (map (\<lambda>(i, c). (i, f c)) m) k = map_option f (mget m k)"
  by (induction m) (auto simp: mget_def)

lemma mkeys_map [simp]: "mkeys (map (\<lambda>(i, c). (i, f c)) m) = mkeys m"
  by (force simp: mkeys_def)

lemma mwf_map [simp]: "mwf (map (\<lambda>(i, c). (i, f c)) m) = mwf m"
  by (simp add: mwf_def comp_def case_prod_beta)

lemma NewBus_ok: "bus_ok NewBus"
  by (simp add: bus_ok_def NewBus_def mkeys_def)

datatype bus_op = BSubscribe | BUnsubscribe nat | BPublish admin_event | BRecv nat

fun bus_step :: "bus_op \<Rightarrow> bus \<Rightarrow> bus" where
  "bus_step BSubscribe b = snd (Subscribe b)"
| "bus_step (BUnsubscribe i) b = Unsubscribe i b"
| "bus_step (BPublish ev) b = Publish ev b"
| "bus_step (BRecv i) b = snd (chan_recv i b)"

text \<open>What subscriber \<open>i\<close> receives over a run, and what is published meanwhile.\<close>

fun received :: "nat \<Rightarrow> bus_op list \<Rightarrow> bus \<Rightarrow> admin_event list" where
  "received i [] b = []"
| "received i (x # xs) b =
    (if x = BRecv i then (case fst (chan_recv i b) of Some ev \<Rightarrow> [ev] | None \<Rightarrow> []) else [])
    @ received i xs (bus_step x b)"

fun published :: "bus_op list \<Rightarrow> admin_event list" where
  "published [] = []"
| "published (BPublish ev # xs) = ev # published xs"
| "published (_ # xs) = published xs"

text \<open>At every publish of the run there is room in the channel of \<open>i\<close>.\<close>

fun keeps_up :: "nat \<Rightarrow> bus_op list \<Rightarrow> bus \<Rightarrow> bool" where
  "keeps_up i [] b = True"
| "keeps_up i (x # xs) b =
    ((case x of BPublish ev \<Rightarrow> (case mget (bus_subs b) i of Some c \<Rightarrow> length (ch_buf c) < chan_cap | None \<Rightarrow> True)
      | _ \<Rightarrow> True) \<and> keeps_up i xs (bus_step x b))"

lemma chan_offer_ok [simp]:
  "ch_closed (chan_offer ev c) = ch_closed c"
  "length (ch_buf c) \<le> chan_cap \<Longrightarrow> length (ch_buf (chan_offer ev c)) \<le> chan_cap"
  by (auto simp: chan_offer_def)

lemma bus_ok_step: "bus_ok b \<Longrightarrow> bus_ok (bus_step x b)"
proof (cases x)
  case BSubscribe
  assume "bus_ok b"
  then show ?thesis using BSubscribe by (force simp: bus_ok_def Subscribe_def)
next
  case (BUnsubscribe i)
  assume "bus_ok b"
  then show ?thesis using BUnsubscribe
    by (cases "mget (bus_subs b) i") (auto simp: bus_ok_def Unsubscribe_def mkeys_iff)
next
  case (BPublish ev)
  assume "bus_ok b"
  then show ?thesis using BPublish by (auto simp: bus_ok_def Publish_def mget_map)
next
  case (BRecv i)
  assume ok: "bus_ok b"
  show ?thesis
  proof (cases "mget (bus_subs b) i")
    case (Some c)
    have "i \<in> mkeys (bus_subs b)" using Some by (auto simp: mkeys_iff)
    moreover have "length (ch_buf c) \<le> chan_cap" using ok Some by (simp add: bus_ok_def)
    ultimately show ?thesis using ok Some BRecv
      by (cases "ch_buf c") (auto simp: bus_ok_def chan_recv_def insert_absorb)
  qed (use ok BRecv in \<open>simp add: chan_recv_def\<close>)
qed

text \<open>One step of a run, seen from subscriber \<open>i\<close>.\<close>

lemma bus_step_sub:
  assumes "mget (bus_subs b) i = Some c" and "x \<noteq> BUnsubscribe i" and "bus_ok b" and "keeps_up i [x] b"
  shows "\<exists>c'. mget (bus_subs (bus_step x b)) i = Some c' \<and>
    ch_buf c @ published [x] = received i [x] b @ ch_buf c'"
proof (cases x)
  case BSubscribe
  have "i < bus_next b" using assms(1,3) by (auto simp: bus_ok_def mkeys_iff)
  then show ?thesis using assms BSubscribe by (simp add: Subscribe_def)
next
  case (BUnsubscribe j)
  then show ?thesis using assms by (auto simp: Unsubscribe_def split: option.splits)
next
  case (BPublish ev)
  then show ?thesis using assms by (simp add: Publish_def mget_map chan_offer_def)
next
  case (BRecv j)
  then show ?thesis using assms by (auto simp: chan_recv_def split: option.splits list.splits)
qed

section \<open>Properties\<close>

text \<open>
  the bus never sends on a closed channel and never closes one twice: after any operations every
  channel in the subscriber map is open, holds at most 64 events and has an id that is never given
  again. A subscriber that keeps room in its channel and does not unsubscribe gets every event
  published, once, in order: what it had buffered and what is published is what it received and
  what it still has buffered.
\<close>

theorem bus_delivery:
  assumes "bus_ok b" and "mget (bus_subs b) i = Some c"
    and "BUnsubscribe i \<notin> set ops" and "keeps_up i ops b"
  shows "bus_ok (fold bus_step ops b) \<and>
    (\<exists>c'. mget (bus_subs (fold bus_step ops b)) i = Some c' \<and>
      ch_buf c @ published ops = received i ops b @ ch_buf c')"
  using assms
proof (induction ops arbitrary: b c)
  case (Cons x ops)
  have up: "keeps_up i [x] b" "keeps_up i ops (bus_step x b)" using Cons.prems(4) by simp_all
  obtain c1 where c1: "mget (bus_subs (bus_step x b)) i = Some c1"
      "ch_buf c @ published [x] = received i [x] b @ ch_buf c1"
    using bus_step_sub [OF Cons.prems(2) _ Cons.prems(1) up(1)] Cons.prems(3) by auto
  have pub: "published (x # ops) = published [x] @ published ops" by (cases x) simp_all
  have rec: "received i (x # ops) b = received i [x] b @ received i ops (bus_step x b)" by simp
  show ?case
    using Cons.IH [OF bus_ok_step [OF Cons.prems(1)] c1(1) _ up(2)] Cons.prems(3) c1(2)
    by (auto simp: pub rec simp del: received.simps published.simps) (metis append.assoc)
qed simp

definition ev_at :: "gotime \<Rightarrow> admin_event" where
  "ev_at ts = admin_ev EvNodeUpdated ts"

theorem bus_delivery_witness:
  "received 0 [BPublish (ev_at 1), BSubscribe, BPublish (ev_at 2), BRecv 0, BUnsubscribe 1] (snd (Subscribe NewBus))
     = [ev_at 1] \<and>
   bus_ok (fold bus_step [BPublish (ev_at 1), BSubscribe, BPublish (ev_at 2), BRecv 0, BUnsubscribe 1]
     (snd (Subscribe NewBus)))"
proof -
  let ?b = "snd (Subscribe NewBus)"
  let ?ops = "[BPublish (ev_at 1), BSubscribe, BPublish (ev_at 2), BRecv 0, BUnsubscribe 1]"
  have ok: "bus_ok ?b" using bus_ok_step [OF NewBus_ok, of BSubscribe] by simp
  have sub: "mget (bus_subs ?b) 0 = Some \<lparr>ch_buf = [], ch_closed = False\<rparr>"
    by (simp add: Subscribe_def NewBus_def)
  have up: "keeps_up 0 ?ops ?b" by code_simp
  have rec: "received 0 ?ops ?b = [ev_at 1]" by code_simp
  have "BUnsubscribe 0 \<notin> set ?ops" by simp
  from bus_delivery [OF ok sub this up] rec show ?thesis by blast
qed

end
