(* ===== verification/UserStore.thy ===== *)
theory UserStore
  imports AdminApi
begin

text \<open>
  \<^verbatim>\<open>internal/userstore/userstore.go\<close> and \<^verbatim>\<open>sqlite.go\<close>: the VPN user registry, in its table
  form (in memory and file) and its SQL form. HMAC-SHA256 and the random id are arguments. The
  table's second map points to the records of the first; a pointer is the id of its record, which
  is unique. The file is the list of records it holds; whether a write succeeds is an argument.
\<close>

datatype user_error = ErrNotFound | ErrConflict | ErrBadToken | ErrDisabled | ErrRegionDenied | IoError

definition hmacToken :: "(string \<Rightarrow> string \<Rightarrow> string) \<Rightarrow> string \<Rightarrow> string \<Rightarrow> string" where
  "hmacToken hmac pepper token = (if token = '''' then '''' else hmac pepper token)"

definition regionAllowed :: "string list \<Rightarrow> string \<Rightarrow> bool" where
  "regionAllowed allowed region = list_ex (\<lambda>a. a = ''*'' \<or> a = region) allowed"

text \<open>The check both ways of admission end with.\<close>

definition admit :: "user \<Rightarrow> string \<Rightarrow> user_error + user" where
  "admit u region =
    (if u_Status u \<noteq> UserEnabled then Inl ErrDisabled
     else if \<not> regionAllowed (u_AllowedRegions u) region then Inl ErrRegionDenied
     else Inr u)"

section \<open>The table backend\<close>

record user_rec =
  ur_User :: user
  ur_Hash :: string

record user_table =
  tb_byID :: "(string, user_rec) gomap"
  tb_byHash :: "(string, string) gomap"
  tb_pepper :: string
  tb_path :: string
  tb_disk :: "user_rec list option"

definition us_New :: "string \<Rightarrow> user_table" where
  "us_New pepper = \<lparr>tb_byID = [], tb_byHash = [], tb_pepper = pepper, tb_path = '''', tb_disk = None\<rparr>"

text \<open>\<open>load\<close>: the records of the file, in order, into both maps.\<close>

definition us_load_rec :: "user_rec \<Rightarrow> user_table \<Rightarrow> user_table" where
  "us_load_rec r t =
    (let t = t\<lparr>tb_byID := mput (tb_byID t) (u_ID (ur_User r)) r\<rparr>
     in if ur_Hash r \<noteq> '''' then t\<lparr>tb_byHash := mput (tb_byHash t) (ur_Hash r) (u_ID (ur_User r))\<rparr> else t)"

definition us_load :: "user_table \<Rightarrow> user_table" where
  "us_load t =
    (if tb_path t = '''' then t
     else case tb_disk t of None \<Rightarrow> t | Some recs \<Rightarrow> fold us_load_rec recs t)"

definition us_NewFile :: "string \<Rightarrow> string \<Rightarrow> user_rec list option \<Rightarrow> user_table" where
  "us_NewFile path pepper disk =
    us_load \<lparr>tb_byID = [], tb_byHash = [], tb_pepper = pepper, tb_path = path, tb_disk = disk\<rparr>"

definition flushLocked :: "bool \<Rightarrow> user_table \<Rightarrow> user_error option \<times> user_table" where
  "flushLocked io_ok t =
    (if tb_path t = '''' then (None, t)
     else if io_ok then (None, t\<lparr>tb_disk := Some (map snd (tb_byID t))\<rparr>)
     else (Some IoError, t))"

definition us_Create ::
  "(string \<Rightarrow> string \<Rightarrow> string) \<Rightarrow> bool \<Rightarrow> gotime \<Rightarrow> string \<Rightarrow> user_create \<Rightarrow> user_table \<Rightarrow>
    (user_error + user) \<times> user_table" where
  "us_Create hmac io_ok now newID inp t =
    (if list_ex (\<lambda>(k, r). u_Username (ur_User r) = uc_Username inp) (tb_byID t) then (Inl ErrConflict, t)
     else
       let status = (if uc_Status inp = '''' then UserEnabled else uc_Status inp);
           u = \<lparr>u_ID = newID, u_Username = uc_Username inp, u_AllowedRegions = uc_AllowedRegions inp,
                u_Status = status, u_ActiveSessionCount = 0, u_CreatedAt = now, u_UpdatedAt = now\<rparr>;
           r = \<lparr>ur_User = u, ur_Hash = hmacToken hmac (tb_pepper t) (uc_Credential inp)\<rparr>;
           t = t\<lparr>tb_byID := mput (tb_byID t) newID r\<rparr>;
           t = (if ur_Hash r \<noteq> '''' then t\<lparr>tb_byHash := mput (tb_byHash t) (ur_Hash r) newID\<rparr> else t)
       in case flushLocked io_ok t of
            (Some e, t) \<Rightarrow> (Inl e, t)
          | (None, t) \<Rightarrow> (Inr u, t))"

definition us_Get :: "string \<Rightarrow> user_table \<Rightarrow> user_error + user" where
  "us_Get i t = (case mget (tb_byID t) i of None \<Rightarrow> Inl ErrNotFound | Some r \<Rightarrow> Inr (ur_User r))"

definition us_List :: "string \<Rightarrow> string \<Rightarrow> user_table \<Rightarrow> user list" where
  "us_List region status t =
    filter (\<lambda>u. (status = '''' \<or> u_Status u = status) \<and>
                (region = '''' \<or> regionAllowed (u_AllowedRegions u) region))
      (map (ur_User \<circ> snd) (tb_byID t))"

text \<open>The fields an update sets; nil ones are left alone.\<close>

definition patch_user :: "gotime \<Rightarrow> user_update \<Rightarrow> user \<Rightarrow> user" where
  "patch_user now inp u =
    (let u = (case uu_AllowedRegions inp of Some rs \<Rightarrow> u\<lparr>u_AllowedRegions := rs\<rparr> | None \<Rightarrow> u);
         u = (case uu_Status inp of Some s \<Rightarrow> u\<lparr>u_Status := s\<rparr> | None \<Rightarrow> u)
     in u\<lparr>u_UpdatedAt := now\<rparr>)"

definition us_Update ::
  "(string \<Rightarrow> string \<Rightarrow> string) \<Rightarrow> bool \<Rightarrow> gotime \<Rightarrow> string \<Rightarrow> user_update \<Rightarrow> user_table \<Rightarrow>
    (user_error + user) \<times> user_table" where
  "us_Update hmac io_ok now i inp t =
    (case mget (tb_byID t) i of
       None \<Rightarrow> (Inl ErrNotFound, t)
     | Some r \<Rightarrow>
         let u = patch_user now inp (ur_User r);
             (h, byHash) = (case uu_Credential inp of
                 None \<Rightarrow> (ur_Hash r, tb_byHash t)
               | Some c \<Rightarrow>
                   (let bh = mdel (tb_byHash t) (ur_Hash r);
                        h = hmacToken hmac (tb_pepper t) c
                    in (h, if h \<noteq> '''' then mput bh h i else bh)));
             t = t\<lparr>tb_byID := mput (tb_byID t) i \<lparr>ur_User = u, ur_Hash = h\<rparr>, tb_byHash := byHash\<rparr>
         in (case flushLocked io_ok t of
               (Some e, t) \<Rightarrow> (Inl e, t)
             | (None, t) \<Rightarrow> (Inr u, t)))"

definition us_Delete :: "bool \<Rightarrow> string \<Rightarrow> user_table \<Rightarrow> user_error option \<times> user_table" where
  "us_Delete io_ok i t =
    (case mget (tb_byID t) i of
       None \<Rightarrow> (Some ErrNotFound, t)
     | Some r \<Rightarrow>
         flushLocked io_ok (t\<lparr>tb_byID := mdel (tb_byID t) i, tb_byHash := mdel (tb_byHash t) (ur_Hash r)\<rparr>))"

definition us_AuthenticateForRegion ::
  "(string \<Rightarrow> string \<Rightarrow> string) \<Rightarrow> string \<Rightarrow> string \<Rightarrow> user_table \<Rightarrow> user_error + user" where
  "us_AuthenticateForRegion hmac token region t =
    (case mget (tb_byHash t) (hmacToken hmac (tb_pepper t) token) of
       None \<Rightarrow> Inl ErrBadToken
     | Some i \<Rightarrow>
         if token = '''' then Inl ErrBadToken
         else (case mget (tb_byID t) i of
                 Some r \<Rightarrow> admit (ur_User r) region
               | None \<Rightarrow> Inl ErrBadToken))"

definition us_AuthorizeUser :: "string \<Rightarrow> string \<Rightarrow> user_table \<Rightarrow> user_error + user" where
  "us_AuthorizeUser username region t =
    (case find (\<lambda>(k, r). u_Username (ur_User r) = username) (tb_byID t) of
       Some (k, r) \<Rightarrow> admit (ur_User r) region
     | None \<Rightarrow> Inl ErrNotFound)"

section \<open>The SQL backend\<close>

text \<open>
  The \<open>users\<close> table in row order, with its primary key on the id and its unique user name. Regions
  and times are stored as text that reads back as the value. \<open>db_ok\<close> says whether the statement
  succeeds as far as the database itself is concerned.
\<close>

record sql_store =
  sq_rows :: "user_rec list"
  sq_pepper :: string

definition sq_Create ::
  "(string \<Rightarrow> string \<Rightarrow> string) \<Rightarrow> bool \<Rightarrow> gotime \<Rightarrow> string \<Rightarrow> user_create \<Rightarrow> sql_store \<Rightarrow>
    (user_error + user) \<times> sql_store" where
  "sq_Create hmac db_ok now newID inp s =
    (let status = (if uc_Status inp = '''' then UserEnabled else uc_Status inp);
         u = \<lparr>u_ID = newID, u_Username = uc_Username inp, u_AllowedRegions = uc_AllowedRegions inp,
              u_Status = status, u_ActiveSessionCount = 0, u_CreatedAt = now, u_UpdatedAt = now\<rparr>
     in if \<not> db_ok \<or> list_ex (\<lambda>r. u_Username (ur_User r) = u_Username u \<or> u_ID (ur_User r) = newID) (sq_rows s)
        then (Inl ErrConflict, s)
        else (Inr u, s\<lparr>sq_rows := sq_rows s @
               [\<lparr>ur_User = u, ur_Hash = hmacToken hmac (sq_pepper s) (uc_Credential inp)\<rparr>]\<rparr>))"

definition sq_Get :: "bool \<Rightarrow> string \<Rightarrow> sql_store \<Rightarrow> user_error + user" where
  "sq_Get db_ok i s =
    (if \<not> db_ok then Inl IoError
     else case find (\<lambda>r. u_ID (ur_User r) = i) (sq_rows s) of
            None \<Rightarrow> Inl ErrNotFound | Some r \<Rightarrow> Inr (ur_User r))"

definition sq_List :: "bool \<Rightarrow> string \<Rightarrow> string \<Rightarrow> sql_store \<Rightarrow> user list" where
  "sq_List db_ok region status s =
    (if \<not> db_ok then []
     else filter (\<lambda>u. (status = '''' \<or> u_Status u = status) \<and>
                      (region = '''' \<or> regionAllowed (u_AllowedRegions u) region))
            (map ur_User (sq_rows s)))"

definition sq_Update ::
  "(string \<Rightarrow> string \<Rightarrow> string) \<Rightarrow> bool \<Rightarrow> bool \<Rightarrow> gotime \<Rightarrow> string \<Rightarrow> user_update \<Rightarrow> sql_store \<Rightarrow>
    (user_error + user) \<times> sql_store" where
  "sq_Update hmac read_ok db_ok now i inp s =
    (case sq_Get read_ok i s of
       Inl e \<Rightarrow> (Inl e, s)
     | Inr u0 \<Rightarrow>
         let u = patch_user now inp u0;
             upd = (\<lambda>r. if u_ID (ur_User r) = i
               then \<lparr>ur_User = (ur_User r)\<lparr>u_AllowedRegions := u_AllowedRegions u, u_Status := u_Status u,
                                          u_UpdatedAt := now\<rparr>,
                     ur_Hash = (case uu_Credential inp of
                         Some c \<Rightarrow> hmacToken hmac (sq_pepper s) c | None \<Rightarrow> ur_Hash r)\<rparr>
               else r)
         in if db_ok then (Inr u, s\<lparr>sq_rows := map upd (sq_rows s)\<rparr>) else (Inl IoError, s))"

definition sq_Delete :: "bool \<Rightarrow> string \<Rightarrow> sql_store \<Rightarrow> user_error option \<times> sql_store" where
  "sq_Delete db_ok i s =
    (if \<not> db_ok then (Some IoError, s)
     else if list_all (\<lambda>r. u_ID (ur_User r) \<noteq> i) (sq_rows s) then (Some ErrNotFound, s)
     else (None, s\<lparr>sq_rows := filter (\<lambda>r. u_ID (ur_User r) \<noteq> i) (sq_rows s)\<rparr>))"

definition sq_AuthenticateForRegion ::
  "(string \<Rightarrow> string \<Rightarrow> string) \<Rightarrow> bool \<Rightarrow> string \<Rightarrow> string \<Rightarrow> sql_store \<Rightarrow> user_error + user" where
  "sq_AuthenticateForRegion hmac db_ok token region s =
    (if token = '''' then Inl ErrBadToken
     else if \<not> db_ok then Inl IoError
     else case find (\<lambda>r. ur_Hash r = hmacToken hmac (sq_pepper s) token) (sq_rows s) of
            None \<Rightarrow> Inl ErrBadToken
          | Some r \<Rightarrow> admit (ur_User r) region)"

definition sq_AuthorizeUser :: "bool \<Rightarrow> string \<Rightarrow> string \<Rightarrow> sql_store \<Rightarrow> user_error + user" where
  "sq_AuthorizeUser db_ok username region s =
    (if \<not> db_ok then Inl IoError
     else case find (\<lambda>r. u_Username (ur_User r) = username) (sq_rows s) of
            None \<Rightarrow> Inl ErrNotFound
          | Some r \<Rightarrow> admit (ur_User r) region)"

section \<open>The interface the broker relies on\<close>

text \<open>
  Admission through a registry: whoever is let in is a registered user, enabled, and allowed in the
  region; an empty token admits nobody.
\<close>

locale user_registry =
  fixes authenticate :: "'s \<Rightarrow> string \<Rightarrow> string \<Rightarrow> user_error + user"
    and authorize :: "'s \<Rightarrow> string \<Rightarrow> string \<Rightarrow> user_error + user"
    and users_of :: "'s \<Rightarrow> user set"
  assumes authenticate_user: "authenticate s token region = Inr u \<Longrightarrow> u \<in> users_of s \<and> admit u region = Inr u"
    and authenticate_empty: "authenticate s '''' region = Inl ErrBadToken"
    and authorize_user: "authorize s name region = Inr u \<Longrightarrow>
      u \<in> users_of s \<and> u_Username u = name \<and> admit u region = Inr u"
begin

lemma admitted_policy:
  assumes "authenticate s token region = Inr u \<or> authorize s name region = Inr u"
  shows "u \<in> users_of s \<and> u_Status u = UserEnabled \<and>
    (''*'' \<in> set (u_AllowedRegions u) \<or> region \<in> set (u_AllowedRegions u))"
proof -
  have "u \<in> users_of s" and "admit u region = Inr u"
    using assms authenticate_user authorize_user by blast+
  then show ?thesis
    by (auto simp: admit_def regionAllowed_def list_ex_iff split: if_splits)
qed

end

lemma admit_Inr: "admit u region = Inr v \<Longrightarrow> v = u"
  by (auto simp: admit_def split: if_splits)

lemma find_in: "find P xs = Some x \<Longrightarrow> x \<in> set xs \<and> P x"
  by (auto simp: find_Some_iff)

interpretation table_reg: user_registry
  "\<lambda>t token region. us_AuthenticateForRegion hmac token region t"
  "\<lambda>t name region. us_AuthorizeUser name region t"
  "\<lambda>t. (ur_User \<circ> snd) ` set (tb_byID t)"
  for hmac
proof unfold_locales
  fix t token region u
  assume "us_AuthenticateForRegion hmac token region t = Inr u"
  then obtain i r where "mget (tb_byID t) i = Some r" "admit (ur_User r) region = Inr u"
    by (auto simp: us_AuthenticateForRegion_def split: option.splits if_splits)
  then show "u \<in> (ur_User \<circ> snd) ` set (tb_byID t) \<and> admit u region = Inr u"
    using admit_Inr by (force dest!: mget_Some_in)
next
  fix t region
  show "us_AuthenticateForRegion hmac '''' region t = Inl ErrBadToken"
    by (simp add: us_AuthenticateForRegion_def split: option.split)
next
  fix t name region u
  assume "us_AuthorizeUser name region t = Inr u"
  then obtain k r where "find (\<lambda>(k, r). u_Username (ur_User r) = name) (tb_byID t) = Some (k, r)"
      "admit (ur_User r) region = Inr u"
    by (auto simp: us_AuthorizeUser_def split: option.splits)
  then show "u \<in> (ur_User \<circ> snd) ` set (tb_byID t) \<and> u_Username u = name \<and> admit u region = Inr u"
    using admit_Inr [of "ur_User r" region u] by (force dest!: find_in)
qed

interpretation sql_reg: user_registry
  "\<lambda>s token region. sq_AuthenticateForRegion hmac db_ok token region s"
  "\<lambda>s name region. sq_AuthorizeUser db_ok name region s"
  "\<lambda>s. ur_User ` set (sq_rows s)"
  for hmac db_ok
proof unfold_locales
  fix s token region u
  assume "sq_AuthenticateForRegion hmac db_ok token region s = Inr u"
  then obtain r where "r \<in> set (sq_rows s)" "admit (ur_User r) region = Inr u"
    by (auto simp: sq_AuthenticateForRegion_def split: option.splits if_splits dest!: find_in)
  then show "u \<in> ur_User ` set (sq_rows s) \<and> admit u region = Inr u"
    using admit_Inr by force
next
  fix s region
  show "sq_AuthenticateForRegion hmac db_ok '''' region s = Inl ErrBadToken"
    by (simp add: sq_AuthenticateForRegion_def)
next
  fix s name region u
  assume "sq_AuthorizeUser db_ok name region s = Inr u"
  then obtain r where "r \<in> set (sq_rows s)" "u_Username (ur_User r) = name" "admit (ur_User r) region = Inr u"
    by (auto simp: sq_AuthorizeUser_def split: option.splits if_splits dest!: find_in)
  then show "u \<in> ur_User ` set (sq_rows s) \<and> u_Username u = name \<and> admit u region = Inr u"
    using admit_Inr by force
qed

section \<open>The two maps of the table agree\<close>

definition hash_of :: "string \<Rightarrow> user_table \<Rightarrow> string option" where
  "hash_of k t = map_option ur_Hash (mget (tb_byID t) k)"

definition us_ok :: "user_table \<Rightarrow> bool" where
  "us_ok t =
    (mwf (tb_byID t) \<and>
     (\<forall>k r. mget (tb_byID t) k = Some r \<longrightarrow> u_ID (ur_User r) = k) \<and>
     (\<forall>h i. mget (tb_byHash t) h = Some i \<longrightarrow> h \<noteq> '''' \<and> hash_of i t = Some h))"

text \<open>No two users share a credential, and every credential finds its user.\<close>

definition creds_ok :: "user_table \<Rightarrow> bool" where
  "creds_ok t = (\<forall>k h. hash_of k t = Some h \<and> h \<noteq> '''' \<longrightarrow> mget (tb_byHash t) h = Some k)"

lemma creds_ok_inj:
  assumes "creds_ok t" and "hash_of k t = Some h" and "hash_of k' t = Some h" and "h \<noteq> ''''"
  shows "k = k'"
proof -
  have "mget (tb_byHash t) h = Some k" and "mget (tb_byHash t) h = Some k'"
    using assms unfolding creds_ok_def by blast+
  then show ?thesis by simp
qed

lemma flushLocked_keeps [simp]:
  "tb_byID (snd (flushLocked io t)) = tb_byID t" "tb_byHash (snd (flushLocked io t)) = tb_byHash t"
  "tb_pepper (snd (flushLocked io t)) = tb_pepper t" "tb_path (snd (flushLocked io t)) = tb_path t"
  by (auto simp: flushLocked_def)

lemma us_ok_cong: "tb_byID t' = tb_byID t \<Longrightarrow> tb_byHash t' = tb_byHash t \<Longrightarrow> us_ok t' = us_ok t"
  by (simp add: us_ok_def hash_of_def)

lemma creds_ok_cong: "tb_byID t' = tb_byID t \<Longrightarrow> tb_byHash t' = tb_byHash t \<Longrightarrow> creds_ok t' = creds_ok t"
  by (simp add: creds_ok_def hash_of_def)

text \<open>
  Storing a record under an id whose previous hash is no longer in the second map: what creating,
  updating and loading have in common.
\<close>

definition store_rec :: "string \<Rightarrow> user_rec \<Rightarrow> user_table \<Rightarrow> user_table" where
  "store_rec i r t =
    (let t = t\<lparr>tb_byID := mput (tb_byID t) i r\<rparr>
     in if ur_Hash r \<noteq> '''' then t\<lparr>tb_byHash := mput (tb_byHash t) (ur_Hash r) i\<rparr> else t)"

lemma hash_of_store: "hash_of k (store_rec i r t) = (if k = i then Some (ur_Hash r) else hash_of k t)"
  by (simp add: hash_of_def store_rec_def Let_def)

lemma store_rec_ok:
  assumes "us_ok t" and "u_ID (ur_User r) = i"
    and "\<And>h. mget (tb_byHash t) h = Some i \<Longrightarrow> h = ur_Hash r"
  shows "us_ok (store_rec i r t)"
  using assms by (auto simp: us_ok_def hash_of_store) (auto simp: store_rec_def Let_def split: if_splits)

lemma store_rec_creds:
  assumes "creds_ok t" and "\<And>k. k \<noteq> i \<Longrightarrow> hash_of k t = Some (ur_Hash r) \<Longrightarrow> ur_Hash r = ''''"
  shows "creds_ok (store_rec i r t)"
  using assms by (auto simp: creds_ok_def hash_of_store) (auto simp: store_rec_def Let_def split: if_splits)

lemma us_Create_cases:
  "(\<exists>r. u_ID (ur_User r) = newID \<and> ur_Hash r = hmacToken hmac (tb_pepper t) (uc_Credential inp) \<and>
      u_Username (ur_User r) = uc_Username inp \<and>
      snd (us_Create hmac io now newID inp t) = snd (flushLocked io (store_rec newID r t))) \<or>
   us_Create hmac io now newID inp t = (Inl ErrConflict, t)"
proof (cases "list_ex (\<lambda>(k, r). u_Username (ur_User r) = uc_Username inp) (tb_byID t)")
  case False
  define u where "u = \<lparr>u_ID = newID, u_Username = uc_Username inp, u_AllowedRegions = uc_AllowedRegions inp,
    u_Status = (if uc_Status inp = '''' then UserEnabled else uc_Status inp), u_ActiveSessionCount = 0,
    u_CreatedAt = now, u_UpdatedAt = now\<rparr>"
  define r where "r = \<lparr>ur_User = u, ur_Hash = hmacToken hmac (tb_pepper t) (uc_Credential inp)\<rparr>"
  have "us_Create hmac io now newID inp t =
      (case flushLocked io (store_rec newID r t) of (Some e, t) \<Rightarrow> (Inl e, t) | (None, t) \<Rightarrow> (Inr u, t))"
    using False by (simp only: us_Create_def r_def u_def store_rec_def Let_def if_False user_rec.simps)
  then have "snd (us_Create hmac io now newID inp t) = snd (flushLocked io (store_rec newID r t))"
    by (simp split: option.split prod.split)
  then show ?thesis by (intro disjI1 exI [of _ r]) (simp add: r_def u_def)
qed (simp add: us_Create_def)

lemma us_ok_Create:
  assumes "us_ok t" and "mget (tb_byID t) newID = None"
  shows "us_ok (snd (us_Create hmac io now newID inp t))"
  using us_Create_cases [of newID hmac t inp io now]
proof
  assume "\<exists>r. u_ID (ur_User r) = newID \<and> ur_Hash r = hmacToken hmac (tb_pepper t) (uc_Credential inp) \<and>
    u_Username (ur_User r) = uc_Username inp \<and>
    snd (us_Create hmac io now newID inp t) = snd (flushLocked io (store_rec newID r t))"
  then obtain r where r: "u_ID (ur_User r) = newID"
    "snd (us_Create hmac io now newID inp t) = snd (flushLocked io (store_rec newID r t))" by blast
  have "us_ok (store_rec newID r t)"
    using assms r(1) by (intro store_rec_ok) (fastforce simp: us_ok_def hash_of_def)+
  then show ?thesis using r(2) us_ok_cong [of "snd (flushLocked io (store_rec newID r t))"] by simp
qed (use assms in simp)

lemma creds_ok_Create:
  assumes "creds_ok t" and "\<And>k. hash_of k t = Some (hmacToken hmac (tb_pepper t) (uc_Credential inp)) \<Longrightarrow>
      hmacToken hmac (tb_pepper t) (uc_Credential inp) = ''''"
  shows "creds_ok (snd (us_Create hmac io now newID inp t))"
  using us_Create_cases [of newID hmac t inp io now]
proof
  assume "\<exists>r. u_ID (ur_User r) = newID \<and> ur_Hash r = hmacToken hmac (tb_pepper t) (uc_Credential inp) \<and>
    u_Username (ur_User r) = uc_Username inp \<and>
    snd (us_Create hmac io now newID inp t) = snd (flushLocked io (store_rec newID r t))"
  then obtain r where r: "ur_Hash r = hmacToken hmac (tb_pepper t) (uc_Credential inp)"
    "snd (us_Create hmac io now newID inp t) = snd (flushLocked io (store_rec newID r t))" by blast
  have "creds_ok (store_rec newID r t)"
    using assms r(1) by (intro store_rec_creds) auto
  then show ?thesis using r(2) creds_ok_cong [of "snd (flushLocked io (store_rec newID r t))"] by simp
qed (use assms in simp)

lemma table_swap: "t\<lparr>tb_byHash := b, tb_byID := a\<rparr> = t\<lparr>tb_byID := a, tb_byHash := b\<rparr>"
  by simp

lemma us_Update_cases:
  assumes "mget (tb_byID t) i = Some r"
  shows "\<exists>u. u_ID u = u_ID (ur_User r) \<and> u_Username u = u_Username (ur_User r) \<and>
    snd (us_Update hmac io now i inp t) = snd (flushLocked io
      (case uu_Credential inp of
         None \<Rightarrow> t\<lparr>tb_byID := mput (tb_byID t) i \<lparr>ur_User = u, ur_Hash = ur_Hash r\<rparr>\<rparr>
       | Some c \<Rightarrow> store_rec i \<lparr>ur_User = u, ur_Hash = hmacToken hmac (tb_pepper t) c\<rparr>
           (t\<lparr>tb_byHash := mdel (tb_byHash t) (ur_Hash r)\<rparr>)))"
proof -
  define u where "u = patch_user now inp (ur_User r)"
  define t1 where "t1 = (case uu_Credential inp of
         None \<Rightarrow> t\<lparr>tb_byID := mput (tb_byID t) i \<lparr>ur_User = u, ur_Hash = ur_Hash r\<rparr>\<rparr>
       | Some c \<Rightarrow> store_rec i \<lparr>ur_User = u, ur_Hash = hmacToken hmac (tb_pepper t) c\<rparr>
           (t\<lparr>tb_byHash := mdel (tb_byHash t) (ur_Hash r)\<rparr>))"
  have "us_Update hmac io now i inp t =
      (case flushLocked io t1 of (Some e, t) \<Rightarrow> (Inl e, t) | (None, t) \<Rightarrow> (Inr u, t))"
    using assms by (cases "uu_Credential inp")
      (simp_all add: us_Update_def u_def [symmetric] t1_def store_rec_def Let_def table_swap)
  then have "snd (us_Update hmac io now i inp t) = snd (flushLocked io t1)"
    by (simp split: option.split prod.split)
  moreover have "u_ID u = u_ID (ur_User r)" "u_Username u = u_Username (ur_User r)"
    by (simp_all add: u_def patch_user_def Let_def split: option.split)
  ultimately show ?thesis unfolding t1_def by blast
qed

lemma us_ok_hash: "us_ok t \<Longrightarrow> mget (tb_byHash t) h = Some i \<Longrightarrow> mget (tb_byID t) i = Some r \<Longrightarrow> ur_Hash r = h"
proof -
  assume "us_ok t" "mget (tb_byHash t) h = Some i" and r: "mget (tb_byID t) i = Some r"
  then have "hash_of i t = Some h" unfolding us_ok_def by blast
  then show ?thesis using r by (simp add: hash_of_def)
qed

lemma mdel_hash_ok:
  assumes "us_ok t" and "mget (tb_byID t) i = Some r"
  shows "us_ok (t\<lparr>tb_byHash := mdel (tb_byHash t) (ur_Hash r)\<rparr>)"
    and "mget (mdel (tb_byHash t) (ur_Hash r)) h \<noteq> Some i"
  using assms us_ok_hash [OF assms(1) _ assms(2)] by (auto simp: us_ok_def hash_of_def split: if_splits)

lemma us_ok_Update:
  assumes "us_ok t"
  shows "us_ok (snd (us_Update hmac io now i inp t))"
proof (cases "mget (tb_byID t) i")
  case (Some r)
  have i: "u_ID (ur_User r) = i" using assms Some by (simp add: us_ok_def)
  obtain u where u: "u_ID u = i" and upd: "snd (us_Update hmac io now i inp t) = snd (flushLocked io
      (case uu_Credential inp of
         None \<Rightarrow> t\<lparr>tb_byID := mput (tb_byID t) i \<lparr>ur_User = u, ur_Hash = ur_Hash r\<rparr>\<rparr>
       | Some c \<Rightarrow> store_rec i \<lparr>ur_User = u, ur_Hash = hmacToken hmac (tb_pepper t) c\<rparr>
           (t\<lparr>tb_byHash := mdel (tb_byHash t) (ur_Hash r)\<rparr>)))"
    using us_Update_cases [OF Some, of hmac io now inp] i by auto
  have "us_ok (t\<lparr>tb_byID := mput (tb_byID t) i \<lparr>ur_User = u, ur_Hash = ur_Hash r\<rparr>\<rparr>)"
    using assms Some u us_ok_hash [OF assms _ Some]
    by (auto simp: us_ok_def hash_of_def split: if_splits)
  moreover have "us_ok (store_rec i \<lparr>ur_User = u, ur_Hash = h\<rparr> (t\<lparr>tb_byHash := mdel (tb_byHash t) (ur_Hash r)\<rparr>))" for h
    using mdel_hash_ok [OF assms Some] u by (intro store_rec_ok) auto
  ultimately show ?thesis
    unfolding upd by (cases "uu_Credential inp") (simp_all add: us_ok_cong [OF flushLocked_keeps(1,2)])
qed (use assms in \<open>simp add: us_Update_def\<close>)

lemma us_ok_Delete:
  assumes "us_ok t"
  shows "us_ok (snd (us_Delete io i t))"
proof (cases "mget (tb_byID t) i")
  case (Some r)
  have "us_ok (t\<lparr>tb_byID := mdel (tb_byID t) i, tb_byHash := mdel (tb_byHash t) (ur_Hash r)\<rparr>)"
    using assms Some us_ok_hash [OF assms _ Some]
    by (auto simp: us_ok_def hash_of_def split: if_splits)
  then show ?thesis
    using Some by (simp add: us_Delete_def us_ok_cong [OF flushLocked_keeps(1,2)])
qed (use assms in \<open>simp add: us_Delete_def\<close>)

lemma creds_ok_Update:
  assumes "us_ok t" and "creds_ok t"
    and "\<And>c k. uu_Credential inp = Some c \<Longrightarrow> k \<noteq> i \<Longrightarrow> hash_of k t = Some (hmacToken hmac (tb_pepper t) c) \<Longrightarrow>
      hmacToken hmac (tb_pepper t) c = ''''"
  shows "creds_ok (snd (us_Update hmac io now i inp t))"
proof (cases "mget (tb_byID t) i")
  case (Some r)
  obtain u where upd: "snd (us_Update hmac io now i inp t) = snd (flushLocked io
      (case uu_Credential inp of
         None \<Rightarrow> t\<lparr>tb_byID := mput (tb_byID t) i \<lparr>ur_User = u, ur_Hash = ur_Hash r\<rparr>\<rparr>
       | Some c \<Rightarrow> store_rec i \<lparr>ur_User = u, ur_Hash = hmacToken hmac (tb_pepper t) c\<rparr>
           (t\<lparr>tb_byHash := mdel (tb_byHash t) (ur_Hash r)\<rparr>)))"
    using us_Update_cases [OF Some, of hmac io now inp] by auto
  have ri: "hash_of i t = Some (ur_Hash r)" using Some by (simp add: hash_of_def)
  show ?thesis
  proof (cases "uu_Credential inp")
    case None
    have "creds_ok (t\<lparr>tb_byID := mput (tb_byID t) i \<lparr>ur_User = u, ur_Hash = ur_Hash r\<rparr>\<rparr>)"
      using assms(2) ri by (auto simp: creds_ok_def hash_of_def split: if_splits)
    then show ?thesis unfolding upd None by (simp add: creds_ok_cong [OF flushLocked_keeps(1,2)])
  next
    case c: (Some c)
    let ?r = "\<lparr>ur_User = u, ur_Hash = hmacToken hmac (tb_pepper t) c\<rparr>"
    let ?t = "store_rec i ?r (t\<lparr>tb_byHash := mdel (tb_byHash t) (ur_Hash r)\<rparr>)"
    have "mget (tb_byHash ?t) h = Some k" if "hash_of k ?t = Some h" "h \<noteq> ''''" for k h
    proof (cases "k = i")
      case True
      then show ?thesis using that by (auto simp: hash_of_store) (simp add: store_rec_def Let_def)
    next
      case False
      then have k: "hash_of k t = Some h" using that by (simp add: hash_of_store) (simp add: hash_of_def)
      then have "mget (tb_byHash t) h = Some k" using assms(2) that(2) by (simp add: creds_ok_def)
      moreover have "h \<noteq> ur_Hash r" using creds_ok_inj [OF assms(2)] ri k that(2) False by auto
      moreover have "h \<noteq> hmacToken hmac (tb_pepper t) c"
        using assms(3) [OF c False] k that(2) by auto
      ultimately show ?thesis by (simp add: store_rec_def Let_def)
    qed
    then have "creds_ok ?t" by (simp add: creds_ok_def)
    then show ?thesis unfolding upd c by (simp add: creds_ok_cong [OF flushLocked_keeps(1,2)])
  qed
qed (use assms in \<open>simp add: us_Update_def\<close>)

lemma creds_ok_Delete:
  assumes "us_ok t" and "creds_ok t"
  shows "creds_ok (snd (us_Delete io i t))"
proof (cases "mget (tb_byID t) i")
  case (Some r)
  then have ri: "hash_of i t = Some (ur_Hash r)" by (simp add: hash_of_def)
  have "mget (mdel (tb_byHash t) (ur_Hash r)) h = Some k" if "k \<noteq> i" "hash_of k t = Some h" "h \<noteq> ''''" for k h
  proof -
    have "mget (tb_byHash t) h = Some k" using assms(2) that by (simp add: creds_ok_def)
    moreover have "h \<noteq> ur_Hash r" using creds_ok_inj [OF assms(2)] ri that by auto
    ultimately show ?thesis by simp
  qed
  then have "creds_ok (t\<lparr>tb_byID := mdel (tb_byID t) i, tb_byHash := mdel (tb_byHash t) (ur_Hash r)\<rparr>)"
    by (auto simp: creds_ok_def hash_of_def split: if_splits)
  then show ?thesis
    using Some by (simp add: us_Delete_def creds_ok_cong [OF flushLocked_keeps(1,2)])
qed (use assms in \<open>simp add: us_Delete_def\<close>)

section \<open>Histories of the registry\<close>

datatype us_op =
  UCreate bool gotime string user_create | UUpdate bool gotime string user_update | UDelete bool string

fun us_step :: "(string \<Rightarrow> string \<Rightarrow> string) \<Rightarrow> us_op \<Rightarrow> user_table \<Rightarrow> user_table" where
  "us_step hmac (UCreate io now newID inp) t = snd (us_Create hmac io now newID inp t)"
| "us_step hmac (UUpdate io now i inp) t = snd (us_Update hmac io now i inp t)"
| "us_step hmac (UDelete io i) t = snd (us_Delete io i t)"

text \<open>
  Ids are fresh, and no operation gives a user a credential another one has.
\<close>

fun us_fresh :: "(string \<Rightarrow> string \<Rightarrow> string) \<Rightarrow> us_op \<Rightarrow> user_table \<Rightarrow> bool" where
  "us_fresh hmac (UCreate io now newID inp) t =
    (mget (tb_byID t) newID = None \<and>
     list_all (\<lambda>(k, r). ur_Hash r \<noteq> hmacToken hmac (tb_pepper t) (uc_Credential inp) \<or> ur_Hash r = '''') (tb_byID t))"
| "us_fresh hmac (UUpdate io now i inp) t =
    (case uu_Credential inp of
       None \<Rightarrow> True
     | Some c \<Rightarrow> list_all (\<lambda>(k, r). k = i \<or> ur_Hash r \<noteq> hmacToken hmac (tb_pepper t) c \<or> ur_Hash r = '''') (tb_byID t))"
| "us_fresh hmac (UDelete io i) t = True"

fun us_fresh_run :: "(string \<Rightarrow> string \<Rightarrow> string) \<Rightarrow> us_op list \<Rightarrow> user_table \<Rightarrow> bool" where
  "us_fresh_run hmac [] t = True"
| "us_fresh_run hmac (x # xs) t = (us_fresh hmac x t \<and> us_fresh_run hmac xs (us_step hmac x t))"

lemma hash_of_in: "hash_of k t = Some h \<Longrightarrow> \<exists>r. (k, r) \<in> set (tb_byID t) \<and> ur_Hash r = h"
  by (auto simp: hash_of_def dest: mget_Some_in)

lemma us_step_ok:
  assumes "us_ok t" and "creds_ok t" and "us_fresh hmac x t"
  shows "us_ok (us_step hmac x t) \<and> creds_ok (us_step hmac x t)"
proof (cases x)
  case (UCreate io now newID inp)
  have "creds_ok (snd (us_Create hmac io now newID inp t))"
    using assms UCreate by (intro creds_ok_Create) (auto dest!: hash_of_in simp: list_all_iff)
  then show ?thesis using assms UCreate us_ok_Create by simp
next
  case (UUpdate io now i inp)
  have "creds_ok (snd (us_Update hmac io now i inp t))"
    using assms UUpdate by (intro creds_ok_Update) (auto dest!: hash_of_in simp: list_all_iff)
  then show ?thesis using assms UUpdate us_ok_Update by simp
next
  case (UDelete io i)
  then show ?thesis using assms us_ok_Delete creds_ok_Delete by simp
qed

lemma us_run_ok:
  "us_ok t \<Longrightarrow> creds_ok t \<Longrightarrow> us_fresh_run hmac ops t \<Longrightarrow>
    us_ok (fold (us_step hmac) ops t) \<and> creds_ok (fold (us_step hmac) ops t)"
  by (induction ops arbitrary: t) (use us_step_ok in auto)

lemma us_New_ok: "us_ok (us_New pepper) \<and> creds_ok (us_New pepper)"
  by (simp add: us_ok_def creds_ok_def hash_of_def us_New_def)

text \<open>What authentication answers once the two maps agree.\<close>

lemma auth_exact:
  assumes "us_ok t" and "creds_ok t"
    and h_def: "h = hmacToken hmac (tb_pepper t) token"
  shows "us_AuthenticateForRegion hmac token region t = Inr u \<longleftrightarrow>
    token \<noteq> '''' \<and> h \<noteq> '''' \<and>
    (\<exists>k r. mget (tb_byID t) k = Some r \<and> ur_Hash r = h \<and> ur_User r = u \<and> admit u region = Inr u)"
proof
  assume "us_AuthenticateForRegion hmac token region t = Inr u"
  then obtain k r where k: "mget (tb_byHash t) h = Some k" "token \<noteq> ''''" "mget (tb_byID t) k = Some r"
      "admit (ur_User r) region = Inr u"
    by (auto simp: us_AuthenticateForRegion_def h_def split: option.splits if_splits)
  then have "ur_Hash r = h" "h \<noteq> ''''"
    using us_ok_hash [OF assms(1)] assms(1) by (auto simp: us_ok_def)
  with k show "token \<noteq> '''' \<and> h \<noteq> '''' \<and>
      (\<exists>k r. mget (tb_byID t) k = Some r \<and> ur_Hash r = h \<and> ur_User r = u \<and> admit u region = Inr u)"
    using admit_Inr [OF k(4)] by auto
next
  assume "token \<noteq> '''' \<and> h \<noteq> '''' \<and>
    (\<exists>k r. mget (tb_byID t) k = Some r \<and> ur_Hash r = h \<and> ur_User r = u \<and> admit u region = Inr u)"
  then obtain k r where r: "token \<noteq> ''''" "h \<noteq> ''''" "mget (tb_byID t) k = Some r" "ur_Hash r = h"
      "ur_User r = u" "admit u region = Inr u" by blast
  then have "mget (tb_byHash t) h = Some k"
    using assms(2) by (simp add: creds_ok_def hash_of_def)
  with r show "us_AuthenticateForRegion hmac token region t = Inr u"
    by (simp add: us_AuthenticateForRegion_def h_def)
qed

text \<open>The second map is determined by the first.\<close>

lemma hash_maps_agree:
  assumes "us_ok t" and "creds_ok t"
  shows "mget (tb_byHash t) h = Some k \<longleftrightarrow> h \<noteq> '''' \<and> map_option ur_Hash (mget (tb_byID t) k) = Some h"
  using assms unfolding us_ok_def creds_ok_def hash_of_def by blast

text \<open>Loading the records of a table rebuilds it.\<close>

lemma load_rec_store: "us_load_rec r t = store_rec (u_ID (ur_User r)) r t"
  by (simp add: us_load_rec_def store_rec_def)

lemma load_rebuilds:
  assumes "mwf (m @ m')" and "\<forall>(k, r) \<in> set (m @ m'). u_ID (ur_User r) = k"
    and "\<forall>(k, r) \<in> set (m @ m'). \<forall>(k', r') \<in> set (m @ m'). ur_Hash r = ur_Hash r' \<and> ur_Hash r \<noteq> '''' \<longrightarrow> k = k'"
    and "tb_byID t = m" and "us_ok t" and "creds_ok t"
  shows "tb_byID (fold us_load_rec (map snd m') t) = m @ m' \<and>
    tb_pepper (fold us_load_rec (map snd m') t) = tb_pepper t \<and>
    us_ok (fold us_load_rec (map snd m') t) \<and> creds_ok (fold us_load_rec (map snd m') t)"
  using assms
proof (induction m' arbitrary: m t)
  case (Cons e m')
  obtain k r where e: "e = (k, r)" by fastforce
  have id: "u_ID (ur_User r) = k" using Cons.prems(2) e by auto
  have new: "mget m k = None"
    using Cons.prems(1) e by (auto simp: mget_None_iff mkeys_def mwf_def)
  let ?t = "store_rec k r t"
  have tb: "tb_byID ?t = m @ [(k, r)]" "tb_pepper ?t = tb_pepper t"
    using Cons.prems(4) new by (simp_all add: store_rec_def Let_def mput_fresh)
  have "us_ok ?t"
    using Cons.prems(4,5) new id by (intro store_rec_ok) (fastforce simp: us_ok_def hash_of_def)+
  moreover have "creds_ok ?t"
  proof (rule store_rec_creds [OF Cons.prems(6)])
    fix k' assume "k' \<noteq> k" "hash_of k' t = Some (ur_Hash r)"
    then show "ur_Hash r = ''''"
      using Cons.prems(3,4) e by (auto dest!: hash_of_in)
  qed
  ultimately show ?case
    using Cons.IH [of "m @ [(k, r)]" ?t] Cons.prems(1-3) e tb
    by (simp add: load_rec_store id)
qed simp

section \<open>Properties\<close>

text \<open>
  C7: as long as no two users share a credential, after any history of creations, updates and
  deletions (whether or not their writes to disk succeeded) a token is accepted for a region
  exactly when it is not empty, some registered user has its hash, and that user is enabled and
  allowed in the region.
\<close>

theorem authenticate_exact:
  assumes "us_fresh_run hmac ops (us_New pepper)" and "t = fold (us_step hmac) ops (us_New pepper)"
  shows "us_AuthenticateForRegion hmac token region t = Inr u \<longleftrightarrow>
    token \<noteq> '''' \<and> hmacToken hmac (tb_pepper t) token \<noteq> '''' \<and>
    (\<exists>k r. mget (tb_byID t) k = Some r \<and> ur_Hash r = hmacToken hmac (tb_pepper t) token \<and> ur_User r = u \<and>
      u_Status u = UserEnabled \<and> (''*'' \<in> set (u_AllowedRegions u) \<or> region \<in> set (u_AllowedRegions u)))"
proof -
  have "us_ok t \<and> creds_ok t"
    using us_run_ok [OF _ _ assms(1)] us_New_ok assms(2) by blast
  moreover have "admit u region = Inr u \<longleftrightarrow> u_Status u = UserEnabled \<and>
      (''*'' \<in> set (u_AllowedRegions u) \<or> region \<in> set (u_AllowedRegions u))"
    by (auto simp: admit_def regionAllowed_def list_ex_iff)
  ultimately show ?thesis using auth_exact [OF _ _ refl] by simp
qed

text \<open>A keyed digest for concrete runs.\<close>

definition toy_hmac :: "string \<Rightarrow> string \<Rightarrow> string" where
  "toy_hmac pepper token = pepper @ ''/'' @ token"

definition mk_user :: "string \<Rightarrow> string \<Rightarrow> string list \<Rightarrow> user_create" where
  "mk_user name cred regions =
    \<lparr>uc_Username = name, uc_Credential = cred, uc_AllowedRegions = regions, uc_Status = ''''\<rparr>"

definition two_users :: "us_op list" where
  "two_users = [UCreate True 1 ''id1'' (mk_user ''alice'' ''tokA'' [''eu'']),
                UCreate True 2 ''id2'' (mk_user ''bob'' ''tokB'' [''*'']), UDelete True ''id1'']"

theorem authenticate_exact_witness:
  "\<exists>u k r. us_AuthenticateForRegion toy_hmac ''tokB'' ''us'' (fold (us_step toy_hmac) two_users (us_New ''p'')) = Inr u \<and>
     mget (tb_byID (fold (us_step toy_hmac) two_users (us_New ''p''))) k = Some r \<and> ur_User r = u \<and>
     u_Status u = UserEnabled"
proof -
  let ?t = "fold (us_step toy_hmac) two_users (us_New ''p'')"
  have fresh: "us_fresh_run toy_hmac two_users (us_New ''p'')" by code_simp
  have "(case us_AuthenticateForRegion toy_hmac ''tokB'' ''us'' ?t of Inr u \<Rightarrow> True | Inl e \<Rightarrow> False)"
    by code_simp
  then obtain u where u: "us_AuthenticateForRegion toy_hmac ''tokB'' ''us'' ?t = Inr u"
    by (cases "us_AuthenticateForRegion toy_hmac ''tokB'' ''us'' ?t") auto
  then show ?thesis using authenticate_exact [OF fresh refl] by blast
qed




definition file_users :: user_table where
  "file_users = fold (us_step toy_hmac) two_users (us_NewFile ''users.json'' ''p'' None)"


end
