(* ===== verification/Base64.thy ===== *)
theory Base64
  imports Prelude
begin

text \<open>
  The part of Go's \<^verbatim>\<open>encoding/base64\<close> the program uses: the padded standard encoder (TURN
  passwords), the unpadded standard codec (password hashes) and the unpadded URL decoder (JSON web
  tokens), with the decoder's own treatment of line breaks, short final groups and stray bits. What a
  decoder needs of its alphabet is a locale, with both alphabets as its instances.
\<close>

definition std_alphabet :: string where
  "std_alphabet = ''ABCDEFGHIJKLMNOPQRSTUVWXYZabcdefghijklmnopqrstuvwxyz0123456789+/''"

definition url_alphabet :: string where
  "url_alphabet = ''ABCDEFGHIJKLMNOPQRSTUVWXYZabcdefghijklmnopqrstuvwxyz0123456789-_''"

text \<open>Six bits at a time.\<close>

fun sextets :: "bytes \<Rightarrow> u8 list" where
  "sextets [] = []"
| "sextets [a] = [drop_bit 2 a, push_bit 4 (a AND 3)]"
| "sextets [a, b] = [drop_bit 2 a, push_bit 4 (a AND 3) OR drop_bit 4 b, push_bit 2 (b AND 15)]"
| "sextets (a # b # c # bs) =
    drop_bit 2 a # (push_bit 4 (a AND 3) OR drop_bit 4 b) #
    (push_bit 2 (b AND 15) OR drop_bit 6 c) # (c AND 63) # sextets bs"

fun unsextets :: "u8 list \<Rightarrow> bytes option" where
  "unsextets [] = Some []"
| "unsextets [x] = None"
| "unsextets [x, y] = Some [push_bit 2 x OR drop_bit 4 y]"
| "unsextets [x, y, z] = Some [push_bit 2 x OR drop_bit 4 y, push_bit 4 y OR drop_bit 2 z]"
| "unsextets (x # y # z # w # xs) =
    (case unsextets xs of
       None \<Rightarrow> None
     | Some bs \<Rightarrow>
         Some ((push_bit 2 x OR drop_bit 4 y) # (push_bit 4 y OR drop_bit 2 z) # (push_bit 6 z OR w) # bs))"

definition raw_encode :: "string \<Rightarrow> bytes \<Rightarrow> string" where
  "raw_encode alphabet bs = map (\<lambda>x. alphabet ! unat x) (sextets bs)"

definition std_encode :: "bytes \<Rightarrow> string" where
  "std_encode bs =
    (let s = raw_encode std_alphabet bs in s @ replicate ((4 - length s mod 4) mod 4) (CHR ''=''))"

definition digit_value :: "string \<Rightarrow> char \<Rightarrow> u8 option" where
  "digit_value alphabet c = map_of (zip alphabet (map of_nat [0..<64])) c"

fun digit_values :: "string \<Rightarrow> string \<Rightarrow> u8 list option" where
  "digit_values alphabet [] = Some []"
| "digit_values alphabet (c # cs) =
    (if c = CHR 0x0A \<or> c = CHR 0x0D then digit_values alphabet cs
     else case digit_value alphabet c of
            None \<Rightarrow> None
          | Some v \<Rightarrow> map_option (Cons v) (digit_values alphabet cs))"

definition raw_url_decode :: "string \<Rightarrow> bytes option" where
  "raw_url_decode s = Option.bind (digit_values url_alphabet s) unsextets"

definition raw_std_decode :: "string \<Rightarrow> bytes option" where
  "raw_std_decode s = Option.bind (digit_values std_alphabet s) unsextets"

section \<open>Decoding what was encoded\<close>

lemma low_bits: "(a :: u8) AND 3 = take_bit 2 a" "a AND 15 = take_bit 4 a" "a AND 63 = take_bit 6 a"
  by (simp_all add: take_bit_eq_mask mask_eq_exp_minus_1)

lemma Suc_Suc_sub [simp]: "2 \<le> n \<Longrightarrow> Suc (Suc (n - 2)) = n"
  by simp

lemma unsextets_sextets: "unsextets (sextets bs) = Some bs"
proof (induction bs rule: sextets.induct)
  case (2 a)
  show ?case by (auto simp: low_bits bit_simps intro!: bit_word_eqI)
next
  case (3 a b)
  show ?case by (auto simp: low_bits bit_simps intro!: bit_word_eqI)
next
  case (4 a b c bs)
  then show ?case by (auto simp: low_bits bit_simps intro!: bit_word_eqI)
qed simp

lemma six_bits: "(\<And>n. 6 \<le> n \<Longrightarrow> \<not> bit x n) \<Longrightarrow> unat (x :: u8) < 64"
proof -
  assume high: "\<And>n. 6 \<le> n \<Longrightarrow> \<not> bit x n"
  have "take_bit 6 x = x" by (rule bit_word_eqI) (use high leI in \<open>auto simp: bit_simps\<close>)
  then have "unat x = unat (take_bit 6 x)" by simp
  also have "\<dots> = unat x mod 64" by (simp add: unsigned_take_bit_eq take_bit_eq_mod [where 'a = nat])
  also have "\<dots> < 64" by simp
  finally show ?thesis .
qed

lemma bit8: "8 \<le> n \<Longrightarrow> \<not> bit (x :: u8) n"
  using bit_imp_le_length [of x n] by auto

lemma sextet_pieces:
  "unat (drop_bit 2 a :: u8) < 64" "unat (push_bit 4 (take_bit 2 a) :: u8) < 64"
  "unat (push_bit 4 (take_bit 2 a) OR drop_bit 4 b :: u8) < 64" "unat (push_bit 2 (take_bit 4 a) :: u8) < 64"
  "unat (push_bit 2 (take_bit 4 a) OR drop_bit 6 b :: u8) < 64" "unat (take_bit 6 a :: u8) < 64"
  by (rule six_bits; simp add: bit_simps bit8)+

lemma sextet_bounds: "x \<in> set (sextets bs) \<Longrightarrow> unat x < 64"
  by (induction bs rule: sextets.induct) (auto simp: low_bits sextet_pieces)

locale base64_alphabet =
  fixes alphabet :: string
  assumes digits_distinct: "distinct alphabet" and digits_64: "length alphabet = 64"
    and no_break: "CHR 0x0A \<notin> set alphabet" "CHR 0x0D \<notin> set alphabet"
begin

lemma digit_value_nth: "i < 64 \<Longrightarrow> digit_value alphabet (alphabet ! i) = Some (of_nat i)"
  by (simp add: digit_value_def map_of_zip_nth digits_distinct digits_64)

lemma digit_values_encode:
  "(\<And>x. x \<in> set xs \<Longrightarrow> unat x < 64) \<Longrightarrow>
    digit_values alphabet (map (\<lambda>x. alphabet ! unat x) xs) = Some xs"
proof (induction xs)
  case (Cons x xs)
  have x: "unat x < 64" using Cons.prems by simp
  then have "alphabet ! unat x \<in> set alphabet" by (simp add: digits_64)
  then have "alphabet ! unat x \<noteq> CHR 0x0A" "alphabet ! unat x \<noteq> CHR 0x0D"
    using no_break by metis+
  with x Cons show ?case by (simp add: digit_value_nth)
qed simp

lemma decode_encode: "Option.bind (digit_values alphabet (raw_encode alphabet bs)) unsextets = Some bs"
  using digit_values_encode [of "sextets bs"] sextet_bounds [of _ bs]
  by (simp add: raw_encode_def unsextets_sextets)

lemma encode_chars: "set (raw_encode alphabet bs) \<subseteq> set alphabet"
  using sextet_bounds digits_64 by (fastforce simp: raw_encode_def)

end

interpretation url64: base64_alphabet url_alphabet
  by unfold_locales code_simp+

interpretation std64: base64_alphabet std_alphabet
  by unfold_locales code_simp+

lemma raw_url_decode_encode: "raw_url_decode (raw_encode url_alphabet bs) = Some bs"
  unfolding raw_url_decode_def by (rule url64.decode_encode)

lemma raw_std_decode_encode: "raw_std_decode (raw_encode std_alphabet bs) = Some bs"
  unfolding raw_std_decode_def by (rule std64.decode_encode)

end
