(* ===== verification/TurnCred.thy ===== *)
theory TurnCred
  imports Base64
begin

text \<open>
  \<^verbatim>\<open>internal/turncred/turncred.go\<close>: short-lived TURN credentials. HMAC-SHA1 is an argument.
\<close>

definition Unix :: "gotime \<Rightarrow> int" where
  "Unix t = t div 1000000000 - 62135596800"

definition turn_username :: "gotime \<Rightarrow> string \<Rightarrow> string" where
  "turn_username expiry sessionID = show_int (Unix expiry) @ '':'' @ sessionID"

definition CredentialsAt ::
  "(string \<Rightarrow> string \<Rightarrow> bytes) \<Rightarrow> string \<Rightarrow> gotime \<Rightarrow> string \<Rightarrow> string \<times> string" where
  "CredentialsAt hmac_sha1 secret expiry sessionID =
    (let username = turn_username expiry sessionID
     in (username, std_encode (hmac_sha1 secret username)))"

definition Credentials ::
  "(string \<Rightarrow> string \<Rightarrow> bytes) \<Rightarrow> gotime \<Rightarrow> string \<Rightarrow> duration \<Rightarrow> string \<Rightarrow> string \<times> string" where
  "Credentials hmac_sha1 now secret ttl sessionID = CredentialsAt hmac_sha1 secret (now + ttl) sessionID"

definition turn_Verify :: "(string \<Rightarrow> string \<Rightarrow> bytes) \<Rightarrow> string \<Rightarrow> string \<Rightarrow> string \<Rightarrow> bool" where
  "turn_Verify hmac_sha1 secret username password =
    (std_encode (hmac_sha1 secret username) = password)"

section \<open>The user name carries expiry and session\<close>

lemma show_nat_digit: "c \<in> set (show_nat n) \<Longrightarrow> c \<noteq> CHR '':'' \<and> c \<noteq> CHR ''-''"
proof (induction n rule: show_nat.induct)
  case (1 n)
  have digit: "digit_char d \<noteq> CHR '':'' \<and> digit_char d \<noteq> CHR ''-''" if "d < 10" for d
    using of_digit_char [OF that] that by (auto dest: arg_cong [where f = "of_char :: char \<Rightarrow> nat"])
  have "show_nat n = (if n < 10 then [digit_char n] else show_nat (n div 10) @ [digit_char (n mod 10)])"
    by (rule show_nat.simps)
  then show ?case using 1 digit [of n] digit [of "n mod 10"] by (auto split: if_splits)
qed

lemma show_int_colon: "CHR '':'' \<notin> set (show_int i)"
  using show_nat_digit by (auto simp: show_int_def)

lemma show_int_inject: "show_int i = show_int j \<Longrightarrow> i = j"
proof -
  assume eq: "show_int i = show_int j"
  have minus: "CHR ''-'' \<notin> set (show_nat n)" for n using show_nat_digit by blast
  have "i < 0 \<longleftrightarrow> CHR ''-'' \<in> set (show_int i)" for i using minus by (simp add: show_int_def)
  then have "i < 0 \<longleftrightarrow> j < 0" using eq by metis
  then show ?thesis using eq by (auto simp: show_int_def)
qed

lemma turn_username_inject:
  assumes "turn_username e s = turn_username e' s'"
  shows "Unix e = Unix e' \<and> s = s'"
proof -
  have "takeWhile (\<lambda>c. c \<noteq> CHR '':'') (turn_username e s) = show_int (Unix e)" for e s
    using show_int_colon by (auto simp: turn_username_def takeWhile_append)
  then have "show_int (Unix e) = show_int (Unix e')" using assms by metis
  then have "Unix e = Unix e'" by (rule show_int_inject)
  then show ?thesis using assms by (simp add: turn_username_def)
qed

section \<open>Properties\<close>

text \<open>
  C29: minted TURN credentials verify under the secret they were minted with, with no other password
  for that user name; and the user name alone determines the second of expiry and the session, so
  credentials of different sessions or expiries never coincide.
\<close>

theorem turn_credentials_bound:
  assumes "CredentialsAt hmac_sha1 secret expiry sessionID = (username, password)"
  shows "(turn_Verify hmac_sha1 secret username p \<longleftrightarrow> p = password) \<and>
    (CredentialsAt hmac_sha1 secret expiry' sessionID' = (username, password') \<longrightarrow>
      Unix expiry' = Unix expiry \<and> sessionID' = sessionID \<and> password' = password)"
  using assms turn_username_inject [of expiry' sessionID' expiry sessionID]
  by (auto simp: CredentialsAt_def turn_Verify_def Let_def)

definition toy_sha1 :: "string \<Rightarrow> string \<Rightarrow> bytes" where
  "toy_sha1 secret username = (if secret = ''k'' then [97, 98, 99] else [])"

theorem turn_credentials_bound_witness:
  "CredentialsAt toy_sha1 ''k'' (62135596803 * second) ''7'' = (''3:7'', ''YWJj'') \<and>
   turn_Verify toy_sha1 ''k'' ''3:7'' ''YWJj'' \<and> \<not> turn_Verify toy_sha1 ''k'' ''3:7'' ''YWJk''"
proof -
  have c: "CredentialsAt toy_sha1 ''k'' (62135596803 * second) ''7'' = (''3:7'', ''YWJj'')"
    by code_simp
  show ?thesis
    using turn_credentials_bound [OF c, THEN conjunct1, of "''YWJj''"]
      turn_credentials_bound [OF c, THEN conjunct1, of "''YWJk''"] c by simp
qed

end
