(* ===== verification/GoStrings.thy ===== *)
theory GoStrings
  imports NetIp
begin

text \<open>
  The part of Go's \<^verbatim>\<open>strings\<close> and \<^verbatim>\<open>strconv\<close> the program uses, on ASCII text: splitting and cutting at a
  character, trimming, prefixes, lower case, and \<open>Atoi\<close>.
\<close>

section \<open>Splitting\<close>

fun split_at_char :: "char \<Rightarrow> string \<Rightarrow> string list" where
  "split_at_char c [] = [[]]"
| "split_at_char c (x # xs) =
    (if x = c then [] # split_at_char c xs
     else (x # hd (split_at_char c xs)) # tl (split_at_char c xs))"

fun cut_at :: "char \<Rightarrow> string \<Rightarrow> (string \<times> string) option" where
  "cut_at c [] = None"
| "cut_at c (x # xs) = (if x = c then Some ([], xs) else map_option (\<lambda>(a, b). (x # a, b)) (cut_at c xs))"

lemma split_ne [simp]: "split_at_char c s \<noteq> []"
  by (cases s) auto

lemma split_join:
  "s = concat (map (\<lambda>p. p @ [c]) (butlast (split_at_char c s))) @ last (split_at_char c s)"
proof (induction s)
  case (Cons x xs)
  then show ?case by (cases "split_at_char c xs") (auto split: if_splits)
qed simp

lemma split_plain: "c \<notin> set s \<Longrightarrow> split_at_char c s = [s]"
  by (induction s) auto

lemma split_append: "c \<notin> set s \<Longrightarrow> split_at_char c (s @ c # t) = s # split_at_char c t"
  by (induction s) auto

section \<open>Trimming and prefixes\<close>

definition is_space :: "char \<Rightarrow> bool" where
  "is_space c = ((of_char c :: nat) \<in> {9, 10, 11, 12, 13, 32})"

definition trim :: "(char \<Rightarrow> bool) \<Rightarrow> string \<Rightarrow> string" where
  "trim P s = rev (dropWhile P (rev (dropWhile P s)))"

abbreviation TrimSpace :: "string \<Rightarrow> string" where
  "TrimSpace \<equiv> trim is_space"

definition to_lower :: "char \<Rightarrow> char" where
  "to_lower c = (let n = (of_char c :: nat) in if 65 \<le> n \<and> n \<le> 90 then char_of (n + 32) else c)"

text \<open>\<open>strings.CutPrefix\<close>.\<close>

fun cut_prefix :: "string \<Rightarrow> string \<Rightarrow> string option" where
  "cut_prefix [] s = Some s"
| "cut_prefix (p # ps) (c # cs) = (if p = c then cut_prefix ps cs else None)"
| "cut_prefix (p # ps) [] = None"

lemma cut_prefix_iff: "cut_prefix p s = Some t \<longleftrightarrow> s = p @ t"
  by (induction p s rule: cut_prefix.induct) auto

lemma trim_ends: "trim P s \<noteq> [] \<Longrightarrow> \<not> P (hd (trim P s)) \<and> \<not> P (last (trim P s))"
proof -
  assume ne: "trim P s \<noteq> []"
  let ?t = "dropWhile P s"
  have l: "\<not> P (last (trim P s))"
    using ne hd_dropWhile [of P "rev ?t"] by (simp add: trim_def last_rev)
  obtain zs where zs: "?t = trim P s @ zs"
    unfolding trim_def by (metis rev_append rev_rev_ident takeWhile_dropWhile_id)
  with ne have "hd (trim P s) = hd ?t" "?t \<noteq> []" by auto
  then have "\<not> P (hd (trim P s))" using hd_dropWhile [of P s] by simp
  with l show ?thesis by simp
qed

lemma set_trim: "set (trim P s) \<subseteq> set s"
  by (metis set_dropWhileD set_rev subsetI trim_def)

lemma trim_id: "s = [] \<or> \<not> P (hd s) \<and> \<not> P (last s) \<Longrightarrow> trim P s = s"
  using dropWhile_eq_self_iff [of P s] dropWhile_eq_self_iff [of P "rev s"]
  by (auto simp: trim_def hd_rev)

section \<open>Decimal numbers\<close>

text \<open>\<open>strconv.Atoi\<close>, with its range check.\<close>

definition Atoi :: "string \<Rightarrow> int option" where
  "Atoi s =
    (let (neg, ds) = (case s of
         CHR ''-'' # cs \<Rightarrow> (True, cs) | CHR ''+'' # cs \<Rightarrow> (False, cs) | cs \<Rightarrow> (False, cs));
         v = int (read_digits ds)
     in if ds = [] \<or> \<not> list_all is_digit_char ds then None
        else if neg then (if v \<le> 2 ^ 63 then Some (- v) else None)
        else if v < 2 ^ 63 then Some v else None)"

lemma digit_char_plain: "d < 10 \<Longrightarrow> digit_char d \<notin> {CHR ''$'', CHR ''-'', CHR ''+''}"
  using of_char_digit [of d] by auto

lemma show_nat_digits: "list_all is_digit_char (show_nat n)"
  unfolding list_all_iff using set_show_nat [of _ n] digit_is_digit by blast

lemma show_nat_plain: "CHR ''$'' \<notin> set (show_nat n)" "hd (show_nat n) \<notin> {CHR ''-'', CHR ''+''}"
  using set_show_nat [of _ n] digit_char_plain hd_in_set [OF show_nat_ne, of n] by (fastforce, fastforce)

lemma Atoi_show_nat:
  assumes "n < 2 ^ 63"
  shows "Atoi (show_nat n) = Some (int n)"
proof -
  obtain c cs where c: "show_nat n = c # cs" using show_nat_ne by (cases "show_nat n") auto
  with show_nat_plain(2) [of n] have "c \<noteq> CHR ''-''" "c \<noteq> CHR ''+''" by auto
  then have sign: "(case show_nat n of
      CHR ''-'' # cs \<Rightarrow> (True, cs) | CHR ''+'' # cs \<Rightarrow> (False, cs) | cs \<Rightarrow> (False, cs)) = (False, show_nat n)"
    unfolding c by (auto split: char.split bool.split)
  have "int n < 2 ^ 63" using assms by simp
  then show ?thesis
    unfolding Atoi_def sign by (simp add: show_nat_digits read_show_nat)
qed

end
