(* ===== verification/Oidc.thy ===== *)
theory Oidc
  imports Base64 GoStrings
begin

text \<open>
  \<^verbatim>\<open>internal/oidc/oidc.go\<close>: verification of OpenID Connect ID tokens. JSON decoding, SHA-256 with
  RSA and the HTTP fetch are arguments; splitting, base64, the key cache with its refresh, and every
  check are modelled. A response body is the list of chunks its reads return.
\<close>

record claims =
  cl_Subject :: string
  cl_Email :: string
  cl_Issuer :: string
  cl_Audience :: "string list"
  cl_Expiry :: int

definition Identity_of :: "claims \<Rightarrow> string" where
  "Identity_of c = (if cl_Email c \<noteq> '''' then cl_Email c else cl_Subject c)"

text \<open>An RSA public key: modulus bytes and exponent.\<close>

record rsa_key =
  rk_N :: bytes
  rk_E :: u64

record verifier =
  vf_issuer :: string
  vf_audience :: string
  vf_keys :: "(string, rsa_key) gomap"
  vf_jwksURL :: string

datatype oidc_error =
  UnknownKey string | KeyNotInJWKS string | FetchFailed | FetchStatus int | BadJSON | BadBase64
| BadExponent string | NoRSAKeys | MalformedToken | UnsupportedAlg string | SignatureInvalid
| IssuerMismatch string | AudienceMissing | TokenExpired

record jwk =
  jwk_Kty :: string
  jwk_Kid :: string
  jwk_N :: string
  jwk_E :: string

text \<open>
  The code the verifier calls: the JSON decoders of the token header (alg, kid), of the claims
  object, of a string, a list of strings and a number, of a JWKS document, and the RSA check of a
  signature over a signing input.
\<close>

record oidc_env =
  js_header :: "bytes \<Rightarrow> (string \<times> string) option"
  js_object :: "bytes \<Rightarrow> (string \<Rightarrow> bytes option) option"
  js_string :: "bytes \<Rightarrow> string option"
  js_strings :: "bytes \<Rightarrow> string list"
  js_number :: "bytes \<Rightarrow> float64 option"
  js_jwks :: "bytes \<Rightarrow> jwk list option"
  rsa_verify :: "rsa_key \<Rightarrow> string \<Rightarrow> bytes \<Rightarrow> bool"

section \<open>JWKS documents\<close>

definition exponent :: "bytes \<Rightarrow> u64" where
  "exponent eb = fold (\<lambda>b e. push_bit 8 e OR ucast b) eb 0"

fun parse_keys :: "jwk list \<Rightarrow> (string, rsa_key) gomap \<Rightarrow> oidc_error + (string, rsa_key) gomap" where
  "parse_keys [] out = Inr out"
| "parse_keys (k # ks) out =
    (if jwk_Kty k \<noteq> ''RSA'' then parse_keys ks out
     else case raw_url_decode (jwk_N k) of
            None \<Rightarrow> Inl BadBase64
          | Some nb \<Rightarrow>
              (case raw_url_decode (jwk_E k) of
                 None \<Rightarrow> Inl BadBase64
               | Some eb \<Rightarrow>
                   if exponent eb = 0 then Inl (BadExponent (jwk_Kid k))
                   else parse_keys ks (mput out (jwk_Kid k) \<lparr>rk_N = nb, rk_E = exponent eb\<rparr>)))"

definition parseJWKS :: "oidc_env \<Rightarrow> bytes \<Rightarrow> oidc_error + (string, rsa_key) gomap" where
  "parseJWKS env data =
    (case js_jwks env data of
       None \<Rightarrow> Inl BadJSON
     | Some ks \<Rightarrow>
         (case parse_keys ks [] of
            Inl e \<Rightarrow> Inl e
          | Inr out \<Rightarrow> if out = [] then Inl NoRSAKeys else Inr out))"

definition NewStaticVerifier :: "oidc_env \<Rightarrow> string \<Rightarrow> string \<Rightarrow> bytes \<Rightarrow> oidc_error + verifier" where
  "NewStaticVerifier env issuer audience jwksJSON =
    (case parseJWKS env jwksJSON of
       Inl e \<Rightarrow> Inl e
     | Inr keys \<Rightarrow> Inr \<lparr>vf_issuer = issuer, vf_audience = audience, vf_keys = keys, vf_jwksURL = ''''\<rparr>)"

definition NewURLVerifier :: "string \<Rightarrow> string \<Rightarrow> string \<Rightarrow> verifier" where
  "NewURLVerifier issuer audience url =
    \<lparr>vf_issuer = issuer, vf_audience = audience, vf_keys = [], vf_jwksURL = url\<rparr>"

section \<open>The key cache\<close>

record http_response =
  hr_status :: int
  hr_body :: "bytes list"

text \<open>One read of the body into a buffer of a mebibyte: at most the first chunk.\<close>

definition read_once :: "bytes list \<Rightarrow> bytes" where
  "read_once body = (case body of [] \<Rightarrow> [] | c # _ \<Rightarrow> take (2 ^ 20) c)"

definition refresh :: "oidc_env \<Rightarrow> http_response option \<Rightarrow> verifier \<Rightarrow> oidc_error option \<times> verifier" where
  "refresh env resp v =
    (case resp of
       None \<Rightarrow> (Some FetchFailed, v)
     | Some r \<Rightarrow>
         if hr_status r \<noteq> 200 then (Some (FetchStatus (hr_status r)), v)
         else (case parseJWKS env (read_once (hr_body r)) of
                 Inl e \<Rightarrow> (Some e, v)
               | Inr keys \<Rightarrow> (None, v\<lparr>vf_keys := keys\<rparr>)))"

definition keyFor ::
  "oidc_env \<Rightarrow> http_response option \<Rightarrow> string \<Rightarrow> verifier \<Rightarrow> (oidc_error + rsa_key) \<times> verifier" where
  "keyFor env resp kid v =
    (case mget (vf_keys v) kid of
       Some k \<Rightarrow> (Inr k, v)
     | None \<Rightarrow>
         if vf_jwksURL v = '''' then (Inl (UnknownKey kid), v)
         else (case refresh env resp v of
                 (Some e, v) \<Rightarrow> (Inl e, v)
               | (None, v) \<Rightarrow>
                   (case mget (vf_keys v) kid of
                      None \<Rightarrow> (Inl (KeyNotInJWKS kid), v)
                    | Some k \<Rightarrow> (Inr k, v))))"

section \<open>Verification\<close>

definition jsonStr :: "oidc_env \<Rightarrow> bytes option \<Rightarrow> string" where
  "jsonStr env r =
    (case r of None \<Rightarrow> ''''
     | Some raw \<Rightarrow> if raw = [] then '''' else (case js_string env raw of Some s \<Rightarrow> s | None \<Rightarrow> ''''))"

definition parseAud :: "oidc_env \<Rightarrow> bytes option \<Rightarrow> string list" where
  "parseAud env r =
    (case r of None \<Rightarrow> []
     | Some raw \<Rightarrow> if raw = [] then []
         else (case js_string env raw of Some s \<Rightarrow> [s] | None \<Rightarrow> js_strings env raw))"

text \<open>\<open>int64\<close> truncates towards zero.\<close>

definition trunc :: "float64 \<Rightarrow> int" where
  "trunc f = (if f \<ge> 0 then floor f else ceiling f)"

definition parseExp :: "oidc_env \<Rightarrow> bytes option \<Rightarrow> int" where
  "parseExp env r =
    (case r of None \<Rightarrow> 0
     | Some raw \<Rightarrow> if raw = [] then 0
         else (case js_number env raw of Some f \<Rightarrow> trunc f | None \<Rightarrow> 0))"

definition claims_of :: "oidc_env \<Rightarrow> (string \<Rightarrow> bytes option) \<Rightarrow> claims" where
  "claims_of env m =
    \<lparr>cl_Subject = jsonStr env (m ''sub''), cl_Email = jsonStr env (m ''email''),
     cl_Issuer = jsonStr env (m ''iss''), cl_Audience = parseAud env (m ''aud''),
     cl_Expiry = parseExp env (m ''exp'')\<rparr>"

text \<open>The checks on the claims, with the clock in Unix seconds.\<close>

definition check_claims :: "verifier \<Rightarrow> int \<Rightarrow> claims \<Rightarrow> oidc_error + claims" where
  "check_claims v now c =
    (if cl_Issuer c \<noteq> vf_issuer v then Inl (IssuerMismatch (cl_Issuer c))
     else if vf_audience v \<noteq> '''' \<and> vf_audience v \<notin> set (cl_Audience c) then Inl AudienceMissing
     else if cl_Expiry c = 0 \<or> now \<ge> cl_Expiry c then Inl TokenExpired
     else Inr c)"

definition oidc_Verify ::
  "oidc_env \<Rightarrow> http_response option \<Rightarrow> int \<Rightarrow> string \<Rightarrow> verifier \<Rightarrow> (oidc_error + claims) \<times> verifier" where
  "oidc_Verify env resp now raw v =
    (let parts = split_at_char (CHR ''.'') raw in
     if length parts \<noteq> 3 then (Inl MalformedToken, v)
     else case raw_url_decode (parts ! 0) of
       None \<Rightarrow> (Inl BadBase64, v)
     | Some hdrBytes \<Rightarrow>
       (case js_header env hdrBytes of
          None \<Rightarrow> (Inl BadJSON, v)
        | Some (alg, kid) \<Rightarrow>
          if alg \<noteq> ''RS256'' then (Inl (UnsupportedAlg alg), v)
          else (case keyFor env resp kid v of
            (Inl e, v) \<Rightarrow> (Inl e, v)
          | (Inr key, v) \<Rightarrow>
            (case raw_url_decode (parts ! 2) of
               None \<Rightarrow> (Inl BadBase64, v)
             | Some sig \<Rightarrow>
               if \<not> rsa_verify env key (parts ! 0 @ ''.'' @ parts ! 1) sig then (Inl SignatureInvalid, v)
               else (case raw_url_decode (parts ! 1) of
                 None \<Rightarrow> (Inl BadBase64, v)
               | Some payload \<Rightarrow>
                 (case js_object env payload of
                    None \<Rightarrow> (Inl BadJSON, v)
                  | Some m \<Rightarrow> (check_claims v now (claims_of env m), v)))))))"

section \<open>What acceptance means\<close>

text \<open>The key a token is checked with: cached, or from a refresh that the cache did not need.\<close>

lemma keyFor_Inr:
  assumes "keyFor env resp kid v = (Inr k, v')"
  shows "mget (vf_keys v') kid = Some k \<and> vf_issuer v' = vf_issuer v \<and> vf_audience v' = vf_audience v \<and>
    (v' = v \<or> (mget (vf_keys v) kid = None \<and> vf_jwksURL v \<noteq> '''' \<and> refresh env resp v = (None, v')))"
  using assms
  by (auto simp: keyFor_def refresh_def split: option.splits if_splits sum.splits prod.splits)

section \<open>Properties\<close>


text \<open>
  the refresh reads the response body once. When a key set arrives in two reads and its first
  part is not a document by itself, the refresh fails and the key stays unknown, although the whole
  body is a valid key set that holds it.
\<close>

theorem jwks_read_once:
  assumes "js_jwks env a = None" and "length (a @ b) \<le> 2 ^ 20"
    and "parseJWKS env (a @ b) = Inr keys" and "mget keys kid = Some key"
    and "mget (vf_keys v) kid = None" and "vf_jwksURL v \<noteq> []"
  shows "keyFor env (Some \<lparr>hr_status = 200, hr_body = [a, b]\<rparr>) kid v = (Inl BadJSON, v) \<and>
    keyFor env (Some \<lparr>hr_status = 200, hr_body = [a @ b]\<rparr>) kid v = (Inr key, v\<lparr>vf_keys := keys\<rparr>)"
  using assms
  by (auto simp: keyFor_def refresh_def read_once_def parseJWKS_def)

text \<open>A decoder for concrete runs: the document \<open>[1, 2]\<close> holds the RSA key \<open>k1\<close>.\<close>

definition toy_env :: oidc_env where
  "toy_env =
    \<lparr>js_header = (\<lambda>b. Some (''RS256'', ''k1'')), js_object = (\<lambda>b. None), js_string = (\<lambda>b. None),
     js_strings = (\<lambda>b. []), js_number = (\<lambda>b. None),
     js_jwks = (\<lambda>b. if b = [1, 2] then Some [\<lparr>jwk_Kty = ''RSA'', jwk_Kid = ''k1'', jwk_N = ''AQ'', jwk_E = ''Aw''\<rparr>] else None),
     rsa_verify = (\<lambda>k i s. False)\<rparr>"

theorem jwks_read_once_witness:
  "keyFor toy_env (Some \<lparr>hr_status = 200, hr_body = [[1], [2]]\<rparr>) ''k1'' (NewURLVerifier ''iss'' ''aud'' ''url'') =
     (Inl BadJSON, NewURLVerifier ''iss'' ''aud'' ''url'') \<and>
   fst (keyFor toy_env (Some \<lparr>hr_status = 200, hr_body = [[1] @ [2]]\<rparr>) ''k1'' (NewURLVerifier ''iss'' ''aud'' ''url'')) =
     Inr \<lparr>rk_N = [1], rk_E = 3\<rparr>"
proof -
  have keys: "parseJWKS toy_env ([1] @ [2]) = Inr [(''k1'', \<lparr>rk_N = [1], rk_E = 3\<rparr>)]"
    by code_simp
  have torn: "js_jwks toy_env [1] = None" "length ([1] @ [2 :: 8 word]) \<le> 2 ^ 20"
    by (simp_all add: toy_env_def)
  have cached: "mget (vf_keys (NewURLVerifier ''iss'' ''aud'' ''url'')) ''k1'' = None"
    "vf_jwksURL (NewURLVerifier ''iss'' ''aud'' ''url'') \<noteq> []"
    by (simp_all add: NewURLVerifier_def)
  show ?thesis
    using jwks_read_once [OF torn keys _ cached, of "\<lparr>rk_N = [1], rk_E = 3\<rparr>"]
    by (simp add: mget_Cons)
qed

end
