(* ===== verification/Broker.thy ===== *)
theory Broker
  imports Proto IpPool Lb Qos UserStore TurnCred Oidc
begin

text \<open>
  \<^verbatim>\<open>cmd/revquic-broker/main.go\<close>: the broker's state, its connection handlers and its relay.

  Objects. A connection and the control stream accepted on it are one \<open>conn\<close>. A connection registers
  at most once, so an \<open>*exitNode\<close> is known by its connection: \<open>b_objs\<close> is the heap of these objects
  and \<open>b_exits\<close> the Go map from node id to object. A \<open>*session\<close> stands in at most one of the maps
  \<open>b_sessions\<close> and \<open>b_parked\<close>, which therefore hold it by value.

  Environment. What a handler takes from outside (the clock, whether a control stream accepts a write,
  the random draw, the hash functions, JSON and RSA, the JWKS server's answer, error texts of
  libraries) is the record \<open>broker_env\<close>; one activation of a handler reads one clock value. The calls
  the broker makes on connections are appended to \<open>b_out\<close>; log lines are left out.
\<close>

section \<open>State\<close>

record exit_node =
  en_nodeID :: string
  en_name :: string
  en_region :: string
  en_conn :: conn
  en_capacity :: int
  en_connectedAt :: gotime
  en_osInfo :: string
  en_active :: int
  en_cpu :: float64
  en_mem :: float64
  en_disk :: float64

text \<open>The armed timer of a parked session is its deadline.\<close>

record client_session =
  s_id :: u64
  s_region :: string
  s_clientIP :: string
  s_clientAddr :: addr
  s_username :: string
  s_userID :: string
  s_name :: string
  s_resumeKey :: string
  s_suspended :: bool
  s_parkedAt :: gotime
  s_suspendTimer :: "gotime option"
  s_nodeID :: string
  s_startedAt :: gotime
  s_clientConn :: conn
  s_exitConn :: conn

datatype broker_effect =
  Wrote conn control
| SentDatagram conn bytes
| ClosedConn conn

text \<open>The backends behind the \<open>userstore.Store\<close> interface.\<close>

datatype user_store = TableStore user_table | SqlStore sql_store

record broker =
  b_objs :: "(conn, exit_node) gomap"
  b_exits :: "(string, conn) gomap"
  b_sessions :: "(u64, client_session) gomap"
  b_parked :: "(string, client_session) gomap"
  b_resumeTTL :: duration
  b_nextSession :: u64
  b_ipPool :: pool
  b_users :: user_store
  b_bus :: bus
  b_nodeSecret :: string
  b_oidcVerifier :: "verifier option"
  b_turnSecret :: string
  b_turnURL :: string
  b_stunURL :: string
  b_qos :: tracker
  b_lbStrategy :: strategy
  b_rr :: u64
  b_out :: "broker_effect list"

record broker_env =
  be_now :: gotime
  be_writable :: "conn \<Rightarrow> bool"
  be_remoteAddr :: "conn \<Rightarrow> string"
  be_draw :: nat
  be_hmac :: "string \<Rightarrow> string \<Rightarrow> string"
  be_hmac_sha1 :: "string \<Rightarrow> string \<Rightarrow> bytes"
  be_db_ok :: bool
  be_db_text :: string
  be_oidc :: oidc_env
  be_jwks :: "http_response option"
  be_oidc_text :: "oidc_error \<Rightarrow> string"
  be_show6 :: "128 word \<Rightarrow> string"

text \<open>\<open>mustPool\<close> panics on a bad prefix: then there is no broker.\<close>

definition mustPool :: "(string \<Rightarrow> parse_error + addr) \<Rightarrow> string \<Rightarrow> string \<Rightarrow> pool option" where
  "mustPool parse6 cidr gateway =
    (let gw = (case ParseAddr parse6 gateway of Inr a \<Rightarrow> a | Inl _ \<Rightarrow> AddrZero)
     in case pool_New parse6 cidr [gw] of Inr p \<Rightarrow> Some p | Inl _ \<Rightarrow> None)"

definition newBroker ::
  "(string \<Rightarrow> parse_error + addr) \<Rightarrow> user_store \<Rightarrow> bus \<Rightarrow> string \<Rightarrow> broker option" where
  "newBroker parse6 users bus nodeSecret =
    (case mustPool parse6 ''10.99.0.0/24'' ''10.99.0.1'' of
       None \<Rightarrow> None
     | Some p \<Rightarrow> Some
         \<lparr>b_objs = [], b_exits = [], b_sessions = [], b_parked = [], b_resumeTTL = hour,
          b_nextSession = 0, b_ipPool = p, b_users = users, b_bus = bus, b_nodeSecret = nodeSecret,
          b_oidcVerifier = None, b_turnSecret = '''', b_turnURL = '''', b_stunURL = '''',
          b_qos = qos_New DefaultHistory, b_lbStrategy = LeastConn, b_rr = 0, b_out = []\<rparr>)"

section \<open>Effects\<close>

definition cw_write :: "broker_env \<Rightarrow> conn \<Rightarrow> control \<Rightarrow> broker \<Rightarrow> broker" where
  "cw_write env c m b = (if be_writable env c then b\<lparr>b_out := b_out b @ [Wrote c m]\<rparr> else b)"

definition effect :: "broker_effect \<Rightarrow> broker \<Rightarrow> broker" where
  "effect e b = b\<lparr>b_out := b_out b @ [e]\<rparr>"

definition publish :: "admin_event \<Rightarrow> broker \<Rightarrow> broker" where
  "publish ev b = b\<lparr>b_bus := Publish ev (b_bus b)\<rparr>"

definition track :: "(tracker \<Rightarrow> tracker) \<Rightarrow> broker \<Rightarrow> broker" where
  "track f b = b\<lparr>b_qos := f (b_qos b)\<rparr>"

text \<open>\<open>ex.active.Add(d)\<close> and \<open>setSysStat\<close> on the object of connection \<open>c\<close>.\<close>

definition upd_exit :: "conn \<Rightarrow> (exit_node \<Rightarrow> exit_node) \<Rightarrow> broker \<Rightarrow> broker" where
  "upd_exit c f b =
    (case mget (b_objs b) c of None \<Rightarrow> b | Some e \<Rightarrow> b\<lparr>b_objs := mput (b_objs b) c (f e)\<rparr>)"

definition active_add :: "conn \<Rightarrow> int \<Rightarrow> broker \<Rightarrow> broker" where
  "active_add c d = upd_exit c (\<lambda>e. e\<lparr>en_active := en_active e + d\<rparr>)"

definition setSysStat :: "float64 \<Rightarrow> float64 \<Rightarrow> float64 \<Rightarrow> exit_node \<Rightarrow> exit_node" where
  "setSysStat cpu mem disk e = e\<lparr>en_cpu := cpu, en_mem := mem, en_disk := disk\<rparr>"

section \<open>Views for the admin API\<close>

definition deviceView :: "broker_env \<Rightarrow> exit_node \<Rightarrow> broker \<Rightarrow> device_view" where
  "deviceView env ex b =
    (let active = en_active ex;
         loadPct = (if en_capacity ex > 0 then of_int active / of_int (en_capacity ex) * 100 else 0);
         bps = (case ExitOne (en_nodeID ex) (b_qos b) of Some st \<Rightarrow> es_ThroughputBps st | None \<Rightarrow> 0)
     in \<lparr>dv_NodeID = en_nodeID ex, dv_Name = en_name ex, dv_Region = en_region ex,
         dv_Status = NodeOnline, dv_Version = '''', dv_NATType = '''', dv_System = en_osInfo ex,
         dv_PublicAddr = be_remoteAddr env (en_conn ex), dv_Capacity = en_capacity ex,
         dv_ActiveUsers = active, dv_LoadPct = loadPct, dv_CPUPct = en_cpu ex, dv_MemPct = en_mem ex,
         dv_DiskPct = en_disk ex, dv_ThroughputBps = bps, dv_RTTms = 0,
         dv_ConnectedAt = en_connectedAt ex, dv_LastSeen = be_now env,
         dv_Config = \<lparr>dc_Region = en_region ex, dc_Capacity = en_capacity ex,
           dc_VPNType = ''quic-datagram'', dc_DataplaneMode = ''relay'', dc_UplinkIface = '''',
           dc_Version = ''''\<rparr>\<rparr>)"

definition sessionView :: "broker_env \<Rightarrow> client_session \<Rightarrow> broker \<Rightarrow> admin_session" where
  "sessionView env s b =
    (let v = \<lparr>as_SessionID = show_u64 (s_id s), as_UserID = s_userID s, as_Username = s_username s,
              as_Name = s_name s, as_NodeID = s_nodeID s, as_Region = s_region s, as_Mode = ''relay'',
              as_State = ''active'', as_StartedAt = s_startedAt s, as_BytesUp = 0, as_BytesDown = 0,
              as_ThroughputBps = 0, as_RTTms = 0, as_Host = '''', as_TunName = '''', as_OS = '''',
              as_CPUPct = 0, as_MemPct = 0, as_DiskPct = 0\<rparr>
     in case qos_Session (be_now env) (show_u64 (s_id s)) (b_qos b) of
          None \<Rightarrow> v
        | Some st \<Rightarrow>
            v\<lparr>as_BytesUp := ss_BytesUp st, as_BytesDown := ss_BytesDown st,
              as_ThroughputBps := ss_ThroughputBps st, as_RTTms := ss_RTTms st, as_Host := ss_Host st,
              as_TunName := ss_TunName st, as_OS := ss_OS st, as_CPUPct := ss_CPUPct st,
              as_MemPct := ss_MemPct st, as_DiskPct := ss_DiskPct st,
              as_Mode := (if ss_Path st \<noteq> '''' then ss_Path st else ''relay''),
              as_State := (if ss_Degraded st then ''degraded'' else ''active'')\<rparr>)"

text \<open>The exit objects registered under some node id, in the order of the map.\<close>

definition live_exits :: "broker \<Rightarrow> exit_node list" where
  "live_exits b = List.map_filter (\<lambda>(k, c). mget (b_objs b) c) (b_exits b)"

definition ListNodes :: "broker_env \<Rightarrow> broker \<Rightarrow> device_view list" where
  "ListNodes env b = map (\<lambda>ex. deviceView env ex b) (live_exits b)"

definition ListSessions :: "broker_env \<Rightarrow> broker \<Rightarrow> admin_session list" where
  "ListSessions env b = map (\<lambda>(k, s). sessionView env s b) (b_sessions b)"

definition QoSExits :: "broker \<Rightarrow> exit_stat list" where
  "QoSExits b = qos_Exits (b_qos b)"

definition QoSSessions :: "broker_env \<Rightarrow> broker \<Rightarrow> session_stat list" where
  "QoSSessions env b = qos_Sessions (be_now env) (b_qos b)"

definition QoSHistory :: "int \<Rightarrow> broker \<Rightarrow> qos_event list" where
  "QoSHistory limit b = History limit (b_qos b)"

section \<open>Exit connections\<close>

definition fail_session :: "broker_env \<Rightarrow> exit_node \<Rightarrow> client_session \<Rightarrow> broker \<Rightarrow> broker" where
  "fail_session env ex s b =
    effect (ClosedConn (s_clientConn s))
      (cw_write env (s_clientConn s)
        (error_msg (''exit node '' @ en_nodeID ex @ '' disconnected; please reconnect'')) b)"

definition failExit :: "broker_env \<Rightarrow> exit_node \<Rightarrow> broker \<Rightarrow> broker" where
  "failExit env ex b =
    (let affected = filter (\<lambda>s. s_nodeID s = en_nodeID ex) (map snd (b_sessions b))
     in fold (fail_session env ex) affected b)"

definition ingestReport :: "broker_env \<Rightarrow> control \<Rightarrow> broker \<Rightarrow> broker" where
  "ingestReport env m =
    track (Report (be_now env) (show_u64 (c_SessionID m))
      \<lparr>r_BytesUp = c_BytesUp m, r_BytesDown = c_BytesDown m, r_ThroughputBps = c_ThroughputBps m,
       r_Drops = c_Drops m, r_RTTms = c_RTTms m, r_Direct = c_Direct m, r_Host = c_Host m,
       r_TunName = c_TunName m, r_OS = c_OS m, r_CPUPct = c_CPUPct m, r_MemPct = c_MemPct m,
       r_DiskPct = c_DiskPct m\<rparr>)"

definition pong :: "control \<Rightarrow> control" where
  "pong m = (control_of MsgPong)\<lparr>c_SessionID := c_SessionID m, c_TS := c_TS m\<rparr>"

definition register_exit :: "broker_env \<Rightarrow> conn \<Rightarrow> control \<Rightarrow> broker \<Rightarrow> broker" where
  "register_exit env conn msg b =
    (let ex = \<lparr>en_nodeID = c_NodeID msg, en_name = c_Name msg, en_region = c_Region msg,
               en_conn = conn, en_capacity = (if c_Capacity msg = 0 then 100 else c_Capacity msg),
               en_connectedAt = be_now env, en_osInfo = c_OS msg, en_active = 0, en_cpu = 0,
               en_mem = 0, en_disk = 0\<rparr>;
         b = b\<lparr>b_objs := mput (b_objs b) conn ex, b_exits := mput (b_exits b) (en_nodeID ex) conn\<rparr>;
         b = cw_write env conn (control_of MsgRegisterOK) b;
         b = track (NodeUp (be_now env) (en_nodeID ex) (en_region ex) (en_connectedAt ex)) b
     in publish ((admin_ev EvNodeConnected (be_now env))\<lparr>e_Node := Some (deviceView env ex b)\<rparr>) b)"

text \<open>One message of an exit's control loop.\<close>

definition exit_message :: "broker_env \<Rightarrow> conn \<Rightarrow> control \<Rightarrow> broker \<Rightarrow> broker" where
  "exit_message env ex m b =
    (case c_Type m of
       MsgSignal \<Rightarrow>
         (case mget (b_sessions b) (c_SessionID m) of
            None \<Rightarrow> b
          | Some s \<Rightarrow> cw_write env (s_clientConn s) m b)
     | MsgReport \<Rightarrow> ingestReport env m b
     | MsgPing \<Rightarrow> cw_write env ex (pong m) b
     | MsgNodeStatus \<Rightarrow>
         (let b = upd_exit ex (setSysStat (c_CPUPct m) (c_MemPct m) (c_DiskPct m)) b
          in case mget (b_objs b) ex of
               None \<Rightarrow> b
             | Some e \<Rightarrow> publish ((admin_ev EvNodeUpdated (be_now env))\<lparr>e_Node := Some (deviceView env e b)\<rparr>) b)
     | _ \<Rightarrow> b)"

text \<open>What follows the control loop when its read fails.\<close>

definition exit_gone :: "broker_env \<Rightarrow> conn \<Rightarrow> broker \<Rightarrow> broker" where
  "exit_gone env c b =
    (case mget (b_objs b) c of
       None \<Rightarrow> b
     | Some ex \<Rightarrow>
         let b = b\<lparr>b_exits := mdel (b_exits b) (en_nodeID ex)\<rparr>;
             b = track (NodeDown (be_now env) (en_nodeID ex)) b;
             b = publish ((admin_ev EvNodeDisconnected (be_now env))\<lparr>e_NodeID := en_nodeID ex\<rparr>) b
         in failExit env ex b)"

section \<open>Admission and exit selection\<close>

definition st_AuthenticateForRegion ::
  "broker_env \<Rightarrow> string \<Rightarrow> string \<Rightarrow> user_store \<Rightarrow> user_error + user" where
  "st_AuthenticateForRegion env token region st =
    (case st of
       TableStore t \<Rightarrow> us_AuthenticateForRegion (be_hmac env) token region t
     | SqlStore s \<Rightarrow> sq_AuthenticateForRegion (be_hmac env) (be_db_ok env) token region s)"

definition st_AuthorizeUser ::
  "broker_env \<Rightarrow> string \<Rightarrow> string \<Rightarrow> user_store \<Rightarrow> user_error + user" where
  "st_AuthorizeUser env username region st =
    (case st of
       TableStore t \<Rightarrow> us_AuthorizeUser username region t
     | SqlStore s \<Rightarrow> sq_AuthorizeUser (be_db_ok env) username region s)"

definition user_error_text :: "broker_env \<Rightarrow> user_error \<Rightarrow> string" where
  "user_error_text env e =
    (case e of
       ErrNotFound \<Rightarrow> ''user not found''
     | ErrConflict \<Rightarrow> ''username already exists''
     | ErrBadToken \<Rightarrow> ''invalid token''
     | ErrDisabled \<Rightarrow> ''user disabled''
     | ErrRegionDenied \<Rightarrow> ''region not allowed for user''
     | IoError \<Rightarrow> be_db_text env)"

definition client_auth :: "broker_env \<Rightarrow> control \<Rightarrow> broker \<Rightarrow> (string + user) \<times> broker" where
  "client_auth env msg b =
    (let answer = (\<lambda>r. case r of Inl e \<Rightarrow> Inl (user_error_text env e) | Inr u \<Rightarrow> Inr u)
     in case b_oidcVerifier b of
          None \<Rightarrow> (answer (st_AuthenticateForRegion env (c_Token msg) (c_RequestedRegion msg) (b_users b)), b)
        | Some v \<Rightarrow>
            (case oidc_Verify (be_oidc env) (be_jwks env) (Unix (be_now env)) (c_Token msg) v of
               (Inl e, v) \<Rightarrow> (Inl (''oidc: '' @ be_oidc_text env e), b\<lparr>b_oidcVerifier := Some v\<rparr>)
             | (Inr cl, v) \<Rightarrow>
                 (answer (st_AuthorizeUser env (Identity_of cl) (c_RequestedRegion msg) (b_users b)),
                  b\<lparr>b_oidcVerifier := Some v\<rparr>)))"

definition exit_list :: "string \<Rightarrow> broker \<Rightarrow> exit_info list" where
  "exit_list region b =
    map (\<lambda>e. \<lparr>ei_NodeID = en_nodeID e, ei_Name = en_name e, ei_Region = en_region e,
              ei_System = en_osInfo e, ei_ActiveUsers = en_active e, ei_Capacity = en_capacity e\<rparr>)
      (filter (\<lambda>e. en_region e = region) (live_exits b))"

definition lb_cand :: "exit_node \<Rightarrow> lb_node" where
  "lb_cand e = \<lparr>n_ID = en_nodeID e, n_Region = en_region e, n_Active = en_active e, n_Capacity = en_capacity e\<rparr>"

definition manual_ok :: "string \<Rightarrow> exit_node \<Rightarrow> bool" where
  "manual_ok region e = (en_region e = region \<and> (en_capacity e = 0 \<or> en_active e < en_capacity e))"

text \<open>Manual choice, or the load balancer over all registered exits; an error text if there is none.\<close>

definition select_exit :: "broker_env \<Rightarrow> control \<Rightarrow> broker \<Rightarrow> (string + conn) \<times> broker" where
  "select_exit env msg b =
    (if c_RequestedExit msg \<noteq> '''' then
       (case mget (b_exits b) (c_RequestedExit msg) of
          Some c \<Rightarrow>
            (case mget (b_objs b) c of
               Some e \<Rightarrow>
                 if manual_ok (c_RequestedRegion msg) e then (Inr c, b)
                 else (Inl (''requested exit '' @ c_RequestedExit msg @ '' unavailable in region '' @ c_RequestedRegion msg), b)
             | None \<Rightarrow> (Inl (''requested exit '' @ c_RequestedExit msg @ '' unavailable in region '' @ c_RequestedRegion msg), b))
        | None \<Rightarrow> (Inl (''requested exit '' @ c_RequestedExit msg @ '' unavailable in region '' @ c_RequestedRegion msg), b))
     else
       (let (chosen, rr) = Pick (be_draw env) (b_lbStrategy b) (c_RequestedRegion msg)
                             (map lb_cand (live_exits b)) (Some (b_rr b));
            b = b\<lparr>b_rr := (case rr of Some r \<Rightarrow> r | None \<Rightarrow> b_rr b)\<rparr>
        in case chosen of
             None \<Rightarrow> (Inl (''no exit available in region '' @ c_RequestedRegion msg), b)
           | Some i \<Rightarrow>
               (case mget (b_exits b) i of
                  Some c \<Rightarrow> (Inr c, b)
                | None \<Rightarrow> (Inl (''no exit available in region '' @ c_RequestedRegion msg), b))))"

section \<open>The life of a session\<close>

text \<open>
  \<open>tryResume\<close> up to the release of the lock; the increment of the exit's counter that follows is made
  by the caller, \<open>handleClient\<close>. A parked session comes back only for its own user name, before its
  deadline, and when its node is registered; then its timer is stopped and it moves to \<open>b_sessions\<close> on
  the new connection, with the object now registered for its node.
\<close>

definition tryResume ::
  "broker_env \<Rightarrow> string \<Rightarrow> string \<Rightarrow> conn \<Rightarrow> broker \<Rightarrow> (u64 \<times> conn) option \<times> broker" where
  "tryResume env resumeKey username conn b =
    (case mget (b_parked b) resumeKey of
       None \<Rightarrow> (None, b)
     | Some ps \<Rightarrow>
         if s_username ps \<noteq> username \<or> be_now env - s_parkedAt ps \<ge> b_resumeTTL b then (None, b)
         else
           (case mget (b_exits b) (s_nodeID ps) of
              None \<Rightarrow> (None, b)
            | Some ex \<Rightarrow>
                (Some (s_id ps, ex),
                 b\<lparr>b_parked := mdel (b_parked b) resumeKey,
                   b_sessions := mput (b_sessions b) (s_id ps)
                     (ps\<lparr>s_suspendTimer := None, s_suspended := False, s_clientConn := conn, s_exitConn := ex\<rparr>)\<rparr>)))"

text \<open>
  The first part of \<open>handleClient\<close>, up to the release of the lock: it ends with an answer and no
  session, with a resumed session, or with the exit a new session will use.
\<close>

datatype begun = Answered control | Resumed u64 conn | Selected user conn

definition client_begin :: "broker_env \<Rightarrow> conn \<Rightarrow> control \<Rightarrow> broker \<Rightarrow> begun \<times> broker" where
  "client_begin env conn msg b =
    (case client_auth env msg b of
       (Inl e, b) \<Rightarrow> (Answered (error_msg e), b)
     | (Inr u, b) \<Rightarrow>
         if c_ListExits msg then
           (Answered ((control_of MsgConnectOK)\<lparr>c_ExitList := exit_list (c_RequestedRegion msg) b\<rparr>), b)
         else
           (case (if c_ResumeKey msg \<noteq> '''' then tryResume env (c_ResumeKey msg) (u_Username u) conn b
                  else (None, b)) of
              (Some (sid, ex), b) \<Rightarrow> (Resumed sid ex, b)
            | (None, b) \<Rightarrow>
                (case select_exit env msg b of
                   (Inl e, b) \<Rightarrow> (Answered (error_msg e), b)
                 | (Inr ex, b) \<Rightarrow> (Selected u ex, b))))"

text \<open>A fresh id and an address for a new session.\<close>

definition lease :: "broker \<Rightarrow> (alloc_error + u64 \<times> addr) \<times> broker" where
  "lease b =
    (let sid = b_nextSession b + 1;
         (r, p) = Allocate (b_ipPool b);
         b = b\<lparr>b_nextSession := sid, b_ipPool := p\<rparr>
     in case r of Inl e \<Rightarrow> (Inl e, b) | Inr a \<Rightarrow> (Inr (sid, a), b))"

definition new_session ::
  "broker_env \<Rightarrow> conn \<Rightarrow> control \<Rightarrow> user \<Rightarrow> exit_node \<Rightarrow> u64 \<Rightarrow> addr \<Rightarrow> client_session" where
  "new_session env conn msg u ex sid a =
    \<lparr>s_id = sid, s_region = en_region ex, s_clientIP = AddrString (be_show6 env) a, s_clientAddr = a,
     s_username = u_Username u, s_userID = u_ID u, s_name = c_Name msg, s_resumeKey = c_ResumeKey msg,
     s_suspended = False, s_parkedAt = 0, s_suspendTimer = None, s_nodeID = en_nodeID ex,
     s_startedAt = be_now env, s_clientConn = conn, s_exitConn = en_conn ex\<rparr>"

definition insert_session ::
  "broker_env \<Rightarrow> conn \<Rightarrow> control \<Rightarrow> user \<Rightarrow> conn \<Rightarrow> u64 \<Rightarrow> addr \<Rightarrow> broker \<Rightarrow> broker" where
  "insert_session env conn msg u ex sid a b =
    (case mget (b_objs b) ex of
       None \<Rightarrow> b
     | Some e \<Rightarrow> b\<lparr>b_sessions := mput (b_sessions b) sid (new_session env conn msg u e sid a)\<rparr>)"

text \<open>The counters of a session just inserted.\<close>

definition count_session :: "broker_env \<Rightarrow> u64 \<Rightarrow> conn \<Rightarrow> broker \<Rightarrow> broker" where
  "count_session env sid ex b =
    (let b = active_add ex 1 b
     in case mget (b_sessions b) sid of
          None \<Rightarrow> b
        | Some s \<Rightarrow> track (qos_Connect (be_now env) (show_u64 sid) (s_nodeID s) (s_region s)
                              (s_username s) (s_startedAt s)) b)"

definition endSession :: "broker_env \<Rightarrow> u64 \<Rightarrow> conn \<Rightarrow> broker \<Rightarrow> broker" where
  "endSession env sid ex b =
    (case mget (b_sessions b) sid of
       None \<Rightarrow> b
     | Some s \<Rightarrow>
         let b = b\<lparr>b_sessions := mdel (b_sessions b) sid\<rparr>;
             b = active_add ex (-1) b;
             b = b\<lparr>b_ipPool := Release (s_clientAddr s) (b_ipPool b)\<rparr>
         in cw_write env ex ((control_of MsgSessionEnd)\<lparr>c_SessionID := sid\<rparr>) b)"

definition turn_fields :: "broker_env \<Rightarrow> u64 \<Rightarrow> broker \<Rightarrow> control \<Rightarrow> control" where
  "turn_fields env sid b m =
    (if b_turnSecret b = '''' then m
     else let (usr, pass) = Credentials (be_hmac_sha1 env) (be_now env) (b_turnSecret b) hour (show_u64 sid)
          in m\<lparr>c_StunURL := b_stunURL b, c_TurnURL := b_turnURL b, c_TurnUser := usr, c_TurnPass := pass\<rparr>)"

definition session_msg :: "broker_env \<Rightarrow> msg_type \<Rightarrow> client_session \<Rightarrow> broker \<Rightarrow> control" where
  "session_msg env ty s b =
    turn_fields env (s_id s) b
      ((control_of ty)\<lparr>c_SessionID := s_id s, c_ClientIP := s_clientIP s,
         c_Netmask := ''255.255.255.0'', c_MTU := int SafeTunnelMTU\<rparr>)"

text \<open>\<open>runSession\<close> up to its loops: whether they start. A failed write to the exit ends the session.\<close>

definition run_start :: "broker_env \<Rightarrow> conn \<Rightarrow> u64 \<Rightarrow> conn \<Rightarrow> broker \<Rightarrow> bool \<times> broker" where
  "run_start env conn sid ex b =
    (case mget (b_sessions b) sid of
       None \<Rightarrow> (False, b)
     | Some s \<Rightarrow>
         if \<not> be_writable env ex then
           (False, endSession env sid ex (cw_write env conn (error_msg ''exit unavailable'') b))
         else
           let b = cw_write env ex (session_msg env MsgSessionStart s b) b;
               b = cw_write env conn (session_msg env MsgConnectOK s b) b
           in (True, publish ((admin_ev EvSessionStarted (be_now env))\<lparr>e_Session := Some (sessionView env s b)\<rparr>) b))"

text \<open>One message of the client's control loop.\<close>

definition client_message :: "broker_env \<Rightarrow> conn \<Rightarrow> conn \<Rightarrow> control \<Rightarrow> broker \<Rightarrow> broker" where
  "client_message env conn ex m b =
    (case c_Type m of
       MsgSignal \<Rightarrow> cw_write env ex m b
     | MsgReport \<Rightarrow> ingestReport env m b
     | MsgPing \<Rightarrow> cw_write env conn (pong m) b
     | _ \<Rightarrow> b)"

text \<open>One datagram received on a connection: the body of \<open>relayLoop\<close>.\<close>

definition relay_datagram :: "broker_env \<Rightarrow> conn \<Rightarrow> bytes \<Rightarrow> broker \<Rightarrow> broker" where
  "relay_datagram env conn dg b =
    (case DecodeDatagram dg of
       Inl _ \<Rightarrow> b
     | Inr (sid, pkt) \<Rightarrow>
         (case mget (b_sessions b) sid of
            None \<Rightarrow> b
          | Some s \<Rightarrow>
              let fromClient = (conn \<noteq> s_exitConn s);
                  b = track (AddBytes (be_now env) (show_u64 sid) fromClient (int (length pkt))) b;
                  peer = (if conn = s_exitConn s then s_clientConn s else s_exitConn s)
              in effect (SentDatagram peer dg) b))"

definition relayLoop :: "conn \<Rightarrow> (broker_env \<times> bytes) list \<Rightarrow> broker \<Rightarrow> broker" where
  "relayLoop conn = fold (\<lambda>(env, dg). relay_datagram env conn dg)"

datatype close_cause = AppError u64 | OtherClose

definition clientClosedIntentionally :: "close_cause \<Rightarrow> bool" where
  "clientClosedIntentionally cause = (cause = AppError CloseClientShutdown)"

text \<open>
  A dropped client: its session is parked for a later resume, or torn down.
\<close>

definition suspendSession :: "broker_env \<Rightarrow> u64 \<Rightarrow> conn \<Rightarrow> bool \<Rightarrow> broker \<Rightarrow> broker" where
  "suspendSession env sid ex intentional b =
    (case mget (b_sessions b) sid of
       None \<Rightarrow> b
     | Some s \<Rightarrow>
         let b = active_add ex (-1) (b\<lparr>b_sessions := mdel (b_sessions b) sid\<rparr>)
         in if \<not> intentional \<and> s_resumeKey s \<noteq> '''' \<and> b_resumeTTL b > 0 then
              let s = s\<lparr>s_suspended := True, s_parkedAt := be_now env,
                        s_suspendTimer := Some (be_now env + b_resumeTTL b)\<rparr>;
                  b = b\<lparr>b_parked := mput (b_parked b) (s_resumeKey s) s\<rparr>
              in cw_write env ex ((control_of MsgSessionSuspend)\<lparr>c_SessionID := sid\<rparr>) b
            else
              let b = b\<lparr>b_ipPool := Release (s_clientAddr s) (b_ipPool b)\<rparr>;
                  b = cw_write env ex ((control_of MsgSessionEnd)\<lparr>c_SessionID := sid\<rparr>) b;
                  b = track (qos_Disconnect (be_now env) (show_u64 sid)) b
              in publish ((admin_ev EvSessionEnded (be_now env))\<lparr>e_Session := Some (sessionView env s b)\<rparr>) b)"

definition expirePark :: "broker_env \<Rightarrow> string \<Rightarrow> u64 \<Rightarrow> broker \<Rightarrow> broker" where
  "expirePark env resumeKey sid b =
    (case mget (b_parked b) resumeKey of
       None \<Rightarrow> b
     | Some s \<Rightarrow>
         if s_id s \<noteq> sid \<or> \<not> s_suspended s then b
         else
           let b = b\<lparr>b_parked := mdel (b_parked b) resumeKey,
                     b_ipPool := Release (s_clientAddr s) (b_ipPool b)\<rparr>;
               b = (case mget (b_exits b) (s_nodeID s) of
                      None \<Rightarrow> b
                    | Some ex \<Rightarrow> cw_write env ex ((control_of MsgSessionEnd)\<lparr>c_SessionID := sid\<rparr>) b);
               b = track (qos_Disconnect (be_now env) (show_u64 sid)) b
           in publish ((admin_ev EvSessionEnded (be_now env))\<lparr>e_Session := Some (sessionView env s b)\<rparr>) b)"

text \<open>
  What arrives on a connection while its handler runs: messages of the control stream and datagrams.
\<close>

datatype conn_io = CtrlIn control | DgramIn bytes

text \<open>
  The handler of an exit connection, with the relay loop it starts: \<open>ios\<close> is what arrives, in order and
  each with the environment of its iteration, until the control stream fails; \<open>env'\<close> is the
  environment of the teardown.
\<close>

definition exit_event :: "conn \<Rightarrow> broker_env \<times> conn_io \<Rightarrow> broker \<Rightarrow> broker" where
  "exit_event conn io b =
    (case io of
       (env, CtrlIn m) \<Rightarrow> exit_message env conn m b
     | (env, DgramIn dg) \<Rightarrow> relay_datagram env conn dg b)"

definition handleExit ::
  "broker_env \<Rightarrow> conn \<Rightarrow> control \<Rightarrow> (broker_env \<times> conn_io) list \<Rightarrow> broker_env \<Rightarrow> broker \<Rightarrow> broker" where
  "handleExit env conn msg ios env' b =
    (if c_Token msg \<noteq> b_nodeSecret b then cw_write env conn (error_msg ''bad node token'') b
     else exit_gone env' conn (fold (exit_event conn) ios (register_exit env conn msg b)))"

text \<open>
  The handler of a client connection: it runs until the connection drops with \<open>cause\<close>, when the
  environment is \<open>env'\<close>.
\<close>

definition client_event :: "conn \<Rightarrow> conn \<Rightarrow> broker_env \<times> conn_io \<Rightarrow> broker \<Rightarrow> broker" where
  "client_event conn ex io b =
    (case io of
       (env, CtrlIn m) \<Rightarrow> client_message env conn ex m b
     | (env, DgramIn dg) \<Rightarrow> relay_datagram env conn dg b)"

definition runSession ::
  "broker_env \<Rightarrow> conn \<Rightarrow> u64 \<Rightarrow> conn \<Rightarrow> (broker_env \<times> conn_io) list \<Rightarrow> broker_env \<Rightarrow> close_cause \<Rightarrow>
    broker \<Rightarrow> broker" where
  "runSession env conn sid ex ios env' cause b =
    (case run_start env conn sid ex b of
       (False, b) \<Rightarrow> b
     | (True, b) \<Rightarrow>
         suspendSession env' sid ex (clientClosedIntentionally cause) (fold (client_event conn ex) ios b))"

definition open_session ::
  "broker_env \<Rightarrow> conn \<Rightarrow> control \<Rightarrow> user \<Rightarrow> conn \<Rightarrow> broker \<Rightarrow> u64 option \<times> broker" where
  "open_session env conn msg u ex b =
    (case lease b of
       (Inl _, b) \<Rightarrow> (None, cw_write env conn (error_msg ''exit address pool exhausted'') b)
     | (Inr (sid, a), b) \<Rightarrow>
         (Some sid, count_session env sid ex (insert_session env conn msg u ex sid a b)))"

definition handleClient ::
  "broker_env \<Rightarrow> conn \<Rightarrow> control \<Rightarrow> (broker_env \<times> conn_io) list \<Rightarrow> broker_env \<Rightarrow> close_cause \<Rightarrow>
    broker \<Rightarrow> broker" where
  "handleClient env conn msg ios env' cause b =
    (case client_begin env conn msg b of
       (Answered m, b) \<Rightarrow> cw_write env conn m b
     | (Resumed sid ex, b) \<Rightarrow> runSession env conn sid ex ios env' cause (active_add ex 1 b)
     | (Selected u ex, b) \<Rightarrow>
         (case open_session env conn msg u ex b of
            (None, b) \<Rightarrow> b
          | (Some sid, b) \<Rightarrow> runSession env conn sid ex ios env' cause b))"

text \<open>The first message decides what a connection is.\<close>

definition handleConn ::
  "broker_env \<Rightarrow> conn \<Rightarrow> control \<Rightarrow> (broker_env \<times> conn_io) list \<Rightarrow> broker_env \<Rightarrow> close_cause \<Rightarrow>
    broker \<Rightarrow> broker" where
  "handleConn env conn msg ios env' cause b =
    (case c_Type msg of
       MsgRegister \<Rightarrow> handleExit env conn msg ios env' b
     | MsgConnect \<Rightarrow> handleClient env conn msg ios env' cause b
     | _ \<Rightarrow> cw_write env conn (error_msg ''unexpected first message'') b)"

section \<open>Start-up\<close>

text \<open>
  The part of \<open>main\<close> that builds the broker from its flags. \<open>None\<close> stands for \<open>log.Fatalf\<close>. The users
  store and the history store are opened by their own constructors; the JWKS file flag is \<open>None\<close> when
  it is empty and \<open>Some None\<close> when the file cannot be read.
\<close>

record broker_flags =
  fl_nodeToken :: string
  fl_lb :: string
  fl_resumeTTL :: duration
  fl_seedUser :: string
  fl_seedOIDCUser :: string
  fl_history :: "async_store option"
  fl_turnSecret :: string
  fl_turnURL :: string
  fl_stunURL :: string
  fl_oidcIssuer :: string
  fl_oidcAudience :: string
  fl_oidcJWKSURL :: string
  fl_oidcJWKSFile :: "bytes option option"

definition st_Create ::
  "broker_env \<Rightarrow> string \<Rightarrow> user_create \<Rightarrow> user_store \<Rightarrow> (user_error + user) \<times> user_store" where
  "st_Create env newID inp st =
    (case st of
       TableStore t \<Rightarrow> map_prod id TableStore (us_Create (be_hmac env) (be_db_ok env) (be_now env) newID inp t)
     | SqlStore s \<Rightarrow> map_prod id SqlStore (sq_Create (be_hmac env) (be_db_ok env) (be_now env) newID inp s))"

definition seed_create :: "broker_env \<Rightarrow> string \<Rightarrow> user_create \<Rightarrow> user_store \<Rightarrow> user_store option" where
  "seed_create env newID inp st =
    (case st_Create env newID inp st of
       (Inl e, st) \<Rightarrow> if e = ErrConflict then Some st else None
     | (Inr _, st) \<Rightarrow> Some st)"

definition seed_user :: "broker_env \<Rightarrow> string \<Rightarrow> string \<Rightarrow> user_store \<Rightarrow> user_store option" where
  "seed_user env newID spec st =
    (case cut_at (CHR '':'') spec of
       None \<Rightarrow> Some st
     | Some (tok, regions) \<Rightarrow>
         seed_create env newID \<lparr>uc_Username = ''seed'', uc_Credential = tok,
           uc_AllowedRegions = split_at_char (CHR '','') regions, uc_Status = UserEnabled\<rparr> st)"

definition seed_oidc_user :: "broker_env \<Rightarrow> string \<Rightarrow> string \<Rightarrow> user_store \<Rightarrow> user_store option" where
  "seed_oidc_user env newID spec st =
    (case cut_at (CHR '':'') spec of
       None \<Rightarrow> Some st
     | Some (uname, regions) \<Rightarrow>
         seed_create env newID \<lparr>uc_Username = uname, uc_Credential = '''',
           uc_AllowedRegions = split_at_char (CHR '','') regions, uc_Status = UserEnabled\<rparr> st)"

definition oidc_setup :: "broker_env \<Rightarrow> broker_flags \<Rightarrow> verifier option option" where
  "oidc_setup env fl =
    (if fl_oidcIssuer fl = '''' \<or> fl_oidcAudience fl = '''' then Some None
     else if fl_oidcJWKSURL fl \<noteq> '''' then
       Some (Some (NewURLVerifier (fl_oidcIssuer fl) (fl_oidcAudience fl) (fl_oidcJWKSURL fl)))
     else (case fl_oidcJWKSFile fl of
             Some (Some json) \<Rightarrow>
               (case NewStaticVerifier (be_oidc env) (fl_oidcIssuer fl) (fl_oidcAudience fl) json of
                  Inl _ \<Rightarrow> None
                | Inr v \<Rightarrow> Some (Some v))
           | _ \<Rightarrow> None))"

definition with_history :: "async_store option \<Rightarrow> tracker \<Rightarrow> tracker" where
  "with_history h t = (case h of None \<Rightarrow> t | Some hs \<Rightarrow> Preload DefaultHistory (WithStore hs t))"

definition boot ::
  "(string \<Rightarrow> parse_error + addr) \<Rightarrow> broker_env \<Rightarrow> string \<Rightarrow> string \<Rightarrow> broker_flags \<Rightarrow> user_store \<Rightarrow>
    broker option" where
  "boot parse6 env id1 id2 fl users =
    (case seed_user env id1 (fl_seedUser fl) users of
       None \<Rightarrow> None
     | Some users \<Rightarrow>
         (case seed_oidc_user env id2 (fl_seedOIDCUser fl) users of
            None \<Rightarrow> None
          | Some users \<Rightarrow>
              (case newBroker parse6 users NewBus (fl_nodeToken fl) of
                 None \<Rightarrow> None
               | Some b \<Rightarrow>
                   (case oidc_setup env fl of
                      None \<Rightarrow> None
                    | Some v \<Rightarrow> Some
                        (b\<lparr>b_lbStrategy := lb_Parse (fl_lb fl), b_resumeTTL := fl_resumeTTL fl,
                           b_qos := with_history (fl_history fl) (b_qos b),
                           b_turnSecret := fl_turnSecret fl, b_turnURL := fl_turnURL fl,
                           b_stunURL := fl_stunURL fl, b_oidcVerifier := v\<rparr>)))))"

text \<open>The broker's pool, whatever the IPv6 parser.\<close>

definition vpn_pool :: pool where
  "vpn_pool = \<lparr>p_prefix = \<lparr>pfx_addr = Addr4 0x0A630000, pfx_bits = 24\<rparr>,
     p_reserved = {Addr4 0x0A630001}, p_used = {}, p_next = Addr4 0x0A630001\<rparr>"

lemma mustPool_vpn: "mustPool parse6 ''10.99.0.0/24'' ''10.99.0.1'' = Some vpn_pool"
  by code_simp

end
