(* ===== verification/Leases.thy ===== *)
theory Leases
  imports IpPool "HOL-Library.Multiset"
begin

text \<open>
  The abstract specification of the broker's session leases, and the generic lemmas its refinement
  needs: Go maps as multisets of entries, counting over a map, and a simulation between transition
  systems.

  A lease is a session id with the VPN address it holds. The specification says only how leases
  come and go: ids are given out in increasing order, an address is given only when it is free, and
  an address is freed only by the session that holds it. A session may also be \<^emph>\<open>lost\<close>: it disappears
  while its address stays taken.
\<close>

section \<open>Multisets without repetition\<close>

definition mdistinct :: "'a multiset \<Rightarrow> bool" where
  "mdistinct M \<longleftrightarrow> (\<forall>x. count M x \<le> 1)"

lemma mdistinct_empty [simp]: "mdistinct {#}"
  by (simp add: mdistinct_def)

lemma mdistinct_add [simp]: "mdistinct (add_mset x M) \<longleftrightarrow> x \<notin># M \<and> mdistinct M"
  by (auto simp: mdistinct_def not_in_iff le_Suc_eq)

lemma mdistinct_sub: "mdistinct N \<Longrightarrow> M \<subseteq># N \<Longrightarrow> mdistinct M"
  by (meson mdistinct_def mset_subset_eq_count order_trans)

lemma mdistinct_size: "mdistinct M \<Longrightarrow> size M = card (set_mset M)"
  by (induction M) (auto simp: card_insert_if)

lemma mdistinct_mset: "mdistinct (mset xs) \<longleftrightarrow> distinct xs"
  by (induction xs) auto

lemma mdistinct_image_inj:
  assumes "mdistinct (image_mset f M)" and "x \<in># M" and "y \<in># M" and "f x = f y"
  shows "x = y"
proof (rule ccontr)
  assume "x \<noteq> y"
  with assms(2,3) obtain N where "M = add_mset x (add_mset y N)"
    by (metis insert_DiffM insert_noteq_member)
  with assms(1,4) show False by simp
qed

section \<open>Go maps as multisets, and counting over them\<close>

definition mvals :: "('k, 'v) gomap \<Rightarrow> 'v multiset" where
  "mvals m = mset (map snd m)"

lemma mvals_empty [simp]: "mvals [] = {#}"
  by (simp add: mvals_def)

lemma mvals_del:
  "mwf m \<Longrightarrow> mget m k = Some v \<Longrightarrow> mvals m = add_mset v (mvals (mdel m k))"
proof (induction m)
  case (Cons e m)
  obtain k' w where e: "e = (k', w)" by (cases e)
  show ?case
  proof (cases "k' = k")
    case True
    with Cons.prems e have "mget m k = None"
      by (simp add: mwf_def mget_None_iff mkeys_def)
    then have "mdel m k = m" by (rule mdel_notin)
    with Cons.prems e True show ?thesis
      by (simp add: mvals_def mget_Cons mdel_filter)
  next
    case False
    with Cons e show ?thesis
      by (simp add: mvals_def mget_Cons mdel_filter mwf_def)
  qed
qed simp

lemma mdel_put: "mdel (mput m k v) k = mdel m k"
  by (induction m) (auto simp: mdel_def mput_def)

lemma mvals_put: "mwf m \<Longrightarrow> mvals (mput m k v) = add_mset v (mvals (mdel m k))"
  using mvals_del [of "mput m k v" k v] by (simp add: mdel_put)

lemma mvals_put_fresh: "mwf m \<Longrightarrow> mget m k = None \<Longrightarrow> mvals (mput m k v) = add_mset v (mvals m)"
  by (simp add: mvals_put mdel_notin)

lemma in_mvals: "mwf m \<Longrightarrow> v \<in># mvals m \<longleftrightarrow> (\<exists>k. mget m k = Some v)"
  by (force simp: mvals_def mget_iff_in)

lemma mget_in_mvals: "mget m k = Some v \<Longrightarrow> v \<in># mvals m"
  by (force simp: mvals_def dest: mget_Some_in)

lemma size_filter_mvals: "size (filter_mset P (mvals m)) = length (filter (\<lambda>(k, v). P v) m)"
  by (induction m) (auto simp: mvals_def)

section \<open>Simulation\<close>

text \<open>
  A concrete system simulates an abstract one through \<open>abs\<close> when, in the states of an invariant, each
  concrete step is one abstract step or leaves the abstract state alone.
\<close>

locale simulation = inductive_invariant cstart ctrans holds
  for cstart :: "'c \<Rightarrow> bool" and ctrans :: "'c \<Rightarrow> 'c \<Rightarrow> bool" and holds :: "'c \<Rightarrow> bool" +
  fixes astart :: "'a \<Rightarrow> bool" and atrans :: "'a \<Rightarrow> 'a \<Rightarrow> bool" and abs_of :: "'c \<Rightarrow> 'a"
  assumes abs_start: "cstart s \<Longrightarrow> astart (abs_of s)"
    and abs_step: "ctrans s t \<Longrightarrow> holds s \<Longrightarrow> abs_of t = abs_of s \<or> atrans (abs_of s) (abs_of t)"
begin

lemma reach_abs: "reach cstart ctrans s \<Longrightarrow> reach astart atrans (abs_of s)"
proof (induction rule: reach.induct)
  case (reach_start s)
  then show ?case by (intro reach.reach_start abs_start)
next
  case (reach_step s t)
  from abs_step [OF reach_step.hyps(2)] reach_holds [OF reach_step.hyps(1)]
  have "abs_of t = abs_of s \<or> atrans (abs_of s) (abs_of t)" .
  with reach_step.IH show ?case by (metis reach.reach_step)
qed

end

section \<open>The specification\<close>

record leases =
  ls_held :: "(nat \<times> addr) multiset"
  ls_used :: "addr set"
  ls_last :: nat

definition lease_start :: "leases \<Rightarrow> bool" where
  "lease_start l \<longleftrightarrow> l = \<lparr>ls_held = {#}, ls_used = {}, ls_last = 0\<rparr>"

inductive lease_step :: "addr set \<Rightarrow> leases \<Rightarrow> leases \<Rightarrow> bool" for avail :: "addr set" where
  grant: "ls_last l < i \<Longrightarrow> a \<in> avail \<Longrightarrow> a \<notin> ls_used l \<Longrightarrow>
    lease_step avail l \<lparr>ls_held = add_mset (i, a) (ls_held l), ls_used = insert a (ls_used l), ls_last = i\<rparr>"
| deny: "ls_last l < i \<Longrightarrow> avail \<subseteq> ls_used l \<Longrightarrow> lease_step avail l (l\<lparr>ls_last := i\<rparr>)"
| free: "(i, a) \<in># ls_held l \<Longrightarrow>
    lease_step avail l (l\<lparr>ls_held := ls_held l - {#(i, a)#}, ls_used := ls_used l - {a}\<rparr>)"
| lose: "(i, a) \<in># ls_held l \<Longrightarrow> lease_step avail l (l\<lparr>ls_held := ls_held l - {#(i, a)#}\<rparr>)"

inductive_cases lease_stepE: "lease_step avail l l'"

definition lease_ok :: "addr set \<Rightarrow> leases \<Rightarrow> bool" where
  "lease_ok avail l \<longleftrightarrow>
    mdistinct (image_mset fst (ls_held l)) \<and> mdistinct (image_mset snd (ls_held l)) \<and>
    (\<forall>(i, a) \<in># ls_held l. i \<le> ls_last l \<and> a \<in> ls_used l) \<and> ls_used l \<subseteq> avail"

lemma lease_ok_sub:
  assumes "lease_ok avail l" and "H \<subseteq># ls_held l"
  shows "lease_ok avail (l\<lparr>ls_held := H\<rparr>)"
  using assms(1) set_mset_mono [OF assms(2)]
    image_mset_subseteq_mono [OF assms(2), of fst] image_mset_subseteq_mono [OF assms(2), of snd]
  by (auto simp: lease_ok_def dest: mdistinct_sub)

lemma lease_ok_free:
  assumes ok: "lease_ok avail l" and held: "(i, a) \<in># ls_held l"
  shows "lease_ok avail (l\<lparr>ls_held := ls_held l - {#(i, a)#}, ls_used := ls_used l - {a}\<rparr>)"
proof -
  from held obtain H where H: "ls_held l = add_mset (i, a) H"
    by (metis insert_DiffM)
  from ok have "a \<notin> snd ` set_mset H"
    by (simp add: lease_ok_def H)
  then have "(j, a) \<notin># H" for j
    by force
  with ok show ?thesis
    by (auto simp: lease_ok_def H)
qed

lemma lease_step_ok: "lease_step avail l l' \<Longrightarrow> lease_ok avail l \<Longrightarrow> lease_ok avail l'"
proof (induction rule: lease_step.induct)
  case (grant l i a)
  then have "i \<notin> fst ` set_mset (ls_held l)" and "a \<notin> snd ` set_mset (ls_held l)"
    by (force simp: lease_ok_def)+
  with grant show ?case
    by (auto simp: lease_ok_def)
next
  case (deny l i)
  then show ?case by (auto simp: lease_ok_def)
next
  case (free i a l)
  then show ?case by (intro lease_ok_free)
next
  case (lose i a l)
  then show ?case by (intro lease_ok_sub) auto
qed

interpretation lease_inv: inductive_invariant lease_start "lease_step avail" "lease_ok avail" for avail
  by unfold_locales (simp add: lease_start_def lease_ok_def, rule lease_step_ok)

text \<open>No more leases than addresses; and an address with no holder is never given or freed again.\<close>

lemma lease_bound:
  assumes "lease_ok avail l" and "finite avail"
  shows "size (ls_held l) \<le> card avail"
proof -
  have "snd ` set_mset (ls_held l) \<subseteq> avail"
    using assms(1) by (force simp: lease_ok_def)
  moreover have "size (ls_held l) = card (snd ` set_mset (ls_held l))"
    using assms(1) mdistinct_size [of "image_mset snd (ls_held l)"] by (simp add: lease_ok_def)
  ultimately show ?thesis using assms(2) by (simp add: card_mono)
qed

definition orphaned :: "addr \<Rightarrow> leases \<Rightarrow> bool" where
  "orphaned a l \<longleftrightarrow> a \<in> ls_used l \<and> a \<notin> snd ` set_mset (ls_held l)"

lemma orphaned_step: "lease_step avail l l' \<Longrightarrow> orphaned a l \<Longrightarrow> orphaned a l'"
  by (induction rule: lease_step.induct) (force simp: orphaned_def dest: in_diffD)+

end
