(* ===== verification/BrokerSys.thy ===== *)
theory BrokerSys
  imports Broker Leases
begin

text \<open>
  The broker under concurrency. Each connection's handler runs in a goroutine of its own; the step
  relation interleaves them at the points where \<^verbatim>\<open>cmd/revquic-broker/main.go\<close> gives up the lock: a new
  client session passes through choosing an exit, leasing an id and an address, being inserted,
  being counted, being announced, and being served, and the other handlers may run between any two
  of these. The expiry callback of a parked session may run at any time, also when its timer has
  been stopped too late.

  The invariant relates the maps, the goroutines and the counters, and the whole refines the
  specification of \<open>Leases\<close>.
\<close>

section \<open>Goroutines\<close>

datatype client_pc =
  Choosing control user conn
| Leased control user conn u64 addr
| Counting u64 conn bool
| Starting u64 conn
| Serving u64 conn

record sys =
  sy_b :: broker
  sy_clients :: "(conn, client_pc) gomap"
  sy_exits :: "conn list"
  sy_seen :: "conn list"

definition sys_start :: "broker \<Rightarrow> sys \<Rightarrow> bool" where
  "sys_start b s \<longleftrightarrow> s = \<lparr>sy_b = b, sy_clients = [], sy_exits = [], sy_seen = []\<rparr>"

text \<open>
  A connection is accepted once. The two steps that draw a session id exclude the wrap of the 64-bit
  counter, after 18 quintillion sessions.
\<close>

inductive sys_step :: "sys \<Rightarrow> sys \<Rightarrow> bool" where
  register: "c \<notin> set (sy_seen s) \<Longrightarrow> c_Token msg = b_nodeSecret (sy_b s) \<Longrightarrow>
    sys_step s (s\<lparr>sy_b := register_exit env c msg (sy_b s), sy_exits := c # sy_exits s, sy_seen := c # sy_seen s\<rparr>)"
| refuse: "c \<notin> set (sy_seen s) \<Longrightarrow>
    sys_step s (s\<lparr>sy_b := cw_write env c (error_msg e) (sy_b s), sy_seen := c # sy_seen s\<rparr>)"
| exit_in: "c \<in> set (sy_exits s) \<Longrightarrow> sys_step s (s\<lparr>sy_b := exit_event c io (sy_b s)\<rparr>)"
| exit_out: "c \<in> set (sy_exits s) \<Longrightarrow>
    sys_step s (s\<lparr>sy_b := exit_gone env c (sy_b s), sy_exits := removeAll c (sy_exits s)\<rparr>)"
| relay: "c \<in> set (sy_seen s) \<Longrightarrow> sys_step s (s\<lparr>sy_b := relay_datagram env c dg (sy_b s)\<rparr>)"
| answer: "c \<notin> set (sy_seen s) \<Longrightarrow> client_begin env c msg (sy_b s) = (Answered m, b) \<Longrightarrow>
    sys_step s (s\<lparr>sy_b := cw_write env c m b, sy_seen := c # sy_seen s\<rparr>)"
| resume: "c \<notin> set (sy_seen s) \<Longrightarrow> client_begin env c msg (sy_b s) = (Resumed sid ex, b) \<Longrightarrow>
    sys_step s (s\<lparr>sy_b := b, sy_clients := mput (sy_clients s) c (Counting sid ex True), sy_seen := c # sy_seen s\<rparr>)"
| choose: "c \<notin> set (sy_seen s) \<Longrightarrow> client_begin env c msg (sy_b s) = (Selected u ex, b) \<Longrightarrow>
    sys_step s (s\<lparr>sy_b := b, sy_clients := mput (sy_clients s) c (Choosing msg u ex), sy_seen := c # sy_seen s\<rparr>)"
| exhaust: "mget (sy_clients s) c = Some (Choosing msg u ex) \<Longrightarrow> b_nextSession (sy_b s) + 1 \<noteq> 0 \<Longrightarrow>
    lease (sy_b s) = (Inl e, b) \<Longrightarrow>
    sys_step s (s\<lparr>sy_b := cw_write env c (error_msg ''exit address pool exhausted'') b,
                  sy_clients := mdel (sy_clients s) c\<rparr>)"
| take_lease: "mget (sy_clients s) c = Some (Choosing msg u ex) \<Longrightarrow> b_nextSession (sy_b s) + 1 \<noteq> 0 \<Longrightarrow>
    lease (sy_b s) = (Inr (sid, a), b) \<Longrightarrow>
    sys_step s (s\<lparr>sy_b := b, sy_clients := mput (sy_clients s) c (Leased msg u ex sid a)\<rparr>)"
| add_session: "mget (sy_clients s) c = Some (Leased msg u ex sid a) \<Longrightarrow>
    sys_step s (s\<lparr>sy_b := insert_session env c msg u ex sid a (sy_b s),
                  sy_clients := mput (sy_clients s) c (Counting sid ex False)\<rparr>)"
| count_resumed: "mget (sy_clients s) c = Some (Counting sid ex True) \<Longrightarrow>
    sys_step s (s\<lparr>sy_b := active_add ex 1 (sy_b s), sy_clients := mput (sy_clients s) c (Starting sid ex)\<rparr>)"
| count_new: "mget (sy_clients s) c = Some (Counting sid ex False) \<Longrightarrow>
    sys_step s (s\<lparr>sy_b := count_session env sid ex (sy_b s), sy_clients := mput (sy_clients s) c (Starting sid ex)\<rparr>)"
| start_ok: "mget (sy_clients s) c = Some (Starting sid ex) \<Longrightarrow> run_start env c sid ex (sy_b s) = (True, b) \<Longrightarrow>
    sys_step s (s\<lparr>sy_b := b, sy_clients := mput (sy_clients s) c (Serving sid ex)\<rparr>)"
| start_fail: "mget (sy_clients s) c = Some (Starting sid ex) \<Longrightarrow> run_start env c sid ex (sy_b s) = (False, b) \<Longrightarrow>
    sys_step s (s\<lparr>sy_b := b, sy_clients := mdel (sy_clients s) c\<rparr>)"
| serve: "mget (sy_clients s) c = Some (Serving sid ex) \<Longrightarrow>
    sys_step s (s\<lparr>sy_b := client_event c ex io (sy_b s)\<rparr>)"
| drop: "mget (sy_clients s) c = Some (Serving sid ex) \<Longrightarrow>
    sys_step s (s\<lparr>sy_b := suspendSession env sid ex (clientClosedIntentionally cause) (sy_b s),
                  sy_clients := mdel (sy_clients s) c\<rparr>)"
| expire: "sys_step s (s\<lparr>sy_b := expirePark env key sid (sy_b s)\<rparr>)"
| admin: "sys_step s (s\<lparr>sy_b := (sy_b s)\<lparr>b_users := st\<rparr>\<rparr>)"

section \<open>What the invariant reads of a broker\<close>

definition okey :: "exit_node \<Rightarrow> string \<times> conn \<times> int" where
  "okey e = (en_nodeID e, en_conn e, en_active e)"

definition obj :: "broker \<Rightarrow> conn \<Rightarrow> (string \<times> conn \<times> int) option" where
  "obj b c = map_option okey (mget (b_objs b) c)"

definition core ::
  "broker \<Rightarrow> (conn \<Rightarrow> (string \<times> conn \<times> int) option) \<times> (string, conn) gomap \<times> (u64, client_session) gomap \<times>
    (string, client_session) gomap \<times> pool \<times> u64 \<times> duration" where
  "core b = (obj b, b_exits b, b_sessions b, b_parked b, b_ipPool b, b_nextSession b, b_resumeTTL b)"

lemma core_eqD:
  assumes "core b' = core b"
  shows "obj b' = obj b" "b_exits b' = b_exits b" "b_sessions b' = b_sessions b"
    "b_parked b' = b_parked b" "b_ipPool b' = b_ipPool b" "b_nextSession b' = b_nextSession b"
    "b_resumeTTL b' = b_resumeTTL b"
  using assms by (simp_all add: core_def)

named_theorems frame \<open>operations that leave the core of the broker alone\<close>

lemma cw_write_core [simp, frame]: "core (cw_write env c m b) = core b"
  by (simp add: core_def obj_def cw_write_def fun_eq_iff)

lemma effect_core [simp, frame]: "core (effect e b) = core b"
  by (simp add: core_def obj_def effect_def fun_eq_iff)

lemma publish_core [simp, frame]: "core (publish ev b) = core b"
  by (simp add: core_def obj_def publish_def fun_eq_iff)

lemma track_core [simp, frame]: "core (track f b) = core b"
  by (simp add: core_def obj_def track_def fun_eq_iff)

lemma users_core [simp, frame]: "core (b\<lparr>b_users := st\<rparr>) = core b"
  by (simp add: core_def obj_def fun_eq_iff)

lemma oidc_core [simp, frame]: "core (b\<lparr>b_oidcVerifier := v\<rparr>) = core b"
  by (simp add: core_def obj_def fun_eq_iff)

lemma rr_core [simp, frame]: "core (b\<lparr>b_rr := r\<rparr>) = core b"
  by (simp add: core_def obj_def fun_eq_iff)

lemmas cw_write_fields [simp] = cw_write_core [THEN core_eqD(1)] cw_write_core [THEN core_eqD(2)]
  cw_write_core [THEN core_eqD(3)] cw_write_core [THEN core_eqD(4)] cw_write_core [THEN core_eqD(5)]
  cw_write_core [THEN core_eqD(6)] cw_write_core [THEN core_eqD(7)]

lemmas publish_fields [simp] = publish_core [THEN core_eqD(1)] publish_core [THEN core_eqD(2)]
  publish_core [THEN core_eqD(3)] publish_core [THEN core_eqD(4)] publish_core [THEN core_eqD(5)]
  publish_core [THEN core_eqD(6)] publish_core [THEN core_eqD(7)]

lemmas track_fields [simp] = track_core [THEN core_eqD(1)] track_core [THEN core_eqD(2)]
  track_core [THEN core_eqD(3)] track_core [THEN core_eqD(4)] track_core [THEN core_eqD(5)]
  track_core [THEN core_eqD(6)] track_core [THEN core_eqD(7)]

lemma failExit_core [simp, frame]: "core (failExit env ex b) = core b"
proof -
  have "core (fold (fail_session env ex) ss b') = core b'" for ss b'
    by (induction ss arbitrary: b') (simp_all add: fail_session_def)
  then show ?thesis by (simp add: failExit_def)
qed

lemma ingestReport_core [simp, frame]: "core (ingestReport env m b) = core b"
  by (simp add: ingestReport_def)

lemma setSysStat_core [simp, frame]: "core (upd_exit c (setSysStat x y z) b) = core b"
  by (auto simp: upd_exit_def core_def obj_def fun_eq_iff setSysStat_def okey_def split: option.split)

lemma relay_datagram_core [simp, frame]: "core (relay_datagram env c dg b) = core b"
  by (simp add: relay_datagram_def Let_def split: sum.split option.split prod.split)

lemma exit_message_core [simp, frame]: "core (exit_message env c m b) = core b"
  by (simp add: exit_message_def Let_def split: msg_type.split option.split)

lemma client_message_core [simp, frame]: "core (client_message env c ex m b) = core b"
  by (simp add: client_message_def split: msg_type.split)

lemma exit_event_core [simp, frame]: "core (exit_event c io b) = core b"
  by (simp add: exit_event_def split: prod.split conn_io.split)

lemma client_event_core [simp, frame]: "core (client_event c ex io b) = core b"
  by (simp add: client_event_def split: prod.split conn_io.split)

lemma client_auth_core: "client_auth env msg b = (r, b') \<Longrightarrow> core b' = core b"
  by (auto simp: client_auth_def Let_def split: option.splits prod.splits sum.splits)

lemma select_exit_core: "select_exit env msg b = (r, b') \<Longrightarrow> core b' = core b"
  by (auto simp: select_exit_def Let_def split: option.splits prod.splits if_splits)

section \<open>What each step does to the core\<close>

lemma tryResume_Some:
  assumes "tryResume env key name c b = (Some (sid, ex), b')"
  obtains ps where "mget (b_parked b) key = Some ps" "s_id ps = sid" "s_username ps = name"
    "be_now env - s_parkedAt ps < b_resumeTTL b" "mget (b_exits b) (s_nodeID ps) = Some ex"
    "b' = b\<lparr>b_parked := mdel (b_parked b) key, b_sessions := mput (b_sessions b) sid
        (ps\<lparr>s_suspendTimer := None, s_suspended := False, s_clientConn := c, s_exitConn := ex\<rparr>)\<rparr>"
  using assms by (auto simp: tryResume_def split: option.splits if_splits)

lemma tryResume_None: "tryResume env key name c b = (None, b') \<Longrightarrow> b' = b"
  by (auto simp: tryResume_def split: option.splits if_splits)

lemma client_begin_Answered: "client_begin env c msg b = (Answered m, b') \<Longrightarrow> core b' = core b"
  by (auto simp: client_begin_def split: prod.splits sum.splits if_splits option.splits
      dest!: client_auth_core select_exit_core tryResume_None)

lemma client_begin_Resumed:
  assumes "client_begin env c msg b = (Resumed sid ex, b')"
  obtains u b1 where "client_auth env msg b = (Inr u, b1)" "core b1 = core b" "c_ResumeKey msg \<noteq> ''''"
    "tryResume env (c_ResumeKey msg) (u_Username u) c b1 = (Some (sid, ex), b')"
proof -
  from assms obtain u b1 where u: "client_auth env msg b = (Inr u, b1)" "c_ResumeKey msg \<noteq> ''''"
    "tryResume env (c_ResumeKey msg) (u_Username u) c b1 = (Some (sid, ex), b')"
    by (auto simp: client_begin_def split: prod.splits sum.splits if_splits option.splits)
  with client_auth_core that show thesis by blast
qed

text \<open>The exit a selection returns is a registered object with room in the region.\<close>

lemma live_exits_iff:
  "e \<in> set (live_exits b) \<longleftrightarrow> (\<exists>k c. (k, c) \<in> set (b_exits b) \<and> mget (b_objs b) c = Some e)"
  by (force simp: live_exits_def List.map_filter_def)

lemma select_exit_Inr:
  assumes "select_exit env msg b = (Inr ex, b')"
  shows "\<exists>k. mget (b_exits b) k = Some ex"
  using assms by (auto simp: select_exit_def Let_def split: option.splits prod.splits if_splits)

lemma client_begin_Selected:
  assumes "client_begin env c msg b = (Selected u ex, b')"
  obtains b1 where "client_auth env msg b = (Inr u, b1)" "core b1 = core b" "core b' = core b"
    "select_exit env msg b1 = (Inr ex, b')"
proof -
  from assms obtain b1 where u: "client_auth env msg b = (Inr u, b1)" "select_exit env msg b1 = (Inr ex, b')"
    by (auto simp: client_begin_def split: prod.splits sum.splits if_splits option.splits
        dest!: tryResume_None)
  with client_auth_core [OF u(1)] select_exit_core [OF u(2)] that show thesis by metis
qed

lemma lease_Inr:
  "lease b = (Inr (sid, a), b') \<longleftrightarrow>
    (\<exists>p. Allocate (b_ipPool b) = (Inr a, p) \<and> sid = b_nextSession b + 1 \<and>
         b' = b\<lparr>b_nextSession := sid, b_ipPool := p\<rparr>)"
  by (auto simp: lease_def Let_def split: prod.splits sum.splits)

lemma lease_Inl:
  "lease b = (Inl e, b') \<longleftrightarrow>
    (\<exists>p. Allocate (b_ipPool b) = (Inl e, p) \<and> b' = b\<lparr>b_nextSession := b_nextSession b + 1, b_ipPool := p\<rparr>)"
  by (auto simp: lease_def Let_def split: prod.splits sum.splits)

definition bump :: "int \<Rightarrow> string \<times> conn \<times> int \<Rightarrow> string \<times> conn \<times> int" where
  "bump d = (\<lambda>(n, c, k). (n, c, k + d))"

lemma active_add_core:
  "core (active_add ex d b) =
    ((obj b)(ex := map_option (bump d) (obj b ex)), b_exits b, b_sessions b, b_parked b, b_ipPool b,
     b_nextSession b, b_resumeTTL b)"
  by (auto simp: active_add_def upd_exit_def core_def obj_def okey_def bump_def fun_eq_iff split: option.split)

lemma active_add_fields [simp]:
  "b_exits (active_add ex d b) = b_exits b" "b_sessions (active_add ex d b) = b_sessions b"
  "b_parked (active_add ex d b) = b_parked b" "b_ipPool (active_add ex d b) = b_ipPool b"
  "b_nextSession (active_add ex d b) = b_nextSession b" "b_resumeTTL (active_add ex d b) = b_resumeTTL b"
  "obj (active_add ex d b) = (obj b)(ex := map_option (bump d) (obj b ex))"
  using active_add_core [of ex d b] by (simp_all add: core_def)

lemma obj_upd [simp]:
  "obj (b\<lparr>b_sessions := x\<rparr>) = obj b" "obj (b\<lparr>b_parked := y\<rparr>) = obj b" "obj (b\<lparr>b_ipPool := p\<rparr>) = obj b"
  "obj (b\<lparr>b_exits := z\<rparr>) = obj b" "obj (b\<lparr>b_nextSession := n\<rparr>) = obj b"
  by (simp_all add: obj_def fun_eq_iff)

lemma count_session_core: "core (count_session env sid ex b) = core (active_add ex 1 b)"
  by (simp add: count_session_def Let_def split: option.split)

lemma run_start_True: "run_start env c sid ex b = (True, b') \<Longrightarrow> core b' = core b"
  by (auto simp: run_start_def Let_def split: option.splits if_splits)

lemma run_start_False:
  assumes "run_start env c sid ex b = (False, b')" and "mget (b_sessions b) sid = Some x"
  shows "core b' = core (active_add ex (-1) (b\<lparr>b_sessions := mdel (b_sessions b) sid,
           b_ipPool := Release (s_clientAddr x) (b_ipPool b)\<rparr>))"
  using assms by (auto simp: run_start_def Let_def endSession_def core_def split: option.splits if_splits)

text \<open>Parking and ending, seen on the core.\<close>

definition parks :: "bool \<Rightarrow> client_session \<Rightarrow> broker \<Rightarrow> bool" where
  "parks intentional x b \<longleftrightarrow> \<not> intentional \<and> s_resumeKey x \<noteq> '''' \<and> b_resumeTTL b > 0"

definition parked_form :: "broker_env \<Rightarrow> broker \<Rightarrow> client_session \<Rightarrow> client_session" where
  "parked_form env b x = x\<lparr>s_suspended := True, s_parkedAt := be_now env,
     s_suspendTimer := Some (be_now env + b_resumeTTL b)\<rparr>"

lemma suspendSession_park:
  assumes "mget (b_sessions b) sid = Some x" and "parks intentional x b"
  shows "core (suspendSession env sid ex intentional b) =
    core (active_add ex (-1) (b\<lparr>b_sessions := mdel (b_sessions b) sid,
      b_parked := mput (b_parked b) (s_resumeKey x) (parked_form env b x)\<rparr>))"
  using assms by (simp add: suspendSession_def parks_def parked_form_def Let_def core_def)

lemma suspendSession_end:
  assumes "mget (b_sessions b) sid = Some x" and "\<not> parks intentional x b"
  shows "core (suspendSession env sid ex intentional b) =
    core (active_add ex (-1) (b\<lparr>b_sessions := mdel (b_sessions b) sid,
      b_ipPool := Release (s_clientAddr x) (b_ipPool b)\<rparr>))"
  using assms by (auto simp: suspendSession_def parks_def Let_def core_def)

lemma expirePark_core:
  "core (expirePark env key sid b) =
    (case mget (b_parked b) key of
       Some x \<Rightarrow>
         if s_id x = sid \<and> s_suspended x then
           core (b\<lparr>b_parked := mdel (b_parked b) key, b_ipPool := Release (s_clientAddr x) (b_ipPool b)\<rparr>)
         else core b
     | None \<Rightarrow> core b)"
  by (auto simp: expirePark_def Let_def core_def split: option.split)

lemma register_exit_core:
  "core (register_exit env c msg b) =
    ((obj b)(c \<mapsto> (c_NodeID msg, c, 0)), mput (b_exits b) (c_NodeID msg) c, b_sessions b, b_parked b,
     b_ipPool b, b_nextSession b, b_resumeTTL b)"
  by (auto simp: register_exit_def Let_def core_def obj_def okey_def fun_eq_iff)

lemma exit_gone_core:
  "core (exit_gone env c b) =
    core (case mget (b_objs b) c of None \<Rightarrow> b | Some e \<Rightarrow> b\<lparr>b_exits := mdel (b_exits b) (en_nodeID e)\<rparr>)"
  by (simp add: exit_gone_def Let_def core_def core_eqD [OF failExit_core] split: option.split)

section \<open>The invariant\<close>

fun pc_sess :: "client_pc \<Rightarrow> (u64 \<times> conn) option" where
  "pc_sess (Counting sid ex _) = Some (sid, ex)"
| "pc_sess (Starting sid ex) = Some (sid, ex)"
| "pc_sess (Serving sid ex) = Some (sid, ex)"
| "pc_sess _ = None"

fun pc_exit :: "client_pc \<Rightarrow> conn" where
  "pc_exit (Choosing _ _ ex) = ex"
| "pc_exit (Leased _ _ ex _ _) = ex"
| "pc_exit (Counting _ ex _) = ex"
| "pc_exit (Starting _ ex) = ex"
| "pc_exit (Serving _ ex) = ex"

fun pc_waits :: "conn \<Rightarrow> client_pc \<Rightarrow> bool" where
  "pc_waits c (Counting _ ex _) = (ex = c)"
| "pc_waits c _ = False"

fun pc_lease :: "client_pc \<Rightarrow> (nat \<times> addr) multiset" where
  "pc_lease (Leased _ _ _ sid a) = {#(unat sid, a)#}"
| "pc_lease _ = {#}"

definition sess_lease :: "client_session \<Rightarrow> nat \<times> addr" where
  "sess_lease x = (unat (s_id x), s_clientAddr x)"

text \<open>The leases of a state: of live sessions, of parked ones, and of sessions being opened.\<close>

definition held :: "sys \<Rightarrow> (nat \<times> addr) multiset" where
  "held s = image_mset sess_lease (mvals (b_sessions (sy_b s))) +
     image_mset sess_lease (mvals (b_parked (sy_b s))) + \<Sum>\<^sub># (image_mset pc_lease (mvals (sy_clients s)))"

definition lease_abs :: "sys \<Rightarrow> leases" where
  "lease_abs s = \<lparr>ls_held = held s, ls_used = p_used (b_ipPool (sy_b s)),
     ls_last = unat (b_nextSession (sy_b s))\<rparr>"

definition n_on :: "conn \<Rightarrow> (u64, client_session) gomap \<Rightarrow> nat" where
  "n_on c m = size (filter_mset (\<lambda>x. s_exitConn x = c) (mvals m))"

definition waiting :: "conn \<Rightarrow> (conn, client_pc) gomap \<Rightarrow> nat" where
  "waiting c m = size (filter_mset (pc_waits c) (mvals m))"

definition maps_ok :: "sys \<Rightarrow> bool" where
  "maps_ok s \<longleftrightarrow> mwf (b_sessions (sy_b s)) \<and> mwf (b_parked (sy_b s)) \<and> mwf (sy_clients s) \<and>
     mwf (b_exits (sy_b s))"

definition sess_ok :: "sys \<Rightarrow> bool" where
  "sess_ok s \<longleftrightarrow> (\<forall>sid x. mget (b_sessions (sy_b s)) sid = Some x \<longrightarrow>
     s_id x = sid \<and> \<not> s_suspended x \<and>
     (\<exists>n. obj (sy_b s) (s_exitConn x) = Some (s_nodeID x, s_exitConn x, n)) \<and>
     (\<exists>pc. mget (sy_clients s) (s_clientConn x) = Some pc \<and> pc_sess pc = Some (sid, s_exitConn x)))"

definition park_ok :: "sys \<Rightarrow> bool" where
  "park_ok s \<longleftrightarrow> (\<forall>key x. mget (b_parked (sy_b s)) key = Some x \<longrightarrow>
     s_resumeKey x = key \<and> key \<noteq> '''' \<and> s_suspended x \<and>
     s_suspendTimer x = Some (s_parkedAt x + b_resumeTTL (sy_b s)))"

definition cli_ok :: "sys \<Rightarrow> bool" where
  "cli_ok s \<longleftrightarrow> (\<forall>c pc. mget (sy_clients s) c = Some pc \<longrightarrow>
     c \<in> set (sy_seen s) \<and> obj (sy_b s) (pc_exit pc) \<noteq> None \<and>
     (\<forall>sid ex. pc_sess pc = Some (sid, ex) \<longrightarrow>
       (\<exists>x. mget (b_sessions (sy_b s)) sid = Some x \<and> s_clientConn x = c \<and> s_exitConn x = ex)))"

definition obj_ok :: "sys \<Rightarrow> bool" where
  "obj_ok s \<longleftrightarrow> (\<forall>c n d k. obj (sy_b s) c = Some (n, d, k) \<longrightarrow>
     d = c \<and> c \<in> set (sy_seen s) \<and>
     k + int (waiting c (sy_clients s)) = int (n_on c (b_sessions (sy_b s))))"

definition exits_ok :: "sys \<Rightarrow> bool" where
  "exits_ok s \<longleftrightarrow> (\<forall>n c. mget (b_exits (sy_b s)) n = Some c \<longrightarrow> (\<exists>k. obj (sy_b s) c = Some (n, c, k)))"

definition pool_ok :: "addr set \<Rightarrow> sys \<Rightarrow> bool" where
  "pool_ok avail s \<longleftrightarrow> pool4 (b_ipPool (sy_b s)) \<and> {a. usable (b_ipPool (sy_b s)) a} = avail"

definition struct_ok :: "addr set \<Rightarrow> sys \<Rightarrow> bool" where
  "struct_ok avail s \<longleftrightarrow>
    maps_ok s \<and> sess_ok s \<and> park_ok s \<and> cli_ok s \<and> obj_ok s \<and> exits_ok s \<and> pool_ok avail s"

definition sys_ok :: "addr set \<Rightarrow> sys \<Rightarrow> bool" where
  "sys_ok avail s \<longleftrightarrow> struct_ok avail s \<and> lease_ok avail (lease_abs s)"

lemmas struct_defs = struct_ok_def maps_ok_def sess_ok_def park_ok_def cli_ok_def obj_ok_def
  exits_ok_def pool_ok_def

text \<open>The parts of the invariant, as rules.\<close>

lemma struct_okD:
  assumes "struct_ok avail s"
  shows "mwf (b_sessions (sy_b s))" "mwf (b_parked (sy_b s))" "mwf (sy_clients s)"
    "pool4 (b_ipPool (sy_b s))" "{a. usable (b_ipPool (sy_b s)) a} = avail" "mwf (b_exits (sy_b s))"
  using assms by (simp_all add: struct_ok_def maps_ok_def pool_ok_def)

lemma sessD:
  assumes "struct_ok avail s" and "mget (b_sessions (sy_b s)) sid = Some x"
  obtains n pc where "s_id x = sid" "\<not> s_suspended x"
    "obj (sy_b s) (s_exitConn x) = Some (s_nodeID x, s_exitConn x, n)"
    "mget (sy_clients s) (s_clientConn x) = Some pc" "pc_sess pc = Some (sid, s_exitConn x)"
  using assms unfolding struct_ok_def sess_ok_def by blast

lemma parkD:
  assumes "struct_ok avail s" and "mget (b_parked (sy_b s)) key = Some x"
  shows "s_resumeKey x = key" "key \<noteq> ''''" "s_suspended x"
    "s_suspendTimer x = Some (s_parkedAt x + b_resumeTTL (sy_b s))"
  using assms by (auto simp: struct_ok_def park_ok_def)

lemma cliD:
  assumes "struct_ok avail s" and "mget (sy_clients s) c = Some pc"
  shows "c \<in> set (sy_seen s)" "obj (sy_b s) (pc_exit pc) \<noteq> None"
  using assms unfolding struct_ok_def cli_ok_def by blast+

lemma cli_sessD:
  assumes "struct_ok avail s" and "mget (sy_clients s) c = Some pc" and "pc_sess pc = Some (sid, ex)"
  obtains x where "mget (b_sessions (sy_b s)) sid = Some x" "s_clientConn x = c" "s_exitConn x = ex"
  using assms unfolding struct_ok_def cli_ok_def by blast

lemma objD:
  assumes "struct_ok avail s" and "obj (sy_b s) c = Some (n, d, k)"
  shows "d = c" "c \<in> set (sy_seen s)"
    "k + int (waiting c (sy_clients s)) = int (n_on c (b_sessions (sy_b s)))"
  using assms unfolding struct_ok_def obj_ok_def by blast+

lemma exitsD:
  assumes "struct_ok avail s" and "mget (b_exits (sy_b s)) n = Some c"
  obtains k where "obj (sy_b s) c = Some (n, c, k)"
  using assms unfolding struct_ok_def exits_ok_def by blast

lemma cli_sess: "struct_ok avail s \<Longrightarrow> mget (sy_clients s) c = Some pc \<Longrightarrow> pc_sess pc = Some (sid, ex) \<Longrightarrow>
    \<exists>x. mget (b_sessions (sy_b s)) sid = Some x \<and> s_clientConn x = c \<and> s_exitConn x = ex"
  unfolding struct_ok_def cli_ok_def by blast

lemma cli_okI:
  assumes "\<And>c pc. mget (sy_clients s) c = Some pc \<Longrightarrow> c \<in> set (sy_seen s) \<and> obj (sy_b s) (pc_exit pc) \<noteq> None"
    and "\<And>c pc sid ex. mget (sy_clients s) c = Some pc \<Longrightarrow> pc_sess pc = Some (sid, ex) \<Longrightarrow>
      \<exists>x. mget (b_sessions (sy_b s)) sid = Some x \<and> s_clientConn x = c \<and> s_exitConn x = ex"
  shows "cli_ok s"
  unfolding cli_ok_def using assms by blast

text \<open>
  What one step owes: the structural invariant afterwards, and an abstract step or none. Invariant and
  abstraction read the broker through its core only, and not the list of exit handlers.
\<close>

definition refines :: "addr set \<Rightarrow> sys \<Rightarrow> sys \<Rightarrow> bool" where
  "refines avail s t \<longleftrightarrow>
    struct_ok avail t \<and> (lease_abs t = lease_abs s \<or> lease_step avail (lease_abs s) (lease_abs t))"

lemma refines_sys_ok: "sys_ok avail s \<Longrightarrow> refines avail s t \<Longrightarrow> sys_ok avail t"
  unfolding sys_ok_def refines_def by (metis lease_step_ok)

lemma refines_cong:
  assumes "core (sy_b t') = core (sy_b t)" and "sy_clients t' = sy_clients t" and "sy_seen t' = sy_seen t"
    and "refines avail s t"
  shows "refines avail s t'"
proof -
  have "struct_ok avail t' = struct_ok avail t"
    unfolding struct_defs by (simp add: core_eqD [OF assms(1)] assms(2,3))
  moreover have "lease_abs t' = lease_abs t"
    by (simp add: lease_abs_def held_def core_eqD [OF assms(1)] assms(2,3))
  ultimately show ?thesis using assms(4) by (simp add: refines_def)
qed

lemma refines_refl: "sys_ok avail s \<Longrightarrow> refines avail s s"
  by (simp add: refines_def sys_ok_def)

text \<open>A connection more in the list of those seen changes nothing.\<close>

lemma refines_seen:
  assumes "refines avail s t"
  shows "refines avail s (t\<lparr>sy_seen := c # sy_seen t\<rparr>)"
proof -
  have "struct_ok avail (t\<lparr>sy_seen := c # sy_seen t\<rparr>)"
    using assms unfolding refines_def struct_defs by simp
  then show ?thesis using assms by (simp add: refines_def lease_abs_def held_def)
qed

section \<open>Counting over the maps\<close>

lemma n_on_fresh:
  "mwf m \<Longrightarrow> mget m k = None \<Longrightarrow> n_on c (mput m k v) = n_on c m + (if s_exitConn v = c then 1 else 0)"
  by (simp add: n_on_def mvals_put_fresh)

lemma n_on_del:
  "mwf m \<Longrightarrow> mget m k = Some v \<Longrightarrow> n_on c m = n_on c (mdel m k) + (if s_exitConn v = c then 1 else 0)"
  using mvals_del [of m k v] by (simp add: n_on_def)

lemma waiting_fresh:
  "mwf m \<Longrightarrow> mget m k = None \<Longrightarrow> waiting c (mput m k v) = waiting c m + (if pc_waits c v then 1 else 0)"
  by (simp add: waiting_def mvals_put_fresh)

lemma waiting_del:
  "mwf m \<Longrightarrow> mget m k = Some v \<Longrightarrow> waiting c m = waiting c (mdel m k) + (if pc_waits c v then 1 else 0)"
  using mvals_del [of m k v] by (simp add: waiting_def)

lemma waiting_put: "mwf m \<Longrightarrow> waiting c (mput m k v) = waiting c (mdel m k) + (if pc_waits c v then 1 else 0)"
  by (simp add: waiting_def mvals_put)

definition pending :: "(conn, client_pc) gomap \<Rightarrow> (nat \<times> addr) multiset" where
  "pending m = \<Sum>\<^sub># (image_mset pc_lease (mvals m))"

lemma pending_fresh: "mwf m \<Longrightarrow> mget m k = None \<Longrightarrow> pending (mput m k v) = pc_lease v + pending m"
  by (simp add: pending_def mvals_put_fresh)

lemma pending_del: "mwf m \<Longrightarrow> mget m k = Some v \<Longrightarrow> pending m = pc_lease v + pending (mdel m k)"
  using mvals_del [of m k v] by (simp add: pending_def)

lemma pending_put: "mwf m \<Longrightarrow> pending (mput m k v) = pc_lease v + pending (mdel m k)"
  by (simp add: pending_def mvals_put)

lemma held_pending:
  "held s = image_mset sess_lease (mvals (b_sessions (sy_b s))) +
     image_mset sess_lease (mvals (b_parked (sy_b s))) + pending (sy_clients s)"
  by (simp add: held_def pending_def)

lemma waiting_0:
  assumes "struct_ok avail s" and "obj (sy_b s) c = None"
  shows "waiting c (sy_clients s) = 0"
proof -
  have "\<not> pc_waits c pc" if "pc \<in># mvals (sy_clients s)" for pc
  proof -
    from that assms(1) obtain k where "mget (sy_clients s) k = Some pc"
      by (auto simp: in_mvals struct_okD)
    from cliD(2) [OF assms(1) this] assms(2) have "pc_exit pc \<noteq> c" by auto
    then show ?thesis by (cases pc) auto
  qed
  then show ?thesis by (simp add: waiting_def filter_mset_eq_conv)
qed

lemma n_on_0:
  assumes "struct_ok avail s" and "obj (sy_b s) c = None"
  shows "n_on c (b_sessions (sy_b s)) = 0"
proof -
  have "s_exitConn x \<noteq> c" if "x \<in># mvals (b_sessions (sy_b s))" for x
  proof -
    from that assms(1) obtain k where "mget (b_sessions (sy_b s)) k = Some x"
      by (auto simp: in_mvals struct_okD)
    with assms show ?thesis by (auto elim: sessD)
  qed
  then show ?thesis by (simp add: n_on_def filter_mset_eq_conv)
qed

section \<open>Preservation, step by step\<close>

lemma unseen:
  assumes "struct_ok avail s" and "c \<notin> set (sy_seen s)"
  shows "mget (sy_clients s) c = None" and "obj (sy_b s) c = None"
proof -
  show "mget (sy_clients s) c = None"
    using assms(2) cliD(1) [OF assms(1)] by (cases "mget (sy_clients s) c") auto
  show "obj (sy_b s) c = None"
    using assms(2) objD(2) [OF assms(1)] by (cases "obj (sy_b s) c") auto
qed

lemma refines_register:
  assumes ok: "sys_ok avail s" and c: "c \<notin> set (sy_seen s)"
    and core: "core (sy_b t) = ((obj (sy_b s))(c \<mapsto> (n, c, 0)), mput (b_exits (sy_b s)) n c, b_sessions (sy_b s),
      b_parked (sy_b s), b_ipPool (sy_b s), b_nextSession (sy_b s), b_resumeTTL (sy_b s))"
    and t: "sy_clients t = sy_clients s" "sy_seen t = c # sy_seen s"
  shows "refines avail s t"
proof -
  from ok have st: "struct_ok avail s" by (simp add: sys_ok_def)
  note none = unseen [OF st c]
  note zero = waiting_0 [OF st none(2)] n_on_0 [OF st none(2)]
  from core have eqs: "obj (sy_b t) = (obj (sy_b s))(c \<mapsto> (n, c, 0))" "b_exits (sy_b t) = mput (b_exits (sy_b s)) n c"
    "b_sessions (sy_b t) = b_sessions (sy_b s)" "b_parked (sy_b t) = b_parked (sy_b s)"
    "b_ipPool (sy_b t) = b_ipPool (sy_b s)" "b_nextSession (sy_b t) = b_nextSession (sy_b s)"
    "b_resumeTTL (sy_b t) = b_resumeTTL (sy_b s)"
    by (simp_all add: core_def)
  have "sess_ok t"
    unfolding sess_ok_def eqs t using none by (auto elim!: sessD [OF st])
  moreover have "cli_ok t"
    using cliD [OF st] cli_sess [OF st] by (intro cli_okI) (auto simp: eqs t)
  moreover have "obj_ok t"
    unfolding obj_ok_def eqs t by (auto simp: zero dest: objD [OF st])
  moreover have "exits_ok t"
    unfolding exits_ok_def eqs using none by (auto elim!: exitsD [OF st])
  ultimately have "struct_ok avail t"
    using st unfolding struct_ok_def maps_ok_def park_ok_def pool_ok_def eqs t by simp
  moreover have "lease_abs t = lease_abs s"
    by (simp add: lease_abs_def held_def eqs t)
  ultimately show ?thesis by (simp add: refines_def)
qed

lemma refines_exit_gone:
  assumes ok: "sys_ok avail s" and t: "sy_b t = exit_gone env c (sy_b s)" "sy_clients t = sy_clients s" "sy_seen t = sy_seen s"
  shows "refines avail s t"
proof (rule refines_cong)
  let ?b = "case mget (b_objs (sy_b s)) c of None \<Rightarrow> sy_b s
    | Some e \<Rightarrow> (sy_b s)\<lparr>b_exits := mdel (b_exits (sy_b s)) (en_nodeID e)\<rparr>"
  show "core (sy_b t) = core (sy_b (s\<lparr>sy_b := ?b\<rparr>))"
    by (simp add: t exit_gone_core)
  show "refines avail s (s\<lparr>sy_b := ?b\<rparr>)"
    using ok by (simp add: refines_def sys_ok_def struct_defs lease_abs_def held_def split: option.split)
qed (simp_all add: t)

text \<open>
  Steps of a client goroutine come in three shapes. It moves on without touching a session, it puts
  its session into the map, or it takes its session out. Each shape keeps the structure.
\<close>

lemma struct_move:
  assumes st: "struct_ok avail s"
    and t: "b_sessions (sy_b t) = b_sessions (sy_b s)" "b_parked (sy_b t) = b_parked (sy_b s)"
      "b_exits (sy_b t) = b_exits (sy_b s)" "b_resumeTTL (sy_b t) = b_resumeTTL (sy_b s)"
      "obj (sy_b t) = obj (sy_b s)" "pool_ok avail t" "set (sy_seen s) \<subseteq> set (sy_seen t)"
    and clients: "mwf (sy_clients t)" "\<And>d. waiting d (sy_clients t) = waiting d (sy_clients s)"
      "\<And>d. d \<noteq> c \<Longrightarrow> mget (sy_clients t) d = mget (sy_clients s) d"
      "Option.bind (mget (sy_clients t) c) pc_sess = Option.bind (mget (sy_clients s) c) pc_sess"
      "\<And>pc. mget (sy_clients t) c = Some pc \<Longrightarrow> c \<in> set (sy_seen t) \<and> obj (sy_b s) (pc_exit pc) \<noteq> None"
  shows "struct_ok avail t"
proof -
  have kept: "\<exists>pc. mget (sy_clients t) d = Some pc \<and> pc_sess pc = Some z"
    if "mget (sy_clients s) d = Some pc'" "pc_sess pc' = Some z" for d pc' z
    using that clients(3) [of d] clients(4) by (cases "d = c") (auto simp: bind_eq_Some_conv)
  have forth: "\<exists>pc. mget (sy_clients s) d = Some pc \<and> pc_sess pc = Some z"
    if "mget (sy_clients t) d = Some pc'" "pc_sess pc' = Some z" for d pc' z
    using that clients(3) [of d] clients(4) [symmetric] by (cases "d = c") (auto simp: bind_eq_Some_conv)
  have "sess_ok t"
    unfolding sess_ok_def t by (blast elim: sessD [OF st] dest: kept)
  moreover have "cli_ok t"
  proof (rule cli_okI)
    fix d pc
    assume "mget (sy_clients t) d = Some pc"
    then show "d \<in> set (sy_seen t) \<and> obj (sy_b t) (pc_exit pc) \<noteq> None"
      using clients(3) [of d] clients(5) t(7) cliD [OF st, of d] by (cases "d = c") (auto simp: t(5))
  next
    fix d pc i e
    assume "mget (sy_clients t) d = Some pc" "pc_sess pc = Some (i, e)"
    then show "\<exists>y. mget (b_sessions (sy_b t)) i = Some y \<and> s_clientConn y = d \<and> s_exitConn y = e"
      unfolding t(1) using forth cli_sess [OF st] by blast
  qed
  moreover have "obj_ok t"
    unfolding obj_ok_def t(1,5) clients(2) using t(7) by (blast dest: objD [OF st])
  ultimately show ?thesis
    using st clients(1) t(6) unfolding struct_ok_def maps_ok_def park_ok_def exits_ok_def t by simp
qed

lemma struct_enter:
  assumes st: "struct_ok avail s"
    and fresh: "mget (b_sessions (sy_b s)) sid = None" "Option.bind (mget (sy_clients s) c) pc_sess = None"
      "\<And>pc. mget (sy_clients s) c = Some pc \<Longrightarrow> \<not> pc_waits ex pc"
    and x: "s_id x = sid" "\<not> s_suspended x" "s_clientConn x = c" "s_exitConn x = ex"
      "obj (sy_b s) ex = Some (s_nodeID x, ex, k)"
    and t: "b_sessions (sy_b t) = mput (b_sessions (sy_b s)) sid x" "mwf (b_parked (sy_b t))" "park_ok t"
      "b_exits (sy_b t) = b_exits (sy_b s)" "b_resumeTTL (sy_b t) = b_resumeTTL (sy_b s)"
      "obj (sy_b t) = obj (sy_b s)" "b_ipPool (sy_b t) = b_ipPool (sy_b s)"
      "sy_clients t = mput (sy_clients s) c (Counting sid ex r)" "c \<in> set (sy_seen t)" "set (sy_seen s) \<subseteq> set (sy_seen t)"
  shows "struct_ok avail t"
proof -
  have other: "s_clientConn y \<noteq> c" if "mget (b_sessions (sy_b s)) i = Some y" for i y
    using that fresh(2) by (auto elim!: sessD [OF st])
  have wait: "waiting d (sy_clients t) = waiting d (sy_clients s) + (if d = ex then 1 else 0)" for d
  proof (cases "mget (sy_clients s) c")
    case None
    then show ?thesis by (simp add: t waiting_fresh struct_okD [OF st])
  next
    case (Some pc)
    moreover have "\<not> pc_waits d pc" using Some fresh(2) by (cases pc) auto
    ultimately show ?thesis
      by (auto simp: t waiting_put waiting_del [of _ c pc] struct_okD [OF st])
  qed
  have "sess_ok t"
    unfolding sess_ok_def t using x other by (auto elim!: sessD [OF st])
  moreover have "cli_ok t"
  proof (rule cli_okI)
    fix d pc
    assume "mget (sy_clients t) d = Some pc"
    then show "d \<in> set (sy_seen t) \<and> obj (sy_b t) (pc_exit pc) \<noteq> None"
      using x(5) t(9,10) cliD [OF st, of d pc] by (auto simp: t(6,8) split: if_splits)
  next
    fix d pc i e
    assume "mget (sy_clients t) d = Some pc" "pc_sess pc = Some (i, e)"
    then show "\<exists>y. mget (b_sessions (sy_b t)) i = Some y \<and> s_clientConn y = d \<and> s_exitConn y = e"
      using x fresh(1) cli_sess [OF st, of d pc i e] by (auto simp: t split: if_splits)
  qed
  moreover have "obj_ok t"
    unfolding obj_ok_def wait t(1,6) n_on_fresh [OF struct_okD(1) [OF st] fresh(1)] x(4)
    using t(10) by (auto dest: objD [OF st])
  moreover have "exits_ok t" "pool_ok avail t" "maps_ok t"
    using st t(2) unfolding struct_ok_def exits_ok_def pool_ok_def maps_ok_def t by simp_all
  ultimately show ?thesis using t(3) by (simp add: struct_ok_def)
qed

lemma struct_leave:
  assumes st: "struct_ok avail s"
    and c: "mget (sy_clients s) c = Some pc" "pc_sess pc = Some (sid, ex)" "\<And>d. \<not> pc_waits d pc"
    and t: "b_sessions (sy_b t) = mdel (b_sessions (sy_b s)) sid" "mwf (b_parked (sy_b t))" "park_ok t"
      "b_exits (sy_b t) = b_exits (sy_b s)" "pool_ok avail t"
      "obj (sy_b t) = (obj (sy_b s))(ex := map_option (bump (-1)) (obj (sy_b s) ex))"
      "sy_clients t = mdel (sy_clients s) c" "sy_seen t = sy_seen s"
  shows "struct_ok avail t"
proof -
  obtain x where x: "mget (b_sessions (sy_b s)) sid = Some x" "s_clientConn x = c" "s_exitConn x = ex"
    using cli_sess [OF st c(1,2)] by blast
  have wait: "waiting d (sy_clients t) = waiting d (sy_clients s)" for d
    using c waiting_del [OF struct_okD(3) [OF st] c(1), of d] by (simp add: t)
  have on: "n_on d (b_sessions (sy_b s)) = n_on d (b_sessions (sy_b t)) + (if d = ex then 1 else 0)" for d
    using n_on_del [OF struct_okD(1) [OF st] x(1), of d] x(3) by (auto simp: t)
  have other: "s_clientConn y \<noteq> c" if "mget (b_sessions (sy_b s)) i = Some y" "i \<noteq> sid" for i y
    using that c by (auto elim!: sessD [OF st])
  have "sess_ok t"
    unfolding sess_ok_def t using other
    by (auto elim!: sessD [OF st] simp: bump_def split: if_splits)
  moreover have "cli_ok t"
  proof (rule cli_okI)
    fix d pc'
    assume "mget (sy_clients t) d = Some pc'"
    then show "d \<in> set (sy_seen t) \<and> obj (sy_b t) (pc_exit pc') \<noteq> None"
      using cliD [OF st, of d pc'] by (auto simp: t(6-8) bump_def split: if_splits)
  next
    fix d pc' i e
    assume d: "mget (sy_clients t) d = Some pc'" "pc_sess pc' = Some (i, e)"
    then have "d \<noteq> c" "mget (sy_clients s) d = Some pc'" by (auto simp: t split: if_splits)
    with cli_sess [OF st _ d(2), of d] x
    show "\<exists>y. mget (b_sessions (sy_b t)) i = Some y \<and> s_clientConn y = d \<and> s_exitConn y = e"
      by (auto simp: t)
  qed
  moreover have "obj_ok t"
    unfolding obj_ok_def wait t(6,8)
  proof (intro allI impI)
    fix d n d' k
    assume d: "((obj (sy_b s))(ex := map_option (bump (- 1)) (obj (sy_b s) ex))) d = Some (n, d', k)"
    then have "obj (sy_b s) d = Some (n, d', k + (if d = ex then 1 else 0))"
      by (auto simp: bump_def split: if_splits)
    from objD [OF st this] on [of d]
    show "d' = d \<and> d \<in> set (sy_seen s) \<and> k + int (waiting d (sy_clients s)) = int (n_on d (b_sessions (sy_b t)))"
      by (simp split: if_splits)
  qed
  moreover have "exits_ok t"
    unfolding exits_ok_def t by (auto elim!: exitsD [OF st] simp: bump_def)
  moreover have "maps_ok t"
    using t(2) by (simp add: maps_ok_def t(1,4,7) struct_okD [OF st])
  ultimately show ?thesis using t(3,5) by (simp add: struct_ok_def)
qed

lemma client_begin_exit:
  assumes ok: "struct_ok avail s" and sel: "client_begin env c msg (sy_b s) = (Selected u ex, b)"
  shows "obj (sy_b s) ex \<noteq> None"
proof -
  from sel obtain b1 where b1: "core b1 = core (sy_b s)" "select_exit env msg b1 = (Inr ex, b)"
    by (rule client_begin_Selected)
  then obtain n where "mget (b_exits (sy_b s)) n = Some ex"
    using select_exit_Inr [OF b1(2)] core_eqD(2) [OF b1(1)] by auto
  then show ?thesis by (auto elim: exitsD [OF ok])
qed

lemma refines_choose:
  assumes ok: "sys_ok avail s" and c: "c \<notin> set (sy_seen s)"
    and sel: "client_begin env c msg (sy_b s) = (Selected u ex, b)"
  shows "refines avail s (s\<lparr>sy_b := b, sy_clients := mput (sy_clients s) c (Choosing msg u ex), sy_seen := c # sy_seen s\<rparr>)"
    (is "refines avail s ?t")
proof -
  from ok have st: "struct_ok avail s" by (simp add: sys_ok_def)
  from sel have core: "core b = core (sy_b s)" by (rule client_begin_Selected)
  note none = unseen(1) [OF st c] and wf = struct_okD(3) [OF st]
  have "struct_ok avail ?t"
    by (rule struct_move [OF st, where c = c])
      (use st client_begin_exit [OF st sel] none wf in
        \<open>auto simp: core_eqD [OF core] waiting_fresh struct_ok_def pool_ok_def\<close>)
  moreover have "lease_abs ?t = lease_abs s"
    by (simp add: lease_abs_def held_pending core_eqD [OF core] pending_fresh [OF wf none])
  ultimately show ?thesis by (simp add: refines_def)
qed

lemma unat_next: "w + 1 \<noteq> 0 \<Longrightarrow> unat (w + 1 :: u64) = Suc (unat w)"
  using unatSuc [of w] by (simp add: add.commute)

lemma refines_exhaust:
  assumes ok: "sys_ok avail s" and c: "mget (sy_clients s) c = Some (Choosing msg u ex)"
    and nz: "b_nextSession (sy_b s) + 1 \<noteq> 0" and l: "lease (sy_b s) = (Inl e, b)"
  shows "refines avail s (s\<lparr>sy_b := b, sy_clients := mdel (sy_clients s) c\<rparr>)" (is "refines avail s ?t")
proof -
  from ok have st: "struct_ok avail s" by (simp add: sys_ok_def)
  note wf = struct_okD(3) [OF st]
  from l obtain p where p: "Allocate (b_ipPool (sy_b s)) = (Inl e, p)"
    "b = (sy_b s)\<lparr>b_nextSession := b_nextSession (sy_b s) + 1, b_ipPool := p\<rparr>"
    unfolding lease_Inl by blast
  from vpn.alloc_Inl [OF struct_okD(4) [OF st] p(1)] struct_okD(5) [OF st]
  have full: "p = b_ipPool (sy_b s)" "avail \<subseteq> p_used (b_ipPool (sy_b s))" by auto
  have "struct_ok avail ?t"
    by (rule struct_move [OF st, where c = c])
      (use st c wf waiting_del [OF wf c] in \<open>simp_all add: p full struct_ok_def pool_ok_def\<close>)
  moreover have "unat (b_nextSession (sy_b s)) < unat (b_nextSession (sy_b s) + 1)"
    using nz by (simp add: unat_next)
  then have "lease_step avail (lease_abs s) ((lease_abs s)\<lparr>ls_last := unat (b_nextSession (sy_b s) + 1)\<rparr>)"
    using full by (intro lease_step.deny) (simp_all add: lease_abs_def)
  moreover have "lease_abs ?t = (lease_abs s)\<lparr>ls_last := unat (b_nextSession (sy_b s) + 1)\<rparr>"
    using pending_del [OF wf c] by (simp add: lease_abs_def held_pending p full)
  ultimately show ?thesis by (simp add: refines_def)
qed

lemma refines_take_lease:
  assumes ok: "sys_ok avail s" and c: "mget (sy_clients s) c = Some (Choosing msg u ex)"
    and nz: "b_nextSession (sy_b s) + 1 \<noteq> 0" and l: "lease (sy_b s) = (Inr (sid, a), b)"
  shows "refines avail s (s\<lparr>sy_b := b, sy_clients := mput (sy_clients s) c (Leased msg u ex sid a)\<rparr>)"
    (is "refines avail s ?t")
proof -
  from ok have st: "struct_ok avail s" by (simp add: sys_ok_def)
  note wf = struct_okD(3) [OF st]
  from l obtain p where p: "Allocate (b_ipPool (sy_b s)) = (Inr a, p)" "sid = b_nextSession (sy_b s) + 1"
    "b = (sy_b s)\<lparr>b_nextSession := sid, b_ipPool := p\<rparr>"
    unfolding lease_Inr by blast
  from vpn.alloc_Inr [OF struct_okD(4) [OF st] p(1)] struct_okD(5) [OF st]
  have new: "a \<in> avail" "a \<notin> p_used (b_ipPool (sy_b s))" "p_used p = insert a (p_used (b_ipPool (sy_b s)))"
    "{x. usable p x} = avail" "pool4 p" by auto
  have "struct_ok avail ?t"
    by (rule struct_move [OF st, where c = c])
      (use st c wf waiting_del [OF wf c] cliD [OF st c] in
        \<open>simp_all add: p new waiting_put struct_ok_def pool_ok_def\<close>)
  moreover have "unat (b_nextSession (sy_b s)) < unat sid"
    using nz p(2) by (simp add: unat_next)
  then have "lease_step avail (lease_abs s) \<lparr>ls_held = add_mset (unat sid, a) (ls_held (lease_abs s)),
      ls_used = insert a (ls_used (lease_abs s)), ls_last = unat sid\<rparr>"
    using new by (intro lease_step.grant) (simp_all add: lease_abs_def)
  moreover have "lease_abs ?t = \<lparr>ls_held = add_mset (unat sid, a) (ls_held (lease_abs s)),
      ls_used = insert a (ls_used (lease_abs s)), ls_last = unat sid\<rparr>"
    using pending_del [OF wf c] by (simp add: lease_abs_def held_pending p new pending_put [OF wf])
  ultimately show ?thesis by (simp add: refines_def)
qed

text \<open>A session that is parked or being opened is not in the map of live sessions.\<close>

lemma pending_fresh_sid:
  assumes "sys_ok avail s" and c: "mget (sy_clients s) c = Some pc" "pc_lease pc = {#(unat sid, a)#}"
  shows "mget (b_sessions (sy_b s)) sid = None"
proof (rule ccontr)
  from assms(1) have st: "struct_ok avail s" and ids: "mdistinct (image_mset fst (held s))"
    by (simp_all add: sys_ok_def lease_ok_def lease_abs_def)
  assume "mget (b_sessions (sy_b s)) sid \<noteq> None"
  then obtain y where y: "mget (b_sessions (sy_b s)) sid = Some y" by auto
  then have "s_id y = sid" by (auto elim: sessD [OF st])
  with ids show False
    unfolding held_pending pending_del [OF struct_okD(3) [OF st] c(1)] c(2)
      mvals_del [OF struct_okD(1) [OF st] y]
    by (simp add: sess_lease_def)
qed

lemma parked_fresh_sid:
  assumes "sys_ok avail s" and p: "mget (b_parked (sy_b s)) key = Some ps"
  shows "mget (b_sessions (sy_b s)) (s_id ps) = None"
proof (rule ccontr)
  from assms(1) have st: "struct_ok avail s" and ids: "mdistinct (image_mset fst (held s))"
    by (simp_all add: sys_ok_def lease_ok_def lease_abs_def)
  assume "mget (b_sessions (sy_b s)) (s_id ps) \<noteq> None"
  then obtain y where y: "mget (b_sessions (sy_b s)) (s_id ps) = Some y" by auto
  then have "s_id y = s_id ps" by (auto elim: sessD [OF st])
  with ids show False
    unfolding held_pending mvals_del [OF struct_okD(2) [OF st] p] mvals_del [OF struct_okD(1) [OF st] y]
    by (simp add: sess_lease_def)
qed

lemma refines_add_session:
  assumes ok: "sys_ok avail s" and c: "mget (sy_clients s) c = Some (Leased msg u ex sid a)"
  shows "refines avail s (s\<lparr>sy_b := insert_session env c msg u ex sid a (sy_b s),
    sy_clients := mput (sy_clients s) c (Counting sid ex False)\<rparr>)" (is "refines avail s ?t")
proof -
  from ok have st: "struct_ok avail s" by (simp add: sys_ok_def)
  note wf = struct_okD [OF st]
  from cliD(2) [OF st c] obtain e where e: "mget (b_objs (sy_b s)) ex = Some e" by (auto simp: obj_def)
  then have obj: "obj (sy_b s) ex = Some (en_nodeID e, en_conn e, en_active e)" by (simp add: obj_def okey_def)
  from objD(1) [OF st this] have conn: "en_conn e = ex" .
  let ?x = "new_session env c msg u e sid a"
  have b: "sy_b ?t = (sy_b s)\<lparr>b_sessions := mput (b_sessions (sy_b s)) sid ?x\<rparr>"
    by (simp add: insert_session_def e)
  have fresh: "mget (b_sessions (sy_b s)) sid = None"
    by (rule pending_fresh_sid [OF ok c]) simp
  have "struct_ok avail ?t"
    by (rule struct_enter [OF st fresh, where c = c and ex = ex and x = ?x and k = "en_active e" and r = False])
      (use st c obj conn cliD(1) [OF st c] in
        \<open>simp_all add: b [simplified] wf new_session_def struct_ok_def park_ok_def\<close>)
  moreover have "lease_abs ?t = lease_abs s"
    using pending_del [OF wf(3) c]
    by (simp add: lease_abs_def held_pending b [simplified] mvals_put_fresh [OF wf(1) fresh] pending_put [OF wf(3)]
        sess_lease_def new_session_def)
  ultimately show ?thesis by (simp add: refines_def)
qed

lemma refines_resume:
  assumes ok: "sys_ok avail s" and c: "c \<notin> set (sy_seen s)"
    and begun: "client_begin env c msg (sy_b s) = (Resumed sid ex, b)"
  shows "refines avail s (s\<lparr>sy_b := b, sy_clients := mput (sy_clients s) c (Counting sid ex True), sy_seen := c # sy_seen s\<rparr>)"
    (is "refines avail s ?t")
proof -
  from ok have st: "struct_ok avail s" by (simp add: sys_ok_def)
  note wf = struct_okD [OF st] and none = unseen(1) [OF st c]
  from begun obtain u :: user and b1 where core: "core b1 = core (sy_b s)" and
    r: "tryResume env (c_ResumeKey msg) (u_Username u) c b1 = (Some (sid, ex), b)"
    by (rule client_begin_Resumed)
  let ?key = "c_ResumeKey msg"
  note eqs = core_eqD [OF core]
  from r obtain ps where ps: "mget (b_parked b1) ?key = Some ps" "s_id ps = sid"
    and ex: "mget (b_exits b1) (s_nodeID ps) = Some ex"
    and b: "b = b1\<lparr>b_parked := mdel (b_parked b1) ?key, b_sessions := mput (b_sessions b1) sid
        (ps\<lparr>s_suspendTimer := None, s_suspended := False, s_clientConn := c, s_exitConn := ex\<rparr>)\<rparr>"
    by (rule tryResume_Some)
  let ?x = "ps\<lparr>s_suspendTimer := None, s_suspended := False, s_clientConn := c, s_exitConn := ex\<rparr>"
  from exitsD [OF st] ex obtain k where obj: "obj (sy_b s) ex = Some (s_nodeID ps, ex, k)"
    by (metis eqs(2))
  have fresh: "mget (b_sessions (sy_b s)) sid = None"
    using parked_fresh_sid [OF ok] ps eqs by auto
  have "struct_ok avail ?t"
    by (rule struct_enter [OF st fresh, where c = c and ex = ex and x = ?x and k = k and r = True])
      (use st obj none ps in \<open>auto simp: b eqs wf struct_ok_def park_ok_def\<close>)
  moreover have "lease_abs ?t = lease_abs s"
    using mvals_del [OF wf(2)] ps
    by (simp add: lease_abs_def held_pending b eqs mvals_put_fresh [OF wf(1) fresh] pending_fresh [OF wf(3) none]
        sess_lease_def)
  ultimately show ?thesis by (simp add: refines_def)
qed

lemma refines_count:
  assumes ok: "sys_ok avail s" and c: "mget (sy_clients s) c = Some (Counting sid ex r)"
    and b: "core b = core (active_add ex 1 (sy_b s))"
  shows "refines avail s (s\<lparr>sy_b := b, sy_clients := mput (sy_clients s) c (Starting sid ex)\<rparr>)"
    (is "refines avail s ?t")
proof -
  from ok have st: "struct_ok avail s" by (simp add: sys_ok_def)
  note wf = struct_okD [OF st] and eqs = core_eqD [OF b, simplified]
  have wait: "waiting d (sy_clients s) = waiting d (sy_clients ?t) + (if d = ex then 1 else 0)" for d
    using waiting_del [OF wf(3) c, of d] by (auto simp: waiting_put [OF wf(3)])
  have "obj_ok ?t"
    unfolding obj_ok_def
  proof (intro allI impI)
    fix d n d' k
    assume "obj (sy_b ?t) d = Some (n, d', k)"
    then have "obj (sy_b s) d = Some (n, d', k - (if d = ex then 1 else 0))"
      by (auto simp: eqs bump_def split: if_splits)
    from objD [OF st this] wait [of d]
    show "d' = d \<and> d \<in> set (sy_seen ?t) \<and> k + int (waiting d (sy_clients ?t)) = int (n_on d (b_sessions (sy_b ?t)))"
      by (simp add: eqs split: if_splits)
  qed
  moreover have "sess_ok ?t"
    unfolding sess_ok_def
  proof (intro allI impI)
    fix i y
    assume "mget (b_sessions (sy_b ?t)) i = Some y"
    then have y: "mget (b_sessions (sy_b s)) i = Some y" by (simp add: eqs)
    show "s_id y = i \<and> \<not> s_suspended y \<and>
        (\<exists>n. obj (sy_b ?t) (s_exitConn y) = Some (s_nodeID y, s_exitConn y, n)) \<and>
        (\<exists>pc. mget (sy_clients ?t) (s_clientConn y) = Some pc \<and> pc_sess pc = Some (i, s_exitConn y))"
      by (rule sessD [OF st y]) (use c in \<open>auto simp: eqs bump_def\<close>)
  qed
  moreover have "cli_ok ?t"
  proof (rule cli_okI)
    fix d pc
    assume "mget (sy_clients ?t) d = Some pc"
    then show "d \<in> set (sy_seen ?t) \<and> obj (sy_b ?t) (pc_exit pc) \<noteq> None"
      using cliD [OF st, of d pc] cliD [OF st c] by (auto simp: eqs bump_def split: if_splits)
  next
    fix d pc i e
    assume "mget (sy_clients ?t) d = Some pc" "pc_sess pc = Some (i, e)"
    then show "\<exists>y. mget (b_sessions (sy_b ?t)) i = Some y \<and> s_clientConn y = d \<and> s_exitConn y = e"
      using cli_sess [OF st c] cli_sess [OF st, of d pc i e] by (auto simp: eqs split: if_splits)
  qed
  moreover have "exits_ok ?t"
    unfolding exits_ok_def by (auto elim!: exitsD [OF st] simp: eqs bump_def)
  ultimately have "struct_ok avail ?t"
    using st by (simp add: struct_ok_def maps_ok_def park_ok_def pool_ok_def eqs wf)
  moreover have "lease_abs ?t = lease_abs s"
    using pending_del [OF wf(3) c] by (simp add: lease_abs_def held_pending eqs pending_put [OF wf(3)])
  ultimately show ?thesis by (simp add: refines_def)
qed

lemma refines_start_ok:
  assumes ok: "sys_ok avail s" and c: "mget (sy_clients s) c = Some (Starting sid ex)"
    and b: "core b = core (sy_b s)"
  shows "refines avail s (s\<lparr>sy_b := b, sy_clients := mput (sy_clients s) c (Serving sid ex)\<rparr>)"
    (is "refines avail s ?t")
proof -
  from ok have st: "struct_ok avail s" by (simp add: sys_ok_def)
  note wf = struct_okD [OF st] and eqs = core_eqD [OF b]
  have "struct_ok avail ?t"
    by (rule struct_move [OF st, where c = c])
      (use st c wf waiting_del [OF wf(3) c] cliD [OF st c] in
        \<open>simp_all add: eqs waiting_put struct_ok_def pool_ok_def\<close>)
  moreover have "lease_abs ?t = lease_abs s"
    using pending_del [OF wf(3) c] by (simp add: lease_abs_def held_pending eqs pending_put [OF wf(3)])
  ultimately show ?thesis by (simp add: refines_def)
qed

text \<open>The end of a session, by a failed start or a drop that is not parked: its lease is freed.\<close>

lemma refines_end:
  assumes ok: "sys_ok avail s" and c: "mget (sy_clients s) c = Some pc" "pc_sess pc = Some (sid, ex)"
    "\<And>d. \<not> pc_waits d pc" "pc_lease pc = {#}"
    and x: "mget (b_sessions (sy_b s)) sid = Some x"
    and b: "core b = core (active_add ex (-1) ((sy_b s)\<lparr>b_sessions := mdel (b_sessions (sy_b s)) sid,
      b_ipPool := Release (s_clientAddr x) (b_ipPool (sy_b s))\<rparr>))"
  shows "refines avail s (s\<lparr>sy_b := b, sy_clients := mdel (sy_clients s) c\<rparr>)" (is "refines avail s ?t")
proof -
  from ok have st: "struct_ok avail s" by (simp add: sys_ok_def)
  note wf = struct_okD [OF st] and eqs = core_eqD [OF b, simplified]
  have pool: "pool_ok avail ?t"
    using wf(4,5) by (simp add: pool_ok_def eqs vpn.avail_release vpn.ok_release)
  have "struct_ok avail ?t"
    by (rule struct_leave [OF st c(1-3) _ _ _ _ pool])
      (use st in \<open>simp_all add: eqs wf struct_ok_def park_ok_def\<close>)
  moreover have held: "held s = add_mset (sess_lease x) (held ?t)"
    using mvals_del [OF wf(1) x] pending_del [OF wf(3) c(1)] c(4) by (simp add: held_pending eqs)
  have "s_id x = sid" using x by (auto elim: sessD [OF st])
  then have "lease_step avail (lease_abs s) ((lease_abs s)\<lparr>ls_held := held s - {#(unat sid, s_clientAddr x)#},
      ls_used := p_used (b_ipPool (sy_b s)) - {s_clientAddr x}\<rparr>)"
    using lease_step.free [of "unat sid" "s_clientAddr x" "lease_abs s" avail]
    by (simp add: lease_abs_def held sess_lease_def)
  then have "lease_step avail (lease_abs s) (lease_abs ?t)"
    using \<open>s_id x = sid\<close> by (simp add: lease_abs_def held sess_lease_def eqs Release_def)
  ultimately show ?thesis by (simp add: refines_def)
qed

text \<open>
  Parking keeps the lease, unless another session was parked under the same key: that one is lost.
\<close>

lemma held_park_collision:
  assumes st: "struct_ok avail s" and c: "mget (sy_clients s) c = Some (Serving sid ex)"
    and x: "mget (b_sessions (sy_b s)) sid = Some x" and old: "mget (b_parked (sy_b s)) (s_resumeKey x) = Some old"
    and b: "core b = core (active_add ex (-1) ((sy_b s)\<lparr>b_sessions := mdel (b_sessions (sy_b s)) sid,
      b_parked := mput (b_parked (sy_b s)) (s_resumeKey x) (parked_form env (sy_b s) x)\<rparr>))"
  shows "held s = add_mset (sess_lease old) (held (s\<lparr>sy_b := b, sy_clients := mdel (sy_clients s) c\<rparr>))"
proof -
  note wf = struct_okD [OF st] and eqs = core_eqD [OF b, simplified]
  show ?thesis
    using mvals_del [OF wf(1) x] pending_del [OF wf(3) c] mvals_del [OF wf(2) old]
    by (simp add: held_pending eqs mvals_put [OF wf(2)] parked_form_def sess_lease_def)
qed

lemma refines_park:
  assumes ok: "sys_ok avail s" and c: "mget (sy_clients s) c = Some (Serving sid ex)"
    and x: "mget (b_sessions (sy_b s)) sid = Some x" and key: "s_resumeKey x \<noteq> ''''"
    and b: "core b = core (active_add ex (-1) ((sy_b s)\<lparr>b_sessions := mdel (b_sessions (sy_b s)) sid,
      b_parked := mput (b_parked (sy_b s)) (s_resumeKey x) (parked_form env (sy_b s) x)\<rparr>))"
  shows "refines avail s (s\<lparr>sy_b := b, sy_clients := mdel (sy_clients s) c\<rparr>)" (is "refines avail s ?t")
proof -
  from ok have st: "struct_ok avail s" by (simp add: sys_ok_def)
  note wf = struct_okD [OF st] and eqs = core_eqD [OF b, simplified]
  have pool: "pool_ok avail ?t" using wf(4,5) by (simp add: pool_ok_def eqs)
  have park: "park_ok ?t"
    using st key by (auto simp: struct_ok_def park_ok_def eqs parked_form_def)
  have "struct_ok avail ?t"
    by (rule struct_leave [OF st c _ _ _ _ park _ pool]) (simp_all add: eqs wf)
  moreover have "lease_abs ?t = lease_abs s \<or> lease_step avail (lease_abs s) (lease_abs ?t)"
  proof (cases "mget (b_parked (sy_b s)) (s_resumeKey x)")
    case None
    have "held ?t = held s"
      using mvals_del [OF wf(1) x] pending_del [OF wf(3) c]
      by (simp add: held_pending eqs mvals_put_fresh [OF wf(2) None] parked_form_def sess_lease_def)
    then show ?thesis by (simp add: lease_abs_def eqs)
  next
    case (Some old)
    note held = held_park_collision [OF st c x Some b]
    have "lease_step avail (lease_abs s) ((lease_abs s)\<lparr>ls_held := held s - {#sess_lease old#}\<rparr>)"
      using lease_step.lose [of "fst (sess_lease old)" "snd (sess_lease old)" "lease_abs s" avail]
      by (simp add: lease_abs_def held)
    moreover have "lease_abs ?t = (lease_abs s)\<lparr>ls_held := held s - {#sess_lease old#}\<rparr>"
      by (simp add: lease_abs_def held eqs)
    ultimately show ?thesis by simp
  qed
  ultimately show ?thesis by (simp add: refines_def)
qed

lemma refines_drop:
  assumes ok: "sys_ok avail s" and c: "mget (sy_clients s) c = Some (Serving sid ex)"
  shows "refines avail s (s\<lparr>sy_b := suspendSession env sid ex i (sy_b s), sy_clients := mdel (sy_clients s) c\<rparr>)"
proof -
  from ok have st: "struct_ok avail s" by (simp add: sys_ok_def)
  from cli_sess [OF st c] obtain x where x: "mget (b_sessions (sy_b s)) sid = Some x" by auto
  show ?thesis
  proof (cases "parks i x (sy_b s)")
    case True
    from refines_park [OF ok c x _ suspendSession_park [OF x True]] True
    show ?thesis by (simp add: parks_def)
  next
    case False
    from refines_end [OF ok c _ _ _ x suspendSession_end [OF x False]]
    show ?thesis by simp
  qed
qed

lemma refines_start_fail:
  assumes ok: "sys_ok avail s" and c: "mget (sy_clients s) c = Some (Starting sid ex)"
    and f: "run_start env c sid ex (sy_b s) = (False, b)"
  shows "refines avail s (s\<lparr>sy_b := b, sy_clients := mdel (sy_clients s) c\<rparr>)"
proof -
  from ok have st: "struct_ok avail s" by (simp add: sys_ok_def)
  from cli_sess [OF st c] obtain x where x: "mget (b_sessions (sy_b s)) sid = Some x" by auto
  from refines_end [OF ok c _ _ _ x run_start_False [OF f x]] show ?thesis by simp
qed

lemma refines_expire:
  assumes ok: "sys_ok avail s"
  shows "refines avail s (s\<lparr>sy_b := expirePark env key sid (sy_b s)\<rparr>)" (is "refines avail s ?t")
proof (cases "\<exists>x. mget (b_parked (sy_b s)) key = Some x \<and> s_id x = sid \<and> s_suspended x")
  case False
  then have "core (expirePark env key sid (sy_b s)) = core (sy_b s)"
    by (auto simp: expirePark_core split: option.split)
  then show ?thesis by (intro refines_cong [OF _ _ _ refines_refl [OF ok]]) simp_all
next
  case True
  from ok have st: "struct_ok avail s" by (simp add: sys_ok_def)
  note wf = struct_okD [OF st]
  from True obtain x where x: "mget (b_parked (sy_b s)) key = Some x" "s_id x = sid" "s_suspended x" by blast
  let ?t' = "s\<lparr>sy_b := (sy_b s)\<lparr>b_parked := mdel (b_parked (sy_b s)) key,
    b_ipPool := Release (s_clientAddr x) (b_ipPool (sy_b s))\<rparr>\<rparr>"
  have "struct_ok avail ?t'"
    using st by (simp add: struct_defs vpn.avail_release vpn.ok_release)
  moreover have held: "held s = add_mset (sess_lease x) (held ?t')"
    using mvals_del [OF wf(2) x(1)] by (simp add: held_pending)
  have "lease_step avail (lease_abs s) (lease_abs ?t')"
    using lease_step.free [of "unat sid" "s_clientAddr x" "lease_abs s" avail] x(2)
    by (simp add: lease_abs_def held sess_lease_def Release_def)
  ultimately have "refines avail s ?t'" by (simp add: refines_def)
  then show ?thesis
    by (rule refines_cong [rotated -1]) (simp_all add: expirePark_core x)
qed

text \<open>Every step refines the specification.\<close>

lemma sys_step_refines: "sys_step s t \<Longrightarrow> sys_ok avail s \<Longrightarrow> refines avail s t"
proof (induction rule: sys_step.induct)
  case (register c s msg env)
  then show ?case by (intro refines_register [where n = "c_NodeID msg"]) (simp_all add: register_exit_core)
next
  case (refuse c s env e)
  then show ?case
    by (intro refines_cong [OF _ _ _ refines_seen [OF refines_refl, where c = c]]) simp_all
next
  case (exit_in c s io)
  then show ?case by (intro refines_cong [OF _ _ _ refines_refl]) simp_all
next
  case (exit_out c s env)
  then show ?case by (intro refines_exit_gone) simp_all
next
  case (relay c s env dg)
  then show ?case by (intro refines_cong [OF _ _ _ refines_refl]) simp_all
next
  case (answer c s env msg m b)
  then show ?case
    by (intro refines_cong [OF _ _ _ refines_seen [OF refines_refl, where c = c]])
      (simp_all add: client_begin_Answered)
next
  case (exhaust s c msg u ex e b env)
  from refines_exhaust [OF exhaust(4) exhaust(1-3)] show ?case
    by (rule refines_cong [rotated -1]) simp_all
next
  case (count_new s c sid ex env)
  then show ?case by (intro refines_count [where r = False]) (simp_all add: count_session_core)
next
  case (start_ok s c sid ex env b)
  then show ?case by (intro refines_start_ok) (simp_all add: run_start_True)
next
  case (serve s c sid ex io)
  then show ?case by (intro refines_cong [OF _ _ _ refines_refl]) simp_all
next
  case (admin s st)
  then show ?case by (intro refines_cong [OF _ _ _ refines_refl]) simp_all
qed (blast intro: refines_resume refines_choose refines_take_lease refines_add_session refines_count
    refines_start_fail refines_drop refines_expire)+

section \<open>Runs from start-up\<close>

definition booted :: "broker \<Rightarrow> bool" where
  "booted b \<longleftrightarrow> (\<exists>parse6 env id1 id2 fl users. boot parse6 env id1 id2 fl users = Some b)"

definition sys_init :: "sys \<Rightarrow> bool" where
  "sys_init s \<longleftrightarrow> (\<exists>b. booted b \<and> sys_start b s)"

definition vpn_addrs :: "addr set" where
  "vpn_addrs = {a. usable vpn_pool a}"

lemma booted_fields:
  assumes "booted b"
  shows "b_objs b = []" "b_exits b = []" "b_sessions b = []" "b_parked b = []" "b_ipPool b = vpn_pool"
    "b_nextSession b = 0" "b_out b = []"
proof -
  from assms obtain parse6 env id1 id2 fl users where "boot parse6 env id1 id2 fl users = Some b"
    unfolding booted_def by blast
  then show "b_objs b = []" "b_exits b = []" "b_sessions b = []" "b_parked b = []" "b_ipPool b = vpn_pool"
    "b_nextSession b = 0" "b_out b = []"
    by (auto simp: boot_def newBroker_def mustPool_vpn split: option.split_asm)
qed

lemma vpn_pool4: "pool4 vpn_pool"
  by (simp add: pool4_def vpn_pool_def)

lemma sys_init_ok:
  assumes "sys_init s"
  shows "sys_ok vpn_addrs s" and "lease_start (lease_abs s)"
proof -
  from assms obtain b where b: "booted b" "s = \<lparr>sy_b = b, sy_clients = [], sy_exits = [], sy_seen = []\<rparr>"
    by (auto simp: sys_init_def sys_start_def)
  then have "lease_abs s = \<lparr>ls_held = {#}, ls_used = {}, ls_last = 0\<rparr>"
    using booted_fields [OF b(1)] by (simp add: lease_abs_def held_def vpn_pool_def)
  then show "lease_start (lease_abs s)" by (simp add: lease_start_def)
  moreover have "struct_ok vpn_addrs s"
    using b booted_fields [OF b(1)] by (simp add: struct_defs vpn_pool4 vpn_addrs_def obj_def)
  ultimately show "sys_ok vpn_addrs s"
    using lease_inv.holds_start [of "lease_abs s" vpn_addrs] by (simp add: sys_ok_def)
qed

interpretation broker_sys: simulation sys_init sys_step "sys_ok vpn_addrs" lease_start "lease_step vpn_addrs" lease_abs
proof unfold_locales
  show "sys_init s \<Longrightarrow> sys_ok vpn_addrs s" for s by (rule sys_init_ok)
  show "sys_init s \<Longrightarrow> lease_start (lease_abs s)" for s by (rule sys_init_ok)
  show "sys_step s t \<Longrightarrow> sys_ok vpn_addrs s \<Longrightarrow> sys_ok vpn_addrs t" for s t
    by (rule refines_sys_ok [OF _ sys_step_refines])
  show "sys_step s t \<Longrightarrow> sys_ok vpn_addrs s \<Longrightarrow>
      lease_abs t = lease_abs s \<or> lease_step vpn_addrs (lease_abs s) (lease_abs t)" for s t
    using sys_step_refines [of s t vpn_addrs] by (simp add: refines_def)
qed

abbreviation run :: "sys \<Rightarrow> bool" where
  "run \<equiv> reach sys_init sys_step"

lemma run_steps: "run s \<Longrightarrow> sys_step\<^sup>*\<^sup>* s t \<Longrightarrow> run t"
  by (rotate_tac, induction rule: rtranclp_induct) (auto intro: reach.reach_step)

lemma vpn_addrs_range: "vpn_addrs = a4 ` {0x0A630002..0x0A6300FE}"
proof -
  have base: "net_base vpn_pool = 0x0A630000" "net_size vpn_pool = 256"
    by (simp_all add: net_base_def net_size_def vpn_pool_def)
  have "usable vpn_pool a \<longleftrightarrow> a \<in> a4 ` {0x0A630002..0x0A6300FE}" for a
  proof
    assume "usable vpn_pool a"
    then obtain w where w: "a = Addr4 w" "0x0A630000 < unat w" "unat w + 1 < 0x0A630100" "w \<noteq> 0x0A630001"
      using usable4 [OF vpn_pool4, of a] base by (auto simp: vpn_pool_def)
    then have "unat w \<noteq> 0x0A630001" by (simp add: word_unat_eq_iff)
    with w have "unat w \<in> {0x0A630002..0x0A6300FE}" by simp
    moreover have "a = a4 (unat w)" using w(1) by (simp add: a4_def)
    ultimately show "a \<in> a4 ` {0x0A630002..0x0A6300FE}" by blast
  next
    assume "a \<in> a4 ` {0x0A630002..0x0A6300FE}"
    then obtain n where n: "a = a4 n" "0x0A630002 \<le> n" "n \<le> 0x0A6300FE" by auto
    then have u: "unat (of_nat n :: u32) = n" by (simp add: unat_of_nat32)
    then have "(of_nat n :: u32) \<noteq> 0x0A630001" using n by (auto simp: word_unat_eq_iff)
    with u n show "usable vpn_pool a"
      using usable4 [OF vpn_pool4, of a] base by (simp add: vpn_pool_def a4_def)
  qed
  then show ?thesis by (auto simp: vpn_addrs_def)
qed

lemma vpn_addrs_card: "finite vpn_addrs" "card vpn_addrs \<le> 253"
  unfolding vpn_addrs_range using card_image_le [of "{0x0A630002..0x0A6300FE::nat}" a4] by simp_all

end
