(* ===== verification/TunnelInv.thy ===== *)
theory TunnelInv
  imports BrokerSys
begin

text \<open>
  Two more facts of every run of the broker, which the tunnel relies on: a connection is the client's or the exit's
  end, never both; and the address text a session is announced with is the text of its leased address.
\<close>

definition text_ok :: "client_session \<Rightarrow> bool" where
  "text_ok x = (\<forall>w. s_clientAddr x = Addr4 w \<longrightarrow> s_clientIP x = string4 w)"

definition ends_ok :: "sys \<Rightarrow> bool" where
  "ends_ok s \<longleftrightarrow>
    (\<forall>c pc. mget (sy_clients s) c = Some pc \<longrightarrow> obj (sy_b s) c = None) \<and>
    (\<forall>sid x. mget (b_sessions (sy_b s)) sid = Some x \<longrightarrow> text_ok x) \<and>
    (\<forall>key x. mget (b_parked (sy_b s)) key = Some x \<longrightarrow> text_ok x)"

lemma ends_okI:
  assumes "\<And>c pc. mget (sy_clients s) c = Some pc \<Longrightarrow> obj (sy_b s) c = None"
    and "\<And>sid x. mget (b_sessions (sy_b s)) sid = Some x \<Longrightarrow> text_ok x"
    and "\<And>key x. mget (b_parked (sy_b s)) key = Some x \<Longrightarrow> text_ok x"
  shows "ends_ok s"
  using assms by (simp add: ends_ok_def)

lemma ends_okD:
  assumes "ends_ok s"
  shows "mget (sy_clients s) c = Some pc \<Longrightarrow> obj (sy_b s) c = None"
    "mget (b_sessions (sy_b s)) sid = Some x \<Longrightarrow> text_ok x"
    "mget (b_parked (sy_b s)) key = Some x \<Longrightarrow> text_ok x"
  using assms by (auto simp: ends_ok_def)

text \<open>The rule for a step: what is new is well formed, the rest was there before.\<close>

lemma ends_ok_step:
  assumes ok: "ends_ok s"
    and "\<And>c pc. mget (sy_clients t) c = Some pc \<Longrightarrow> obj (sy_b t) c = None \<or>
          (\<exists>pc'. mget (sy_clients s) c = Some pc') \<and> (obj (sy_b s) c = None \<longrightarrow> obj (sy_b t) c = None)"
    and "\<And>sid x. mget (b_sessions (sy_b t)) sid = Some x \<Longrightarrow> text_ok x \<or> mget (b_sessions (sy_b s)) sid = Some x"
    and "\<And>key x. mget (b_parked (sy_b t)) key = Some x \<Longrightarrow> text_ok x \<or> mget (b_parked (sy_b s)) key = Some x"
  shows "ends_ok t"
  using assms(2-) ends_okD [OF ok] by (intro ends_okI) blast+

lemma ends_ok_core:
  assumes "ends_ok s" "core b = core (sy_b s)" "\<And>c pc. mget m c = Some pc \<Longrightarrow> obj (sy_b s) c = None"
  shows "ends_ok (s\<lparr>sy_b := b, sy_clients := m\<rparr>)"
  using assms core_eqD [OF assms(2)] by (auto simp: ends_ok_def)

lemma ends_ok_core':
  assumes "ends_ok s" "core b = core (sy_b s)"
  shows "ends_ok (s\<lparr>sy_b := b\<rparr>)"
  using assms core_eqD [OF assms(2)] by (auto simp: ends_ok_def)

lemma ends_ok_seen [simp]: "ends_ok (s\<lparr>sy_seen := z\<rparr>) = ends_ok s" "ends_ok (s\<lparr>sy_exits := y\<rparr>) = ends_ok s"
  by (simp_all add: ends_ok_def)

lemma text_ok_fields [simp]:
  "text_ok (x\<lparr>s_suspendTimer := a, s_suspended := b, s_clientConn := c, s_exitConn := d\<rparr>) = text_ok x"
  "text_ok (parked_form env br x) = text_ok x"
  by (simp_all add: text_ok_def parked_form_def)

lemma text_ok_new [simp]: "text_ok (new_session env c msg u e sid a)"
  by (simp add: text_ok_def new_session_def)

section \<open>Every step keeps it\<close>

lemma ends_ok_resume:
  assumes ok: "ends_ok s" and c: "obj (sy_b s) c = None" and b: "client_begin env c msg (sy_b s) = (Resumed sid ex, b)"
  shows "ends_ok (s\<lparr>sy_b := b, sy_clients := mput (sy_clients s) c pc\<rparr>)"
proof -
  from b obtain u b1 where "client_auth env msg (sy_b s) = (Inr u, b1)" and core: "core b1 = core (sy_b s)"
    and "c_ResumeKey msg \<noteq> ''''" and r: "tryResume env (c_ResumeKey msg) (u_Username u) c b1 = (Some (sid, ex), b)"
    by (rule client_begin_Resumed)
  from r obtain ps where ps: "mget (b_parked b1) (c_ResumeKey msg) = Some ps"
    and b: "b = b1\<lparr>b_parked := mdel (b_parked b1) (c_ResumeKey msg), b_sessions := mput (b_sessions b1) sid
        (ps\<lparr>s_suspendTimer := None, s_suspended := False, s_clientConn := c, s_exitConn := ex\<rparr>)\<rparr>"
    by (rule tryResume_Some)
  from ps ends_okD(3) [OF ok] have "text_ok ps" by (simp add: core_eqD [OF core])
  then show ?thesis
    using c by (intro ends_ok_step [OF ok]) (auto simp: b core_eqD [OF core] split: if_splits)
qed

lemma ends_ok_insert:
  assumes ok: "ends_ok s" and c: "mget (sy_clients s) c = Some pc"
  shows "ends_ok (s\<lparr>sy_b := insert_session env c msg u ex sid a (sy_b s), sy_clients := mput (sy_clients s) c pc'\<rparr>)"
  using c by (intro ends_ok_step [OF ok]) (auto simp: insert_session_def split: option.splits if_splits)

lemma ends_ok_gone:
  assumes ok: "ends_ok s"
  shows "ends_ok (s\<lparr>sy_b := exit_gone env c (sy_b s)\<rparr>)"
proof -
  have "core (exit_gone env c (sy_b s)) =
      (obj (sy_b s), b_exits (exit_gone env c (sy_b s)), b_sessions (sy_b s), b_parked (sy_b s), b_ipPool (sy_b s),
       b_nextSession (sy_b s), b_resumeTTL (sy_b s))"
    using exit_gone_core [of env c "sy_b s"] by (auto simp: core_def split: option.splits)
  then show ?thesis using ok by (simp add: ends_ok_def core_def)
qed

text \<open>Steps that remove sessions or change counters.\<close>

lemma ends_ok_shrink:
  assumes ok: "ends_ok s" and core: "core b = core b'"
    and "\<And>c. obj (sy_b s) c = None \<Longrightarrow> obj b' c = None"
    and "\<And>sid x. mget (b_sessions b') sid = Some x \<Longrightarrow> mget (b_sessions (sy_b s)) sid = Some x"
    and "\<And>key x. mget (b_parked b') key = Some x \<Longrightarrow> text_ok x \<or> mget (b_parked (sy_b s)) key = Some x"
    and "\<And>c pc. mget m c = Some pc \<Longrightarrow> \<exists>pc'. mget (sy_clients s) c = Some pc'"
  shows "ends_ok (s\<lparr>sy_b := b, sy_clients := m\<rparr>)"
  using assms(3-) by (intro ends_ok_step [OF ok]) (auto simp: core_eqD [OF core])

lemma ends_ok_drop:
  assumes ok: "ends_ok s" and st: "struct_ok avail s" and c: "mget (sy_clients s) c = Some (Serving sid ex)"
  shows "ends_ok (s\<lparr>sy_b := suspendSession env sid ex i (sy_b s), sy_clients := mdel (sy_clients s) c\<rparr>)"
proof -
  from cli_sess [OF st c] obtain x where x: "mget (b_sessions (sy_b s)) sid = Some x" by auto
  with ends_okD(2) [OF ok] have tx: "text_ok x" by blast
  show ?thesis
  proof (cases "parks i x (sy_b s)")
    case True
    with x tx show ?thesis
      by (intro ends_ok_shrink [OF ok suspendSession_park]) (auto split: if_splits)
  next
    case False
    with x show ?thesis
      by (intro ends_ok_shrink [OF ok suspendSession_end]) (auto split: if_splits)
  qed
qed

lemma ends_ok_start_fail:
  assumes ok: "ends_ok s" and st: "struct_ok avail s" and c: "mget (sy_clients s) c = Some (Starting sid ex)"
    and b: "run_start env c sid ex (sy_b s) = (False, b)"
  shows "ends_ok (s\<lparr>sy_b := b, sy_clients := mdel (sy_clients s) c\<rparr>)"
proof -
  from cli_sess [OF st c] obtain x where x: "mget (b_sessions (sy_b s)) sid = Some x" by auto
  show ?thesis
    by (intro ends_ok_shrink [OF ok run_start_False [OF b x]]) (auto split: if_splits)
qed

lemma ends_ok_expire:
  assumes ok: "ends_ok s"
  shows "ends_ok (s\<lparr>sy_b := expirePark env key sid (sy_b s)\<rparr>)"
proof -
  have "\<exists>b'. core (expirePark env key sid (sy_b s)) = core b' \<and> obj b' = obj (sy_b s) \<and> b_sessions b' = b_sessions (sy_b s) \<and>
      (b_parked b' = b_parked (sy_b s) \<or> b_parked b' = mdel (b_parked (sy_b s)) key)"
    unfolding expirePark_core
    by (cases "mget (b_parked (sy_b s)) key") (auto intro: exI [of _ "sy_b s"] exI [of _ "(sy_b s)\<lparr>b_parked := p, b_ipPool := q\<rparr>" for p q])
  then obtain b' where b': "core (expirePark env key sid (sy_b s)) = core b'" "obj b' = obj (sy_b s)"
    "b_sessions b' = b_sessions (sy_b s)"
    "b_parked b' = b_parked (sy_b s) \<or> b_parked b' = mdel (b_parked (sy_b s)) key" by blast
  have "ends_ok (s\<lparr>sy_b := expirePark env key sid (sy_b s), sy_clients := sy_clients s\<rparr>)"
    using b'(2-) by (intro ends_ok_shrink [OF ok b'(1)]) (auto split: if_splits)
  then show ?thesis by simp
qed

lemma ends_ok_sys_step: "sys_step s t \<Longrightarrow> sys_ok avail s \<Longrightarrow> ends_ok s \<Longrightarrow> ends_ok t"
proof (induction rule: sys_step.induct)
  case (register c s msg env)
  then have st: "struct_ok avail s" by (simp add: sys_ok_def)
  have "core (register_exit env c msg (sy_b s)) =
    ((obj (sy_b s))(c \<mapsto> (c_NodeID msg, c, 0)), mput (b_exits (sy_b s)) (c_NodeID msg) c, b_sessions (sy_b s),
     b_parked (sy_b s), b_ipPool (sy_b s), b_nextSession (sy_b s), b_resumeTTL (sy_b s))"
    by (rule register_exit_core)
  with unseen(1) [OF st register(1)] register(4) show ?case by (auto simp: ends_ok_def core_def)
next
  case (refuse c s env e)
  then show ?case using ends_ok_core' [of s "cw_write env c (error_msg e) (sy_b s)"] by (simp add: ends_ok_def)
next
  case (exit_in c s io)
  then show ?case by (intro ends_ok_core') simp_all
next
  case (exit_out c s env)
  then show ?case using ends_ok_gone [of s env c] by (simp add: ends_ok_def)
next
  case (relay c s env dg)
  then show ?case by (intro ends_ok_core') simp_all
next
  case (answer c s env msg m b)
  then have "ends_ok (s\<lparr>sy_b := cw_write env c m b\<rparr>)" by (intro ends_ok_core') (simp_all add: client_begin_Answered)
  then show ?case by (simp add: ends_ok_def)
next
  case (resume c s env msg sid ex b)
  then have "obj (sy_b s) c = None" using unseen(2) by (auto simp: sys_ok_def)
  from ends_ok_resume [OF resume(4) this resume(2)] show ?case by (simp add: ends_ok_def)
next
  case (choose c s env msg u ex b)
  then have "obj (sy_b s) c = None" using unseen(2) by (auto simp: sys_ok_def)
  moreover from choose(2) have "core b = core (sy_b s)" by (rule client_begin_Selected)
  ultimately show ?case
    using choose(4) ends_ok_core [OF choose(4), of b "mput (sy_clients s) c (Choosing msg u ex)"]
    by (auto simp: ends_ok_def split: if_splits)
next
  case (exhaust s c msg u ex e b env)
  then obtain p where b: "b = (sy_b s)\<lparr>b_nextSession := b_nextSession (sy_b s) + 1, b_ipPool := p\<rparr>"
    by (auto simp: lease_Inl)
  show ?case by (rule ends_ok_shrink [OF exhaust(5) cw_write_core]) (auto simp: b split: if_splits)
next
  case (take_lease s c msg u ex sid a b)
  then obtain p where b: "b = (sy_b s)\<lparr>b_nextSession := sid, b_ipPool := p\<rparr>"
    by (auto simp: lease_Inr)
  show ?case using take_lease(1) by (intro ends_ok_shrink [OF take_lease(5) refl]) (auto simp: b split: if_splits)
next
  case (add_session s c msg u ex sid a env)
  then show ?case by (intro ends_ok_insert)
next
  case (count_resumed s c sid ex)
  then show ?case by (intro ends_ok_shrink [OF _ refl]) (auto split: if_splits)
next
  case (count_new s c sid ex env)
  then show ?case by (intro ends_ok_shrink [OF _ count_session_core]) (auto split: if_splits)
next
  case (start_ok s c sid ex env b)
  then show ?case
    by (intro ends_ok_core) (auto simp: run_start_True ends_okD(1) split: if_splits)
next
  case (start_fail s c sid ex env b)
  then show ?case by (auto simp: sys_ok_def intro: ends_ok_start_fail)
next
  case (serve s c sid ex io)
  then show ?case by (intro ends_ok_core') simp_all
next
  case (drop s c sid ex env cause)
  then show ?case by (auto simp: sys_ok_def intro: ends_ok_drop)
next
  case (expire s env key sid)
  then show ?case by (intro ends_ok_expire)
next
  case (admin s st)
  then show ?case by (intro ends_ok_core') simp_all
qed

interpretation broker_ends: inductive_invariant sys_init sys_step "\<lambda>s. sys_ok vpn_addrs s \<and> ends_ok s"
proof unfold_locales
  show "sys_init s \<Longrightarrow> sys_ok vpn_addrs s \<and> ends_ok s" for s
    using sys_init_ok(1) [of s] by (auto simp: sys_init_def sys_start_def ends_ok_def booted_fields)
  show "sys_step s t \<Longrightarrow> sys_ok vpn_addrs s \<and> ends_ok s \<Longrightarrow> sys_ok vpn_addrs t \<and> ends_ok t" for s t
    using broker_sys.holds_step [of s t] ends_ok_sys_step [of s t vpn_addrs] by blast
qed

end
