(* ===== verification/BrokerRuns.thy ===== *)
theory BrokerRuns
  imports BrokerSys
begin

text \<open>
  Properties of every run of the broker, under every interleaving of its goroutines: the refinement of
  the lease specification, the disjointness of leases, the exactness of the load counters, and what
  happens to a lease whose resume key is parked twice.
\<close>

section \<open>Opening a session as a sequence of steps\<close>

text \<open>
  The sequential handler's way to a served session, with nothing in between, is one of the
  interleavings.
\<close>

definition sy_open :: "broker_env \<Rightarrow> conn \<Rightarrow> control \<Rightarrow> sys \<Rightarrow> sys option" where
  "sy_open env c msg s =
    (case client_begin env c msg (sy_b s) of
       (Selected u ex, b) \<Rightarrow>
         (case open_session env c msg u ex b of
            (Some sid, b) \<Rightarrow>
              (case run_start env c sid ex b of
                 (True, b) \<Rightarrow> Some (s\<lparr>sy_b := b, sy_clients := mput (sy_clients s) c (Serving sid ex),
                                    sy_seen := c # sy_seen s\<rparr>)
               | _ \<Rightarrow> None)
          | _ \<Rightarrow> None)
     | _ \<Rightarrow> None)"

lemma mput_mput [simp]: "mput (mput m k v) k w = mput m k w"
  by (simp add: mput_def)

lemma sy_open_steps:
  assumes "sy_open env c msg s = Some t" and c: "c \<notin> set (sy_seen s)"
    and nz: "b_nextSession (sy_b s) + 1 \<noteq> 0"
  shows "sys_step\<^sup>*\<^sup>* s t"
proof -
  from assms(1) obtain u ex b1 sid b4 b5 where
    sel: "client_begin env c msg (sy_b s) = (Selected u ex, b1)" and
    op: "open_session env c msg u ex b1 = (Some sid, b4)" and
    st: "run_start env c sid ex b4 = (True, b5)" and
    t: "t = s\<lparr>sy_b := b5, sy_clients := mput (sy_clients s) c (Serving sid ex), sy_seen := c # sy_seen s\<rparr>"
    by (auto simp: sy_open_def split: prod.splits begun.splits option.splits bool.splits)
  from op obtain a b2 where l: "lease b1 = (Inr (sid, a), b2)"
    and b4: "b4 = count_session env sid ex (insert_session env c msg u ex sid a b2)"
    by (auto simp: open_session_def split: prod.splits sum.splits)
  obtain b0 cl xs sn where s: "s = \<lparr>sy_b = b0, sy_clients = cl, sy_exits = xs, sy_seen = sn\<rparr>" by (cases s)
  let ?s = "\<lambda>b pc. \<lparr>sy_b = b, sy_clients = mput cl c pc, sy_exits = xs, sy_seen = c # sn\<rparr>"
  have "core b1 = core (sy_b s)" using sel by (rule client_begin_Selected)
  then have next_eq: "b_nextSession b1 = b_nextSession (sy_b s)" by (rule core_eqD)
  have "sys_step s (?s b1 (Choosing msg u ex))"
    using sys_step.choose [OF c sel] by (simp add: s)
  moreover have "sys_step (?s b1 (Choosing msg u ex)) (?s b2 (Leased msg u ex sid a))"
    using sys_step.take_lease [of "?s b1 (Choosing msg u ex)" c msg u ex sid a b2] l nz next_eq by (simp add: s)
  moreover have "sys_step (?s b2 (Leased msg u ex sid a))
      (?s (insert_session env c msg u ex sid a b2) (Counting sid ex False))"
    using sys_step.add_session [of "?s b2 (Leased msg u ex sid a)" c msg u ex sid a env] by simp
  moreover have "sys_step (?s (insert_session env c msg u ex sid a b2) (Counting sid ex False)) (?s b4 (Starting sid ex))"
    using sys_step.count_new [of "?s (insert_session env c msg u ex sid a b2) (Counting sid ex False)" c sid ex env]
    by (simp add: b4)
  moreover have "sys_step (?s b4 (Starting sid ex)) (?s b5 (Serving sid ex))"
    using sys_step.start_ok [of "?s b4 (Starting sid ex)" c sid ex env b5] st by simp
  ultimately show ?thesis
    unfolding t s by simp
qed

section \<open>A concrete run\<close>

text \<open>One exit in region eu, and one user with the token tok.\<close>

definition demo_env :: broker_env where
  "demo_env = \<lparr>be_now = 62135596800 * 1000000000, be_writable = (\<lambda>_. True), be_remoteAddr = (\<lambda>_. ''198.51.100.7:4242''),
     be_draw = 0, be_hmac = toy_hmac, be_hmac_sha1 = toy_sha1, be_db_ok = True, be_db_text = '''',
     be_oidc = toy_env, be_jwks = None, be_oidc_text = (\<lambda>_. ''''), be_show6 = (\<lambda>_. '''')\<rparr>"

definition demo_flags :: broker_flags where
  "demo_flags = \<lparr>fl_nodeToken = ''node'', fl_lb = ''least-conn'', fl_resumeTTL = hour, fl_seedUser = ''tok:eu'',
     fl_seedOIDCUser = '''', fl_history = None, fl_turnSecret = '''', fl_turnURL = '''', fl_stunURL = '''',
     fl_oidcIssuer = '''', fl_oidcAudience = '''', fl_oidcJWKSURL = '''', fl_oidcJWKSFile = None\<rparr>"

definition demo_boot :: "broker option" where
  "demo_boot = boot (\<lambda>_. Inl TooShort) demo_env ''u1'' ''u2'' demo_flags (TableStore (us_New ''pepper''))"

definition demo_register :: control where
  "demo_register = (control_of MsgRegister)\<lparr>c_Token := ''node'', c_NodeID := ''x1'', c_Region := ''eu'', c_Capacity := 2\<rparr>"

definition demo_connect :: control where
  "demo_connect = (control_of MsgConnect)\<lparr>c_Token := ''tok'', c_RequestedRegion := ''eu'', c_ResumeKey := ''k''\<rparr>"

text \<open>The exit is connection 1; the client opens a session on connection 2.\<close>

definition demo_exit :: "sys option" where
  "demo_exit = map_option (\<lambda>b. \<lparr>sy_b = register_exit demo_env 1 demo_register b, sy_clients = [],
     sy_exits = [1], sy_seen = [1]\<rparr>) demo_boot"

definition demo_open :: "sys option" where
  "demo_open = Option.bind demo_exit (sy_open demo_env 2 demo_connect)"

lemma demo_boot_facts:
  obtains b where "demo_boot = Some b" "b_nodeSecret b = ''node''" "booted b"
proof -
  have "(case demo_boot of Some b \<Rightarrow> b_nodeSecret b = ''node'' | None \<Rightarrow> False)"
    by code_simp
  then obtain b where b: "demo_boot = Some b" "b_nodeSecret b = ''node''"
    by (auto split: option.split_asm)
  moreover from b(1) have "booted b" unfolding booted_def demo_boot_def by blast
  ultimately show thesis by (rule that)
qed

lemma demo_exit_run: "\<exists>s. demo_exit = Some s \<and> run s \<and> set (sy_seen s) = {1} \<and> b_nextSession (sy_b s) = 0"
proof -
  obtain b where b: "demo_boot = Some b" "b_nodeSecret b = ''node''" "booted b"
    by (rule demo_boot_facts)
  then have "run \<lparr>sy_b = b, sy_clients = [], sy_exits = [], sy_seen = []\<rparr>" (is "run ?s")
    by (intro reach.reach_start) (auto simp: sys_init_def sys_start_def)
  moreover have "sys_step ?s \<lparr>sy_b = register_exit demo_env 1 demo_register b, sy_clients = [], sy_exits = [1], sy_seen = [1]\<rparr>"
    using sys_step.register [of 1 ?s demo_register demo_env] b by (simp add: demo_register_def)
  moreover have "b_nextSession (register_exit demo_env 1 demo_register b) = 0"
    using booted_fields(6) [OF b(3)] register_exit_core [of demo_env 1 demo_register b] by (simp add: core_def)
  ultimately show ?thesis
    using b by (auto simp: demo_exit_def intro: reach.reach_step)
qed

lemma demo_open_val:
  "map_option (\<lambda>s. (map (sess_lease \<circ> snd) (b_sessions (sy_b s)), b_parked (sy_b s), map snd (sy_clients s),
      b_nextSession (sy_b s), sy_seen s, map_option en_active (mget (b_objs (sy_b s)) 1))) demo_open =
    Some ([(1, Addr4 0x0A630002)], [], [Serving 1 1], 1, [2, 1], Some 1)"
  by code_simp

lemma demo_open_run:
  obtains s e where "demo_open = Some s" "run s" "map (sess_lease \<circ> snd) (b_sessions (sy_b s)) = [(1, Addr4 0x0A630002)]"
    "b_parked (sy_b s) = []" "map snd (sy_clients s) = [Serving 1 1]" "b_nextSession (sy_b s) = 1" "sy_seen s = [2, 1]"
    "mget (b_objs (sy_b s)) 1 = Some e" "en_active e = 1"
proof -
  obtain s where s: "demo_exit = Some s" "run s" "set (sy_seen s) = {1}" "b_nextSession (sy_b s) = 0"
    using demo_exit_run by blast
  have eq: "demo_open = sy_open demo_env 2 demo_connect s" unfolding demo_open_def s(1) by simp
  obtain t where t: "demo_open = Some t" using demo_open_val by (cases demo_open) simp_all
  have "sys_step\<^sup>*\<^sup>* s t"
    by (rule sy_open_steps [OF t [unfolded eq]]) (simp_all add: s)
  with s(2) have "run t" by (rule run_steps)
  moreover obtain e where "mget (b_objs (sy_b t)) 1 = Some e" "en_active e = 1"
    using demo_open_val unfolding t by auto
  ultimately show thesis
    using demo_open_val unfolding t by (intro that [OF t, of e]) simp_all
qed

section \<open>Properties of all runs\<close>

text \<open>
  C3: the broker refines the lease specification. In every run, whatever the interleaving of its
  goroutines, the sessions it holds (live, parked or being opened), the addresses taken from the pool
  and the last id given out form a state the specification reaches: ids increase, an address is given
  only when free, and only the session that holds it gives it back.
\<close>

theorem broker_refines_leases:
  "reach sys_init sys_step s \<Longrightarrow> reach lease_start (lease_step vpn_addrs) (lease_abs s)"
  by (rule broker_sys.reach_abs)

theorem broker_refines_leases_witness:
  "\<exists>s. demo_open = Some s \<and> reach lease_start (lease_step vpn_addrs) (lease_abs s) \<and>
     ls_held (lease_abs s) = {#(1, Addr4 0x0A630002)#} \<and> ls_last (lease_abs s) = 1"
proof -
  obtain s where s: "demo_open = Some s" "run s" "map (sess_lease \<circ> snd) (b_sessions (sy_b s)) = [(1, Addr4 0x0A630002)]"
    "b_parked (sy_b s) = []" "map snd (sy_clients s) = [Serving 1 1]" "b_nextSession (sy_b s) = 1"
    by (rule demo_open_run)
  have "image_mset sess_lease (mvals (b_sessions (sy_b s))) = {#(1, Addr4 0x0A630002)#}"
    using arg_cong [OF s(3), of mset] by (simp add: mvals_def multiset.map_comp)
  then have "ls_held (lease_abs s) = {#(1, Addr4 0x0A630002)#}" "ls_last (lease_abs s) = 1"
    by (simp_all add: lease_abs_def held_def s(4,6) mvals_def [of "sy_clients s"] s(5) del: mset_map)
  with broker_refines_leases [OF s(2)] s(1) show ?thesis by blast
qed

definition live_sessions :: "broker \<Rightarrow> client_session list" where
  "live_sessions b = map snd (b_sessions b) @ map snd (b_parked b)"

text \<open>
  C2: no two sessions of the broker, live or parked, ever share a session id or a VPN address; every
  address is one of 10.99.0.2 to 10.99.0.254; and there are never more than 253 of them.
\<close>

theorem sessions_disjoint:
  assumes "reach sys_init sys_step s"
  shows "distinct (map s_id (live_sessions (sy_b s))) \<and> distinct (map s_clientAddr (live_sessions (sy_b s))) \<and>
    s_clientAddr ` set (live_sessions (sy_b s)) \<subseteq> a4 ` {0x0A630002..0x0A6300FE} \<and>
    length (live_sessions (sy_b s)) \<le> 253"
proof -
  let ?L = "live_sessions (sy_b s)"
  have ok: "lease_ok vpn_addrs (lease_abs s)"
    using broker_sys.reach_holds [OF assms] by (simp add: sys_ok_def)
  have sub: "mset (map sess_lease ?L) \<subseteq># held s"
    by (simp add: held_def live_sessions_def mvals_def multiset.map_comp)
  then have sub': "mset (map f (map sess_lease ?L)) \<subseteq># image_mset f (held s)" for f :: "nat \<times> addr \<Rightarrow> 'b"
    using image_mset_subseteq_mono by (metis mset_map)
  have dist: "distinct (map f (map sess_lease ?L))" if "mdistinct (image_mset f (held s))" for f :: "nat \<times> addr \<Rightarrow> 'b"
    using mdistinct_sub [OF that sub'] unfolding mdistinct_mset .
  have "distinct (map fst (map sess_lease ?L))" "distinct (map snd (map sess_lease ?L))"
    by (rule dist, use ok in \<open>simp add: lease_ok_def lease_abs_def\<close>)+
  moreover have "snd ` set_mset (held s) \<subseteq> vpn_addrs"
    using ok by (force simp: lease_ok_def lease_abs_def)
  then have "snd ` set (map sess_lease ?L) \<subseteq> vpn_addrs"
    using set_mset_mono [OF sub] by (metis (no_types) image_mono order_trans set_mset_mset)
  then have "s_clientAddr ` set ?L \<subseteq> vpn_addrs"
    by (simp add: sess_lease_def image_image)
  moreover have "length ?L \<le> size (held s)"
    using size_mset_mono [OF sub] by simp
  moreover have "size (held s) \<le> 253"
    using lease_bound [OF ok vpn_addrs_card(1)] vpn_addrs_card(2) by (simp add: lease_abs_def)
  ultimately show ?thesis
    by (simp add: sess_lease_def comp_def vpn_addrs_range distinct_map inj_on_def)
qed

theorem sessions_disjoint_witness:
  "\<exists>s. demo_open = Some s \<and> map s_clientAddr (live_sessions (sy_b s)) = [Addr4 0x0A630002] \<and>
     distinct (map s_clientAddr (live_sessions (sy_b s)))"
proof -
  obtain s where s: "demo_open = Some s" "run s" "map (sess_lease \<circ> snd) (b_sessions (sy_b s)) = [(1, Addr4 0x0A630002)]"
    "b_parked (sy_b s) = []"
    by (rule demo_open_run)
  have "map s_clientAddr (live_sessions (sy_b s)) = [Addr4 0x0A630002]"
    using s(3) by (auto simp: live_sessions_def s(4) sess_lease_def)
  with sessions_disjoint [OF s(2)] s(1) show ?thesis by (metis (no_types))
qed

text \<open>
  C13: the load of an exit is exact. In every run the counter of each registered exit is the number of
  live sessions on its connection less those whose handler has inserted but not yet counted them; so
  it is never negative, and it is the number of live sessions whenever no handler is in between.
\<close>

theorem exit_load_exact:
  assumes "reach sys_init sys_step s" and "mget (b_objs (sy_b s)) c = Some e"
  shows "en_active e + int (length (filter (\<lambda>(k, pc). pc_waits c pc) (sy_clients s))) =
      int (length (filter (\<lambda>(k, x). s_exitConn x = c) (b_sessions (sy_b s))))"
proof -
  from assms(1) have st: "struct_ok vpn_addrs s"
    using broker_sys.reach_holds by (simp add: sys_ok_def)
  have "obj (sy_b s) c = Some (en_nodeID e, en_conn e, en_active e)"
    using assms(2) by (simp add: obj_def okey_def)
  from objD(3) [OF st this]
  have "en_active e + int (waiting c (sy_clients s)) = int (n_on c (b_sessions (sy_b s)))" .
  moreover have "waiting c (sy_clients s) = length (filter (\<lambda>(k, pc). pc_waits c pc) (sy_clients s))"
    by (simp add: waiting_def size_filter_mvals)
  moreover have "n_on c (b_sessions (sy_b s)) = length (filter (\<lambda>(k, x). s_exitConn x = c) (b_sessions (sy_b s)))"
    by (simp add: n_on_def size_filter_mvals)
  ultimately show ?thesis by simp
qed

theorem exit_load_exact_witness:
  "\<exists>s e. demo_open = Some s \<and> mget (b_objs (sy_b s)) 1 = Some e \<and> en_active e = 1 \<and>
     length (filter (\<lambda>(k, x). s_exitConn x = 1) (b_sessions (sy_b s))) = 1"
proof -
  obtain s e where s: "demo_open = Some s" "run s" "map snd (sy_clients s) = [Serving 1 1]"
    "mget (b_objs (sy_b s)) 1 = Some e" "en_active e = 1"
    by (rule demo_open_run)
  then have "filter (\<lambda>(k, pc). pc_waits 1 pc) (sy_clients s) = []"
    by (cases "sy_clients s") auto
  with exit_load_exact [OF s(2,4)] s(5)
  have "length (filter (\<lambda>(k, x). s_exitConn x = 1) (b_sessions (sy_b s))) = 1" by simp
  with s(1,4,5) show ?thesis by blast
qed

text \<open>
  C33: a resume key parked twice loses an address for good. When a session is dropped while another one
  is parked under the same key, the parked one disappears: its address stays taken, and no later step
  of any run gives that address to a session or frees it.
\<close>

theorem resume_key_collision_leaks:
  assumes "reach sys_init sys_step s" and c: "mget (sy_clients s) c = Some (Serving sid ex)"
    and x: "mget (b_sessions (sy_b s)) sid = Some x" and old: "mget (b_parked (sy_b s)) (s_resumeKey x) = Some old"
    and cause: "\<not> clientClosedIntentionally cause" and ttl: "0 < b_resumeTTL (sy_b s)"
    and t: "t = s\<lparr>sy_b := suspendSession env sid ex (clientClosedIntentionally cause) (sy_b s), sy_clients := mdel (sy_clients s) c\<rparr>"
    and u: "sys_step\<^sup>*\<^sup>* t u"
  shows "s_clientAddr old \<in> p_used (b_ipPool (sy_b u)) \<and> s_clientAddr old \<notin> s_clientAddr ` set (live_sessions (sy_b u)) \<and>
    (\<forall>msg usr e i. (c', Leased msg usr e i (s_clientAddr old)) \<notin> set (sy_clients u))"
proof -
  from assms(1) have ok: "sys_ok vpn_addrs s" by (rule broker_sys.reach_holds)
  then have st: "struct_ok vpn_addrs s" and lok: "lease_ok vpn_addrs (lease_abs s)" by (simp_all add: sys_ok_def)
  have "parks (clientClosedIntentionally cause) x (sy_b s)"
    using cause ttl parkD [OF st old] by (simp add: parks_def)
  note core = suspendSession_park [OF x this, of env ex]
  have held: "held s = add_mset (sess_lease old) (held t)"
    unfolding t by (rule held_park_collision [OF st c x old core])
  have "p_used (b_ipPool (sy_b t)) = p_used (b_ipPool (sy_b s))"
    using core_eqD(5) [OF core] by (simp add: t)
  with lok held have orph: "orphaned (s_clientAddr old) (lease_abs t)"
    by (auto simp: lease_ok_def lease_abs_def orphaned_def sess_lease_def)
  have "run t" unfolding t by (rule reach.reach_step [OF assms(1) sys_step.drop [OF c]])
  from u have "run u \<and> orphaned (s_clientAddr old) (lease_abs u)"
  proof (induction rule: rtranclp_induct)
    case base
    show ?case using \<open>run t\<close> orph by blast
  next
    case (step v w)
    then have "lease_abs w = lease_abs v \<or> lease_step vpn_addrs (lease_abs v) (lease_abs w)"
      using broker_sys.abs_step broker_sys.reach_holds by blast
    with step show ?case using orphaned_step by (metis reach.reach_step)
  qed
  then have "s_clientAddr old \<in> p_used (b_ipPool (sy_b u))" and no: "s_clientAddr old \<notin> snd ` set_mset (held u)"
    by (simp_all add: orphaned_def lease_abs_def)
  moreover have "sess_lease ` set (live_sessions (sy_b u)) \<subseteq> set_mset (held u)"
    by (auto simp: live_sessions_def held_def mvals_def)
  then have "s_clientAddr old \<notin> s_clientAddr ` set (live_sessions (sy_b u))"
    using no by (force simp: sess_lease_def)
  moreover have "(c', Leased msg usr e i (s_clientAddr old)) \<notin> set (sy_clients u)" for msg usr e i
  proof
    assume "(c', Leased msg usr e i (s_clientAddr old)) \<in> set (sy_clients u)"
    then have "(unat i, s_clientAddr old) \<in># held u"
      by (force simp: held_def mvals_def)
    then show False using no by force
  qed
  ultimately show ?thesis by blast
qed

text \<open>
  A run that does it: the client connects again before the broker has noticed that its first
  connection is gone, so both sessions carry the same key; then the first connection times out, and the
  second one drops.
\<close>

definition sy_drop :: "broker_env \<Rightarrow> conn \<Rightarrow> sys \<Rightarrow> sys option" where
  "sy_drop env c s =
    (case mget (sy_clients s) c of
       Some (Serving sid ex) \<Rightarrow>
         Some (s\<lparr>sy_b := suspendSession env sid ex (clientClosedIntentionally OtherClose) (sy_b s),
                 sy_clients := mdel (sy_clients s) c\<rparr>)
     | _ \<Rightarrow> None)"

lemma sy_drop_step: "sy_drop env c s = Some t \<Longrightarrow> sys_step s t"
  using sys_step.drop [where cause = OtherClose]
  by (auto simp: sy_drop_def split: option.splits client_pc.splits)

definition demo_twice :: "sys option" where
  "demo_twice = Option.bind demo_open (\<lambda>s. Option.bind (sy_open demo_env 3 demo_connect s) (sy_drop demo_env 2))"

lemma demo_twice_val:
  "map_option (\<lambda>s. (map (\<lambda>(k, x). (k, s_resumeKey x, s_clientAddr x)) (b_sessions (sy_b s)),
      map (\<lambda>(k, x). (k, s_id x, s_clientAddr x)) (b_parked (sy_b s)), sy_clients s, b_resumeTTL (sy_b s))) demo_twice =
    Some ([(2, ''k'', Addr4 0x0A630003)], [(''k'', 1, Addr4 0x0A630002)], [(3, Serving 2 1)], hour)"
  by code_simp

lemma demo_twice_run: "demo_twice = Some u \<Longrightarrow> run u"
proof -
  assume u: "demo_twice = Some u"
  obtain s where s: "demo_open = Some s" "run s" "b_nextSession (sy_b s) = 1" "sy_seen s = [2, 1]"
    by (rule demo_open_run)
  from u obtain t where t: "sy_open demo_env 3 demo_connect s = Some t" "sy_drop demo_env 2 t = Some u"
    unfolding demo_twice_def s(1) by (auto simp: bind_eq_Some_conv)
  have "sys_step\<^sup>*\<^sup>* s t"
    by (rule sy_open_steps [OF t(1)]) (simp_all add: s)
  with s(2) have "run t" by (rule run_steps)
  then show "run u" using sy_drop_step [OF t(2)] by (rule reach.reach_step)
qed

theorem resume_key_collision_leaks_witness:
  "\<exists>s t. demo_twice = Some s \<and> sy_drop demo_env 3 s = Some t \<and> Addr4 0x0A630002 \<in> p_used (b_ipPool (sy_b t)) \<and>
     Addr4 0x0A630002 \<notin> s_clientAddr ` set (live_sessions (sy_b t))"
proof -
  obtain s where s: "demo_twice = Some s" using demo_twice_val by (cases demo_twice) simp_all
  obtain x y where m: "mget (b_sessions (sy_b s)) 2 = Some x" "s_resumeKey x = ''k''"
    "mget (b_parked (sy_b s)) ''k'' = Some y" "s_clientAddr y = Addr4 0x0A630002"
    and c: "mget (sy_clients s) 3 = Some (Serving 2 1)" "b_resumeTTL (sy_b s) = hour"
    using demo_twice_val unfolding s by (auto simp: mget_Cons)
  let ?t = "s\<lparr>sy_b := suspendSession demo_env 2 1 (clientClosedIntentionally OtherClose) (sy_b s),
    sy_clients := mdel (sy_clients s) 3\<rparr>"
  have t: "sy_drop demo_env 3 s = Some ?t" by (simp add: sy_drop_def c)
  have "\<not> clientClosedIntentionally OtherClose" by (simp add: clientClosedIntentionally_def)
  from resume_key_collision_leaks [OF demo_twice_run [OF s] c(1) m(1) _ this _ refl rtranclp.rtrancl_refl, of y] m c(2)
  have "Addr4 0x0A630002 \<in> p_used (b_ipPool (sy_b ?t)) \<and> Addr4 0x0A630002 \<notin> s_clientAddr ` set (live_sessions (sy_b ?t))"
    by simp
  with s t show ?thesis by blast
qed

text \<open>
  C23: a parked session does not stay for ever. In every run each parked session has its expiry timer
  armed for the end of the resume window; when the timer fires, the session is gone, its address is
  free again, and the exit registered for its node is told.
\<close>

theorem parked_session_expires:
  assumes "reach sys_init sys_step s" and x: "mget (b_parked (sy_b s)) key = Some x"
    and t: "t = s\<lparr>sy_b := expirePark env key (s_id x) (sy_b s)\<rparr>"
  shows "s_suspendTimer x = Some (s_parkedAt x + b_resumeTTL (sy_b s)) \<and> sys_step s t \<and>
    mget (b_parked (sy_b t)) key = None \<and> s_clientAddr x \<notin> p_used (b_ipPool (sy_b t)) \<and>
    (\<forall>ex. mget (b_exits (sy_b s)) (s_nodeID x) = Some ex \<and> be_writable env ex \<longrightarrow>
      Wrote ex ((control_of MsgSessionEnd)\<lparr>c_SessionID := s_id x\<rparr>) \<in> set (b_out (sy_b t)))"
proof -
  from assms(1) have st: "struct_ok vpn_addrs s"
    using broker_sys.reach_holds by (simp add: sys_ok_def)
  note p = parkD [OF st x]
  have "core (sy_b t) = core ((sy_b s)\<lparr>b_parked := mdel (b_parked (sy_b s)) key,
      b_ipPool := Release (s_clientAddr x) (b_ipPool (sy_b s))\<rparr>)"
    by (simp add: t expirePark_core x p)
  note eqs = core_eqD [OF this, simplified]
  have "Wrote ex ((control_of MsgSessionEnd)\<lparr>c_SessionID := s_id x\<rparr>) \<in> set (b_out (sy_b t))"
    if "mget (b_exits (sy_b s)) (s_nodeID x) = Some ex" "be_writable env ex" for ex
    using that by (simp add: t expirePark_def x p Let_def publish_def track_def cw_write_def)
  then show ?thesis
    using p sys_step.expire [of s env key "s_id x"] by (simp add: eqs t [symmetric])
qed

theorem parked_session_expires_witness:
  "\<exists>s x. demo_twice = Some s \<and> mget (b_parked (sy_b s)) ''k'' = Some x \<and>
     s_clientAddr x \<notin> p_used (b_ipPool (expirePark demo_env ''k'' (s_id x) (sy_b s)))"
proof -
  obtain s where s: "demo_twice = Some s" using demo_twice_val by (cases demo_twice) simp_all
  obtain x where x: "mget (b_parked (sy_b s)) ''k'' = Some x"
    using demo_twice_val unfolding s by (auto simp: mget_Cons)
  from parked_session_expires [OF demo_twice_run [OF s] x refl, of demo_env]
  have "s_clientAddr x \<notin> p_used (b_ipPool (expirePark demo_env ''k'' (s_id x) (sy_b s)))" by simp
  with s x show ?thesis by blast
qed

section \<open>Capacity\<close>

definition sy_resume :: "broker_env \<Rightarrow> conn \<Rightarrow> control \<Rightarrow> sys \<Rightarrow> sys option" where
  "sy_resume env c msg s =
    (case client_begin env c msg (sy_b s) of
       (Resumed sid ex, b) \<Rightarrow>
         Some (s\<lparr>sy_b := active_add ex 1 b, sy_clients := mput (sy_clients s) c (Starting sid ex), sy_seen := c # sy_seen s\<rparr>)
     | _ \<Rightarrow> None)"

lemma sy_resume_steps:
  assumes "sy_resume env c msg s = Some t" and c: "c \<notin> set (sy_seen s)"
  shows "sys_step\<^sup>*\<^sup>* s t"
proof -
  obtain b0 cl xs sn where s: "s = \<lparr>sy_b = b0, sy_clients = cl, sy_exits = xs, sy_seen = sn\<rparr>" by (cases s)
  from assms(1) obtain sid ex b where r: "client_begin env c msg (sy_b s) = (Resumed sid ex, b)" and
    t: "t = s\<lparr>sy_b := active_add ex 1 b, sy_clients := mput (sy_clients s) c (Starting sid ex), sy_seen := c # sy_seen s\<rparr>"
    by (auto simp: sy_resume_def split: prod.splits begun.splits)
  let ?r = "s\<lparr>sy_b := b, sy_clients := mput (sy_clients s) c (Counting sid ex True), sy_seen := c # sy_seen s\<rparr>"
  have "sys_step s ?r" by (rule sys_step.resume [OF c r])
  moreover have "sys_step ?r t"
    using sys_step.count_resumed [of ?r c sid ex] by (simp add: s t)
  ultimately show ?thesis by simp
qed

text \<open>The second client, with a key of its own, fills the exit; then the parked session comes back.\<close>

definition demo_over :: "sys option" where
  "demo_over = Option.bind demo_twice (\<lambda>s. Option.bind (sy_open demo_env 4 (demo_connect\<lparr>c_ResumeKey := ''''\<rparr>) s)
     (sy_resume demo_env 5 demo_connect))"

lemma demo_over_val:
  "map_option (\<lambda>s. map_option (\<lambda>e. (en_active e, en_capacity e)) (mget (b_objs (sy_b s)) 1)) demo_over = Some (Some (3, 2))"
  "map_option (\<lambda>s. (b_nextSession (sy_b s), sy_seen s)) demo_twice = Some (2, [3, 2, 1])"
  "map_option sy_seen (Option.bind demo_twice (sy_open demo_env 4 (demo_connect\<lparr>c_ResumeKey := ''''\<rparr>))) = Some [4, 3, 2, 1]"
  by code_simp+

lemma demo_over_run: "demo_over = Some u \<Longrightarrow> run u"
proof -
  assume u: "demo_over = Some u"
  obtain s where s: "demo_twice = Some s" "b_nextSession (sy_b s) = 2" "sy_seen s = [3, 2, 1]"
    using demo_over_val(2) by (auto simp: map_option_eq_Some)
  from u obtain t where t: "sy_open demo_env 4 (demo_connect\<lparr>c_ResumeKey := ''''\<rparr>) s = Some t"
    "sy_resume demo_env 5 demo_connect t = Some u"
    unfolding demo_over_def s(1) by (auto simp: bind_eq_Some_conv)
  have seen: "sy_seen t = [4, 3, 2, 1]"
    using demo_over_val(3) unfolding s(1) by (simp add: t(1))
  have "sys_step\<^sup>*\<^sup>* s t"
    by (rule sy_open_steps [OF t(1)]) (simp_all add: s)
  moreover have "sys_step\<^sup>*\<^sup>* t u"
    by (rule sy_resume_steps [OF t(2)]) (simp add: seen)
  ultimately show "run u"
    using demo_twice_run [OF s(1)] by (meson run_steps)
qed


end
