(* ===== verification/BrokerSeq.thy ===== *)
theory BrokerSeq
  imports BrokerRuns
begin

text \<open>
  What one activation of a broker handler does: who is admitted and to which exit, what a resume gives
  back, where a datagram goes, what happens when an exit leaves.
\<close>

section \<open>Admission\<close>

text \<open>The broker's store is a user registry, whichever backend is behind it.\<close>

fun store_users :: "user_store \<Rightarrow> user set" where
  "store_users (TableStore t) = (ur_User \<circ> snd) ` set (tb_byID t)"
| "store_users (SqlStore s) = ur_User ` set (sq_rows s)"

interpretation store_reg: user_registry
  "\<lambda>st token region. st_AuthenticateForRegion env token region st"
  "\<lambda>st name region. st_AuthorizeUser env name region st" store_users
  for env
proof unfold_locales
  show "st_AuthenticateForRegion env token region st = Inr u \<Longrightarrow> u \<in> store_users st \<and> admit u region = Inr u"
    for st token region u
    using table_reg.authenticate_user [of "be_hmac env" token region] sql_reg.authenticate_user [of "be_hmac env" "be_db_ok env" token region]
    by (cases st) (auto simp: st_AuthenticateForRegion_def)
  show "st_AuthenticateForRegion env '''' region st = Inl ErrBadToken" for st region
    by (cases st) (simp_all add: st_AuthenticateForRegion_def table_reg.authenticate_empty sql_reg.authenticate_empty)
  show "st_AuthorizeUser env name region st = Inr u \<Longrightarrow>
      u \<in> store_users st \<and> u_Username u = name \<and> admit u region = Inr u" for st name region u
    using table_reg.authorize_user [of name region] sql_reg.authorize_user [of "be_db_ok env" name region]
    by (cases st) (auto simp: st_AuthorizeUser_def)
qed

lemma client_auth_user:
  assumes "client_auth env msg b = (Inr u, b')"
  shows "u \<in> store_users (b_users b) \<and> u_Status u = UserEnabled \<and>
    (''*'' \<in> set (u_AllowedRegions u) \<or> c_RequestedRegion msg \<in> set (u_AllowedRegions u))"
proof -
  from assms consider token name where
    "st_AuthenticateForRegion env token (c_RequestedRegion msg) (b_users b) = Inr u \<or>
     st_AuthorizeUser env name (c_RequestedRegion msg) (b_users b) = Inr u"
    by (auto simp: client_auth_def Let_def split: option.splits prod.splits sum.splits)
  then show ?thesis by cases (rule store_reg.admitted_policy)
qed

text \<open>In a run, each registered exit is the object of its connection, under its own node id.\<close>

lemma run_exits:
  assumes "run s" and "mget (b_exits (sy_b s)) n = Some c"
  obtains e where "mget (b_objs (sy_b s)) c = Some e" "en_nodeID e = n" "en_conn e = c"
proof -
  have st: "struct_ok vpn_addrs s" using broker_sys.reach_holds [OF assms(1)] by (simp add: sys_ok_def)
  from exitsD [OF st assms(2)] obtain k where "obj (sy_b s) c = Some (n, c, k)" .
  with that show thesis by (auto simp: obj_def okey_def)
qed

lemma run_live_exits:
  assumes "run s" and "e \<in> set (live_exits (sy_b s))"
  shows "mget (b_exits (sy_b s)) (en_nodeID e) = Some (en_conn e)" "mget (b_objs (sy_b s)) (en_conn e) = Some e"
proof -
  have "mwf (b_exits (sy_b s))"
    using broker_sys.reach_holds [OF assms(1)] by (auto simp: sys_ok_def intro: struct_okD)
  with assms(2) obtain n c where nc: "mget (b_exits (sy_b s)) n = Some c" "mget (b_objs (sy_b s)) c = Some e"
    by (auto simp: live_exits_iff mget_iff_in)
  from run_exits [OF assms(1) nc(1)] nc show "mget (b_exits (sy_b s)) (en_nodeID e) = Some (en_conn e)"
    "mget (b_objs (sy_b s)) (en_conn e) = Some e" by (metis option.inject)+
qed

lemma run_named:
  assumes "run s" and "mget (b_exits (sy_b s)) n = Some c" and "mget (b_objs (sy_b s)) c = Some e"
  shows "en_nodeID e = n"
  using run_exits [OF assms(1,2)] assms(3) by (metis option.inject)

lemma client_auth_b: "client_auth env msg b = (r, b') \<Longrightarrow> b' = b\<lparr>b_oidcVerifier := b_oidcVerifier b'\<rparr>"
  by (auto simp: client_auth_def Let_def split: option.splits prod.splits sum.splits)

lemma select_exit_room:
  assumes live: "\<And>e. e \<in> set (live_exits b) \<Longrightarrow>
      mget (b_exits b) (en_nodeID e) = Some (en_conn e) \<and> mget (b_objs b) (en_conn e) = Some e"
    and named: "\<And>n c e. mget (b_exits b) n = Some c \<Longrightarrow> mget (b_objs b) c = Some e \<Longrightarrow> en_nodeID e = n"
    and len: "length (b_exits b) < 2 ^ 64" and sel: "select_exit env msg b = (Inr ex, b')"
  shows "\<exists>e. mget (b_objs b) ex = Some e \<and> en_region e = c_RequestedRegion msg \<and>
    (en_capacity e \<le> 0 \<or> en_active e < en_capacity e) \<and>
    (c_RequestedExit msg \<noteq> '''' \<longrightarrow> en_nodeID e = c_RequestedExit msg)"
proof (cases "c_RequestedExit msg = ''''")
  case False
  with sel obtain e where e: "mget (b_exits b) (c_RequestedExit msg) = Some ex" "mget (b_objs b) ex = Some e"
    "manual_ok (c_RequestedRegion msg) e"
    by (auto simp: select_exit_def split: option.splits if_splits)
  with named [OF e(1,2)] show ?thesis by (auto simp: manual_ok_def)
next
  case True
  let ?cands = "map lb_cand (live_exits b)"
  from sel True obtain i rr where i: "Pick (be_draw env) (b_lbStrategy b) (c_RequestedRegion msg) ?cands (Some (b_rr b)) = (Some i, rr)"
    "mget (b_exits b) i = Some ex"
    by (auto simp: select_exit_def Let_def split: option.splits prod.splits)
  have "length ?cands \<le> length (b_exits b)"
    by (simp add: live_exits_def List.map_filter_def)
  then have "length ?cands < 2 ^ 64" using len by simp
  moreover have "fst (Pick (be_draw env) (b_lbStrategy b) (c_RequestedRegion msg) ?cands (Some (b_rr b))) = Some i"
    using i(1) by simp
  ultimately have "\<exists>n \<in> set ?cands. n_ID n = i \<and> n_Region n = c_RequestedRegion msg \<and>
      (n_Capacity n \<le> 0 \<or> n_Active n < n_Capacity n)"
    by (rule selector.pick_within_capacity)
  then obtain e where e: "e \<in> set (live_exits b)" "en_nodeID e = i" "en_region e = c_RequestedRegion msg"
    "en_capacity e \<le> 0 \<or> en_active e < en_capacity e"
    by (auto simp: lb_cand_def)
  with live [OF e(1)] i(2) True show ?thesis by auto
qed



section \<open>Resuming\<close>

text \<open>
  C8: dropping and reconnecting gives the same session back. When a client with a resume key loses its
  connection and the same user comes back with the key within the resume window, while the node is
  registered, the broker resumes that very session: same id, same address, on the new connection and on
  the node's current exit; nothing is taken from or given to the pool; and the client is told its
  session id and address.
\<close>

theorem resume_roundtrip:
  assumes x: "mget (b_sessions b) sid = Some x" "s_id x = sid" "s_resumeKey x \<noteq> ''''" and ttl: "0 < b_resumeTTL b"
    and exit: "mget (b_exits b) (s_nodeID x) = Some ex'"
    and b1: "b1 = suspendSession env1 sid ex False b"
    and auth: "client_auth env2 msg b1 = (Inr u, b2)" "u_Username u = s_username x"
    and msg: "\<not> c_ListExits msg" "c_ResumeKey msg = s_resumeKey x"
    and soon: "be_now env2 - be_now env1 < b_resumeTTL b"
  shows "\<exists>b3 y m. client_begin env2 c' msg b1 = (Resumed sid ex', b3) \<and> mget (b_sessions b3) sid = Some y \<and>
    s_id y = sid \<and> s_clientAddr y = s_clientAddr x \<and> s_clientConn y = c' \<and> s_exitConn y = ex' \<and> \<not> s_suspended y \<and>
    mget (b_parked b3) (s_resumeKey x) = None \<and> b_ipPool b3 = b_ipPool b \<and>
    c_Type m = MsgConnectOK \<and> c_SessionID m = sid \<and> c_ClientIP m = s_clientIP x \<and>
    (be_writable env3 ex' \<and> be_writable env3 c' \<longrightarrow>
      Wrote c' m \<in> set (b_out (snd (run_start env3 c' sid ex' (active_add ex' 1 b3)))))"
proof -
  have "parks False x b" using x ttl by (simp add: parks_def)
  note core = suspendSession_park [OF x(1) this, of env1 ex]
  note eqs = core_eqD [OF core, folded b1, simplified]
  obtain v where v: "b2 = b1\<lparr>b_oidcVerifier := v\<rparr>" using client_auth_b [OF auth(1)] by blast
  define y where "y = (parked_form env1 b x)\<lparr>s_suspendTimer := None, s_suspended := False, s_clientConn := c', s_exitConn := ex'\<rparr>"
  define b3 where "b3 = b2\<lparr>b_parked := mdel (b_parked b2) (s_resumeKey x), b_sessions := mput (b_sessions b2) sid y\<rparr>"
  have y: "s_id y = sid" "s_clientAddr y = s_clientAddr x" "s_clientConn y = c'" "s_exitConn y = ex'" "\<not> s_suspended y"
    "s_clientIP y = s_clientIP x"
    using x(2) by (simp_all add: y_def parked_form_def)
  have "tryResume env2 (s_resumeKey x) (s_username x) c' b2 = (Some (sid, ex'), b3)"
    using x(2) exit soon by (simp add: tryResume_def v eqs parked_form_def b3_def y_def)
  then have begun: "client_begin env2 c' msg b1 = (Resumed sid ex', b3)"
    using auth msg x(3) by (simp add: client_begin_def)
  have b3: "mget (b_sessions b3) sid = Some y" "mget (b_parked b3) (s_resumeKey x) = None" "b_ipPool b3 = b_ipPool b"
    by (simp_all add: b3_def v eqs)
  let ?b4 = "active_add ex' 1 b3"
  define m where "m = session_msg env3 MsgConnectOK y (cw_write env3 ex' (session_msg env3 MsgSessionStart y ?b4) ?b4)"
  have m: "c_Type m = MsgConnectOK" "c_SessionID m = sid" "c_ClientIP m = s_clientIP x"
    using y by (simp_all add: m_def session_msg_def turn_fields_def split: prod.split)
  have "Wrote c' m \<in> set (b_out (snd (run_start env3 c' sid ex' ?b4)))"
    if "be_writable env3 ex' \<and> be_writable env3 c'"
    using that b3(1) by (simp add: run_start_def Let_def publish_def cw_write_def m_def)
  with begun b3 y m show ?thesis by blast
qed

lemma demo_resume_val:
  "map_option (\<lambda>s. (map (\<lambda>(k, x). (k, s_id x, s_resumeKey x, s_nodeID x, s_username x)) (b_sessions (sy_b s)),
      b_resumeTTL (sy_b s), b_exits (sy_b s),
      case fst (client_auth demo_env demo_connect (suspendSession demo_env 1 1 False (sy_b s))) of
        Inr u \<Rightarrow> u_Username u | Inl e \<Rightarrow> '''')) demo_open =
    Some ([(1, 1, ''k'', ''x1'', ''seed'')], hour, [(''x1'', 1)], ''seed'')"
  by code_simp

theorem resume_roundtrip_witness:
  "\<exists>s b3 y. demo_open = Some s \<and>
     client_begin demo_env 7 demo_connect (suspendSession demo_env 1 1 False (sy_b s)) = (Resumed 1 1, b3) \<and>
     mget (b_sessions b3) 1 = Some y \<and> s_clientConn y = 7 \<and> b_ipPool b3 = b_ipPool (sy_b s)"
proof -
  obtain s where s: "demo_open = Some s" using demo_resume_val by (cases demo_open) simp_all
  let ?b1 = "suspendSession demo_env 1 1 False (sy_b s)"
  obtain x where x: "mget (b_sessions (sy_b s)) 1 = Some x" "s_id x = 1" "s_resumeKey x = ''k''" "s_nodeID x = ''x1''"
    "s_username x = ''seed''" and b: "b_resumeTTL (sy_b s) = hour" "b_exits (sy_b s) = [(''x1'', 1)]"
    and a: "(case fst (client_auth demo_env demo_connect ?b1) of Inr u \<Rightarrow> u_Username u | Inl e \<Rightarrow> '''') = ''seed''"
    using demo_resume_val unfolding s by (auto simp: mget_Cons)
  obtain u b2 where u: "client_auth demo_env demo_connect ?b1 = (Inr u, b2)" "u_Username u = ''seed''"
    using a by (cases "client_auth demo_env demo_connect ?b1") (auto split: sum.splits)
  have nonempty: "s_resumeKey x \<noteq> ''''" "0 < b_resumeTTL (sy_b s)" "be_now demo_env - be_now demo_env < b_resumeTTL (sy_b s)"
    "u_Username u = s_username x" "mget (b_exits (sy_b s)) (s_nodeID x) = Some 1" "\<not> c_ListExits demo_connect"
    "c_ResumeKey demo_connect = s_resumeKey x"
    using x b u by (simp_all add: mget_Cons demo_connect_def control_of_def)
  from resume_roundtrip [OF x(1,2) nonempty(1,2,5) refl u(1) nonempty(4,6,7,3), of 7 demo_env] s
  show ?thesis by blast
qed

section \<open>Relaying\<close>

text \<open>Where a datagram that arrives on a connection goes: the reference definition of the relay.\<close>

definition route :: "(u64, client_session) gomap \<Rightarrow> conn \<Rightarrow> bytes \<Rightarrow> broker_effect list" where
  "route m c dg =
    (case DecodeDatagram dg of
       Inr (sid, pkt) \<Rightarrow>
         (case mget m sid of
            Some x \<Rightarrow> [SentDatagram (if c = s_exitConn x then s_clientConn x else s_exitConn x) dg]
          | None \<Rightarrow> [])
     | Inl _ \<Rightarrow> [])"

lemma relay_datagram_route: "b_out (relay_datagram env c dg b) = b_out b @ route (b_sessions b) c dg"
  by (auto simp: relay_datagram_def route_def effect_def track_def Let_def split: sum.split option.split)


section \<open>Exits that leave\<close>

lemma failExit_out:
  "b_out (failExit env e b) = b_out b @ concat (map (\<lambda>x. (if be_writable env (s_clientConn x)
      then [Wrote (s_clientConn x) (error_msg (''exit node '' @ en_nodeID e @ '' disconnected; please reconnect''))] else []) @
      [ClosedConn (s_clientConn x)]) (filter (\<lambda>x. s_nodeID x = en_nodeID e) (map snd (b_sessions b))))"
proof -
  have "b_out (fold (fail_session env e) xs b') = b_out b' @ concat (map (\<lambda>x. (if be_writable env (s_clientConn x)
      then [Wrote (s_clientConn x) (error_msg (''exit node '' @ en_nodeID e @ '' disconnected; please reconnect''))] else []) @
      [ClosedConn (s_clientConn x)]) xs)" for xs b'
    by (induction xs arbitrary: b') (simp_all add: fail_session_def effect_def cw_write_def)
  then show ?thesis by (simp add: failExit_def)
qed

lemma closed_conns:
  "ClosedConn d \<in> set (concat (map (\<lambda>x. (if P x then [Wrote (s_clientConn x) m] else []) @ [ClosedConn (s_clientConn x)]) xs)) \<longleftrightarrow>
    d \<in> s_clientConn ` set xs"
  by (induction xs) auto

text \<open>
  C31: when the control stream of an exit ends, the broker takes its node id out of the registry and
  closes the connection of exactly the clients whose sessions are on that node id, after telling
  them; the sessions and their leases are left to the clients' own handlers.
\<close>

theorem exit_gone_effects:
  assumes "mget (b_objs b) c = Some e"
  shows "b_exits (exit_gone env c b) = mdel (b_exits b) (en_nodeID e) \<and>
    b_sessions (exit_gone env c b) = b_sessions b \<and> b_ipPool (exit_gone env c b) = b_ipPool b \<and>
    (\<exists>new. b_out (exit_gone env c b) = b_out b @ new \<and>
      (\<forall>d. ClosedConn d \<in> set new \<longleftrightarrow> (\<exists>k x. (k, x) \<in> set (b_sessions b) \<and> s_nodeID x = en_nodeID e \<and> s_clientConn x = d)))"
proof -
  let ?b = "publish ((admin_ev EvNodeDisconnected (be_now env))\<lparr>e_NodeID := en_nodeID e\<rparr>)
    (track (NodeDown (be_now env) (en_nodeID e)) (b\<lparr>b_exits := mdel (b_exits b) (en_nodeID e)\<rparr>))"
  have eq: "exit_gone env c b = failExit env e ?b" by (simp add: exit_gone_def assms Let_def)
  have "b_out ?b = b_out b" by (simp add: publish_def track_def)
  moreover have "b_sessions ?b = b_sessions b" by simp
  ultimately have "\<exists>new. b_out (exit_gone env c b) = b_out b @ new \<and>
      (\<forall>d. ClosedConn d \<in> set new \<longleftrightarrow> (\<exists>k x. (k, x) \<in> set (b_sessions b) \<and> s_nodeID x = en_nodeID e \<and> s_clientConn x = d))"
    unfolding eq failExit_out by (intro exI conjI) (simp, simp only: closed_conns, force)
  moreover have "core (exit_gone env c b) = core (b\<lparr>b_exits := mdel (b_exits b) (en_nodeID e)\<rparr>)"
    by (simp add: exit_gone_core assms)
  note core_eqD [OF this, simplified]
  ultimately show ?thesis by simp
qed

theorem exit_gone_effects_witness:
  "\<exists>s e. demo_open = Some s \<and> mget (b_objs (sy_b s)) 1 = Some e \<and>
     b_sessions (exit_gone demo_env 1 (sy_b s)) = b_sessions (sy_b s)"
proof -
  obtain s e where s: "demo_open = Some s" "mget (b_objs (sy_b s)) 1 = Some e"
    by (rule demo_open_run)
  with exit_gone_effects [OF s(2), of demo_env] show ?thesis by blast
qed

text \<open>
  C34: the teardown of a replaced connection unregisters its successor. An exit that reconnects before
  the broker has noticed the loss of its first connection is registered again under its node id; when
  the first connection's handler then ends, it removes the node id, and there is a run in which the
  new connection is being served while no exit is registered at all.
\<close>

theorem stale_exit_unregisters_successor:
  "\<exists>s. reach sys_init sys_step s \<and> sy_exits s = [3] \<and> mget (b_objs (sy_b s)) 3 \<noteq> None \<and> b_exits (sy_b s) = []"
proof -
  obtain b where b: "demo_boot = Some b" "b_nodeSecret b = ''node''" "booted b"
    by (rule demo_boot_facts)
  let ?s0 = "\<lparr>sy_b = b, sy_clients = [], sy_exits = [], sy_seen = []\<rparr>"
  let ?b1 = "register_exit demo_env 2 demo_register b"
  let ?s1 = "\<lparr>sy_b = ?b1, sy_clients = [], sy_exits = [2], sy_seen = [2]\<rparr>"
  let ?b2 = "register_exit demo_env 3 demo_register ?b1"
  let ?s2 = "\<lparr>sy_b = ?b2, sy_clients = [], sy_exits = [3, 2], sy_seen = [3, 2]\<rparr>"
  let ?s3 = "\<lparr>sy_b = exit_gone demo_env 2 ?b2, sy_clients = [], sy_exits = [3], sy_seen = [3, 2]\<rparr>"
  have secret: "b_nodeSecret ?b1 = ''node''"
    using b(2) by (simp add: register_exit_def Let_def publish_def track_def cw_write_def)
  have "run ?s0" using b(3) by (intro reach.reach_start) (auto simp: sys_init_def sys_start_def)
  moreover have "sys_step ?s0 ?s1"
    using sys_step.register [of 2 ?s0 demo_register demo_env] b by (simp add: demo_register_def)
  moreover have "sys_step ?s1 ?s2"
    using sys_step.register [of 3 ?s1 demo_register demo_env] secret by (simp add: demo_register_def)
  moreover have "sys_step ?s2 ?s3"
    using sys_step.exit_out [of 2 ?s2 demo_env] by simp
  ultimately have "run ?s3" by (meson reach.reach_step)
  moreover have objs: "obj ?b2 = (obj b)(2 \<mapsto> (''x1'', 2, 0), 3 \<mapsto> (''x1'', 3, 0))"
    and exits: "b_exits ?b2 = [(''x1'', 3)]"
    using register_exit_core [of demo_env 2 demo_register b] register_exit_core [of demo_env 3 demo_register ?b1]
      booted_fields(2) [OF b(3)]
    by (simp_all add: core_def demo_register_def mput_def)
  obtain e where e: "mget (b_objs ?b2) 2 = Some e" "en_nodeID e = ''x1''"
    using fun_cong [OF objs, of 2] by (auto simp: obj_def okey_def)
  have "core (exit_gone demo_env 2 ?b2) = core (?b2\<lparr>b_exits := mdel (b_exits ?b2) ''x1''\<rparr>)"
    by (simp only: exit_gone_core e option.case)
  note eqs = core_eqD [OF this, simplified]
  have "obj (exit_gone demo_env 2 ?b2) 3 \<noteq> None" by (simp add: eqs objs)
  then have "mget (b_objs (exit_gone demo_env 2 ?b2)) 3 \<noteq> None" by (auto simp: obj_def)
  moreover have "b_exits (exit_gone demo_env 2 ?b2) = []" by (simp add: eqs exits mdel_def)
  ultimately show ?thesis by (intro exI [of _ ?s3]) simp
qed

end
