(* ===== verification/DirectPath.thy ===== *)
theory DirectPath
  imports Prelude
begin

text \<open>
  \<^verbatim>\<open>internal/directpath/decision.go\<close> and \<^verbatim>\<open>state.go\<close>: the policy that decides whether a
  session attempts a direct path, and the data-path state machine. Go's string types keep a
  constructor for the values outside the declared constants.
\<close>

section \<open>The decision\<close>

datatype nat_type =
  NATFullCone | NATRestrictedCone | NATPortRestricted | NATSymmetric | NATUnknown | OtherNAT string

datatype mode = ModeAuto | ModeDirect | ModeRelay | OtherMode string

record decision =
  AttemptDirect :: bool
  AllowFallback :: bool
  dec_Mode :: mode
  dec_Reason :: string

definition hard :: "nat_type \<Rightarrow> bool" where
  "hard t = (t = NATSymmetric)"

definition mediumOrHard :: "nat_type \<Rightarrow> bool" where
  "mediumOrHard t = (t = NATSymmetric \<or> t = NATRestrictedCone \<or> t = NATPortRestricted)"

definition punchable :: "nat_type \<Rightarrow> nat_type \<Rightarrow> bool" where
  "punchable a b =
    (if a = NATFullCone \<or> b = NATFullCone then True
     else if a = NATSymmetric \<and> b = NATSymmetric then False
     else if (hard a \<and> mediumOrHard b) \<or> (hard b \<and> mediumOrHard a) then False
     else True)"

definition Decide :: "mode \<Rightarrow> nat_type \<Rightarrow> nat_type \<Rightarrow> decision" where
  "Decide requested natA natC =
    (case requested of
       ModeRelay \<Rightarrow>
         \<lparr>AttemptDirect = False, AllowFallback = False, dec_Mode = ModeRelay,
          dec_Reason = ''relay requested''\<rparr>
     | ModeDirect \<Rightarrow>
         \<lparr>AttemptDirect = True, AllowFallback = False, dec_Mode = ModeRelay,
          dec_Reason = ''direct requested (no fallback)''\<rparr>
     | _ \<Rightarrow>
         if natA = NATUnknown \<or> natC = NATUnknown then
           \<lparr>AttemptDirect = True, AllowFallback = True, dec_Mode = ModeRelay,
            dec_Reason = ''unknown NAT: attempt direct, fall back to relay''\<rparr>
         else if punchable natA natC then
           \<lparr>AttemptDirect = True, AllowFallback = True, dec_Mode = ModeRelay,
            dec_Reason = ''NAT pair punchable: attempt direct''\<rparr>
         else
           \<lparr>AttemptDirect = False, AllowFallback = False, dec_Mode = ModeRelay,
            dec_Reason = ''NAT pair not punchable (symmetric): relay''\<rparr>)"

section \<open>The state machine\<close>

datatype path_state = StateNew | StateRelaying | StateChecking | StateDirect | StateClosed

datatype path_event =
  EvStartRelay | EvBeginChecks | EvDirectEstablished | EvChecksFailed | EvDirectLost | EvClose

datatype transition_error = ErrInvalidTransition path_state path_event

fun transitions :: "path_state \<Rightarrow> path_event \<Rightarrow> path_state option" where
  "transitions StateNew EvStartRelay = Some StateRelaying"
| "transitions StateNew EvClose = Some StateClosed"
| "transitions StateRelaying EvBeginChecks = Some StateChecking"
| "transitions StateRelaying EvClose = Some StateClosed"
| "transitions StateChecking EvDirectEstablished = Some StateDirect"
| "transitions StateChecking EvChecksFailed = Some StateRelaying"
| "transitions StateChecking EvClose = Some StateClosed"
| "transitions StateDirect EvDirectLost = Some StateRelaying"
| "transitions StateDirect EvClose = Some StateClosed"
| "transitions _ _ = None"

record machine =
  m_state :: path_state

definition NewMachine :: machine where
  "NewMachine = \<lparr>m_state = StateNew\<rparr>"

definition Fire :: "path_event \<Rightarrow> machine \<Rightarrow> transition_error option \<times> machine" where
  "Fire ev m =
    (case transitions (m_state m) ev of
       None \<Rightarrow> (Some (ErrInvalidTransition (m_state m) ev), m)
     | Some s \<Rightarrow> (None, m\<lparr>m_state := s\<rparr>))"

definition IsTerminal :: "machine \<Rightarrow> bool" where
  "IsTerminal m = (m_state m = StateClosed)"

lemma transitions_closed [simp]: "transitions StateClosed ev = None"
  by (cases ev) auto

lemma transitions_close: "transitions s EvClose = (if s = StateClosed then None else Some StateClosed)"
  by (cases s) auto

lemma transitions_direct: "transitions s ev = Some StateDirect \<longleftrightarrow> s = StateChecking \<and> ev = EvDirectEstablished"
  by (cases s; cases ev) auto

lemma transitions_relaying:
  "transitions s ev = Some StateRelaying \<longleftrightarrow>
    (s = StateNew \<and> ev = EvStartRelay) \<or> (s = StateChecking \<and> ev = EvChecksFailed) \<or>
    (s = StateDirect \<and> ev = EvDirectLost)"
  by (cases s; cases ev) auto

lemma transitions_checking:
  "transitions s ev = Some StateChecking \<longleftrightarrow> s = StateRelaying \<and> ev = EvBeginChecks"
  by (cases s; cases ev) auto

lemma transitions_not_new [simp]: "transitions s ev \<noteq> Some StateNew"
  by (cases s; cases ev) auto

section \<open>Properties\<close>

text \<open>
  the decision table. A direct attempt is made exactly when direct is requested, or when relay
  is not requested and either NAT is unknown or the pair can be punched: a full-cone side, or no
  symmetric side facing a symmetric, restricted or port-restricted one. Falling back is allowed
  exactly on an attempt that was not demanded, and every session starts on the relay.
\<close>

theorem Decide_table:
  "AttemptDirect (Decide req a b) =
     (req = ModeDirect \<or> (req \<noteq> ModeRelay \<and>
       (a = NATUnknown \<or> b = NATUnknown \<or> a = NATFullCone \<or> b = NATFullCone \<or>
        \<not> (a = NATSymmetric \<and> b \<in> {NATSymmetric, NATRestrictedCone, NATPortRestricted} \<or>
            b = NATSymmetric \<and> a \<in> {NATSymmetric, NATRestrictedCone, NATPortRestricted})))) \<and>
   AllowFallback (Decide req a b) = (AttemptDirect (Decide req a b) \<and> req \<noteq> ModeDirect) \<and>
   dec_Mode (Decide req a b) = ModeRelay"
proof -
  have "punchable a b = (a = NATFullCone \<or> b = NATFullCone \<or>
      \<not> (a = NATSymmetric \<and> b \<in> {NATSymmetric, NATRestrictedCone, NATPortRestricted} \<or>
         b = NATSymmetric \<and> a \<in> {NATSymmetric, NATRestrictedCone, NATPortRestricted}))"
    by (auto simp: punchable_def hard_def mediumOrHard_def)
  then show ?thesis
    by (cases req) (auto simp: Decide_def)
qed

theorem Decide_table_witness:
  "\<not> AttemptDirect (Decide ModeAuto NATSymmetric NATPortRestricted) \<and>
   \<not> AllowFallback (Decide ModeAuto NATSymmetric NATPortRestricted) \<and>
   AttemptDirect (Decide ModeAuto NATSymmetric NATFullCone) \<and>
   AllowFallback (Decide ModeAuto NATSymmetric NATFullCone)"
  using Decide_table [of ModeAuto NATSymmetric NATPortRestricted]
    Decide_table [of ModeAuto NATSymmetric NATFullCone] by simp

end
