(* ===== verification/RateLimit.thy ===== *)
theory RateLimit
  imports Prelude
begin

text \<open>
  \<^verbatim>\<open>internal/ratelimit/ratelimit.go\<close>: the byte token bucket. \<open>NewBucket\<close> and \<open>Allow\<close> with
  the injected clock as an argument; a nil bucket is \<open>None\<close>; token counts are exact rationals. The
  lemmas bound what a bucket lets through in any window.
\<close>

record bucket =
  bk_rate :: float64
  bk_burst :: float64
  bk_tokens :: float64
  bk_last :: gotime

definition NewBucket :: "float64 \<Rightarrow> float64 \<Rightarrow> bucket" where
  "NewBucket rate burst =
    (let burst' = (if burst < rate then rate else burst)
     in \<lparr>bk_rate = rate, bk_burst = burst', bk_tokens = burst', bk_last = 0\<rparr>)"

definition refill :: "gotime \<Rightarrow> bucket \<Rightarrow> bucket" where
  "refill now b =
    (let b = (if bk_last b = 0 then b\<lparr>bk_last := now\<rparr> else b);
         elapsed = dur_seconds (now - bk_last b)
     in if elapsed > 0 then
          let t = bk_tokens b + elapsed * bk_rate b
          in b\<lparr>bk_tokens := (if t > bk_burst b then bk_burst b else t), bk_last := now\<rparr>
        else b)"

definition Allow :: "gotime \<Rightarrow> int \<Rightarrow> bucket \<Rightarrow> bool \<times> bucket" where
  "Allow now n b =
    (if bk_rate b \<le> 0 then (True, b)
     else
       let b = refill now b in
       if bk_tokens b \<ge> of_int n then (True, b\<lparr>bk_tokens := bk_tokens b - of_int n\<rparr>)
       else (False, b))"

text \<open>\<open>Allow\<close> through a pointer that may be nil.\<close>

definition Allow_opt :: "gotime \<Rightarrow> int \<Rightarrow> bucket option \<Rightarrow> bool \<times> bucket option" where
  "Allow_opt now n ob =
    (case ob of None \<Rightarrow> (True, None) | Some b \<Rightarrow> (let (r, b') = Allow now n b in (r, Some b')))"

section \<open>Token accounting\<close>

definition bucket_ok :: "bucket \<Rightarrow> bool" where
  "bucket_ok b = (0 < bk_rate b \<and> 0 \<le> bk_tokens b \<and> bk_tokens b \<le> bk_burst b)"

lemma NewBucket_ok: "0 < rate \<Longrightarrow> bucket_ok (NewBucket rate burst)"
  by (simp add: bucket_ok_def NewBucket_def Let_def)

text \<open>The instant from which a bucket counts: its last refill, or the first use.\<close>

definition since :: "gotime \<Rightarrow> bucket \<Rightarrow> gotime" where
  "since now b = (if bk_last b = 0 then now else bk_last b)"

lemma refill_keeps [simp]: "bk_rate (refill now b) = bk_rate b" "bk_burst (refill now b) = bk_burst b"
  by (simp_all add: refill_def Let_def)

lemma refill_ok: "bucket_ok b \<Longrightarrow> bucket_ok (refill now b)"
  by (auto simp: bucket_ok_def refill_def Let_def intro: add_nonneg_nonneg mult_nonneg_nonneg)

lemma refill_last: "since now b \<le> now \<Longrightarrow> bk_last (refill now b) = now"
  by (auto simp: refill_def since_def Let_def dur_seconds_pos)

lemma refill_tokens:
  assumes "bucket_ok b" and "since now b \<le> now"
  shows "bk_tokens (refill now b) \<le> bk_tokens b + dur_seconds (now - since now b) * bk_rate b"
  using assms by (auto simp: refill_def since_def Let_def bucket_ok_def not_less)

text \<open>One call: what it lets through is paid for by the tokens it takes.\<close>

lemma Allow_step:
  assumes "bucket_ok b" and "0 \<le> n" and "since now b \<le> now" and "Allow now n b = (r, b')"
  shows "bucket_ok b' \<and> bk_rate b' = bk_rate b \<and> bk_burst b' = bk_burst b \<and> bk_last b' = now \<and>
    (if r then of_int n else 0) + bk_tokens b' \<le> bk_tokens b + dur_seconds (now - since now b) * bk_rate b"
proof -
  have rate: "0 < bk_rate b" using assms(1) by (simp add: bucket_ok_def)
  define c where "c = refill now b"
  have c: "bucket_ok c" "bk_rate c = bk_rate b" "bk_burst c = bk_burst b" "bk_last c = now"
      "bk_tokens c \<le> bk_tokens b + dur_seconds (now - since now b) * bk_rate b"
    using refill_ok [OF assms(1)] refill_last [OF assms(3)] refill_tokens [OF assms(1,3)]
    by (simp_all add: c_def)
  have "(r, b') = (if bk_tokens c \<ge> of_int n then (True, c\<lparr>bk_tokens := bk_tokens c - of_int n\<rparr>) else (False, c))"
    using assms(4) rate by (auto simp: Allow_def Let_def c_def split: if_splits)
  with c assms(2) show ?thesis by (auto simp: bucket_ok_def split: if_splits)
qed

text \<open>A sequence of calls, with the bytes let through.\<close>

fun allow_run :: "(gotime \<times> int) list \<Rightarrow> bucket \<Rightarrow> int \<times> bucket" where
  "allow_run [] b = (0, b)"
| "allow_run ((now, n) # calls) b =
    (let (r, b1) = Allow now n b; (sent, b2) = allow_run calls b1
     in ((if r then n else 0) + sent, b2))"

lemma allow_run_bound:
  assumes "bucket_ok b" and "0 < bk_last b" and "sorted (bk_last b # map fst calls)"
    and "\<forall>c \<in> set calls. 0 \<le> snd c" and "allow_run calls b = (sent, b')"
  shows "bucket_ok b' \<and> bk_rate b' = bk_rate b \<and>
    of_int sent + bk_tokens b' \<le>
      bk_tokens b + dur_seconds (last (bk_last b # map fst calls) - bk_last b) * bk_rate b"
  using assms
proof (induction calls arbitrary: b sent)
  case (Cons c calls)
  obtain now n where c: "c = (now, n)" by fastforce
  obtain r b1 where b1: "Allow now n b = (r, b1)" by fastforce
  obtain s1 b2 where run: "allow_run calls b1 = (s1, b2)" by fastforce
  have sent: "sent = (if r then n else 0) + s1" "b2 = b'"
    using Cons.prems(5) c b1 run by auto
  have since: "since now b = bk_last b" "bk_last b \<le> now"
    using Cons.prems(2,3) c by (auto simp: since_def)
  have step: "bucket_ok b1" "bk_rate b1 = bk_rate b" "bk_last b1 = now"
      "(if r then of_int n else 0) + bk_tokens b1 \<le> bk_tokens b + dur_seconds (now - bk_last b) * bk_rate b"
    using Allow_step [of b n now r b1] Cons.prems(1,4) since b1 c by auto
  have "bucket_ok b' \<and> bk_rate b' = bk_rate b1 \<and> of_int s1 + bk_tokens b' \<le>
      bk_tokens b1 + dur_seconds (last (bk_last b1 # map fst calls) - bk_last b1) * bk_rate b1"
    using Cons.IH [of b1 s1] step Cons.prems since run sent c by auto
  moreover define e where "e = last (now # map fst calls)"
  moreover have "dur_seconds (e - bk_last b) = dur_seconds (e - now) + dur_seconds (now - bk_last b)"
    by (simp add: dur_seconds_add [symmetric])
  ultimately show ?case
    using step sent c by (auto simp: algebra_simps split: if_splits)
qed simp

lemma Allow_burst: "Allow now n b = (r, b') \<Longrightarrow> bk_burst b' = bk_burst b"
  by (auto simp: Allow_def Let_def split: if_splits)

lemma allow_run_burst: "allow_run calls b = (sent, b') \<Longrightarrow> bk_burst b' = bk_burst b"
  by (induction calls b arbitrary: sent rule: allow_run.induct)
    (auto split: prod.splits dest: Allow_burst)

section \<open>Properties\<close>

text \<open>
  C17: in any run of calls at non-decreasing instants, a fresh limiter with a positive rate lets
  through at most the burst plus the rate times the time since its first use, whatever the sizes
  asked for; its token count never leaves the range from zero to the burst.
\<close>

theorem rate_limit_bound:
  assumes "0 < rate" and "0 < t0" and "sorted (t0 # map fst calls)" and "0 \<le> n0"
    and "\<forall>c \<in> set calls. 0 \<le> snd c"
    and "allow_run ((t0, n0) # calls) (NewBucket rate burst) = (sent, b')"
  shows "of_int sent \<le> max rate burst + rate * dur_seconds (last (t0 # map fst calls) - t0) \<and>
    0 \<le> bk_tokens b' \<and> bk_tokens b' \<le> max rate burst"
proof -
  let ?b = "NewBucket rate burst"
  have b: "bucket_ok ?b" "bk_rate ?b = rate" "bk_tokens ?b = max rate burst" "bk_burst ?b = max rate burst"
      "since t0 ?b = t0"
    using assms(1) by (auto simp: bucket_ok_def NewBucket_def Let_def since_def)
  obtain r b1 where b1: "Allow t0 n0 ?b = (r, b1)" by fastforce
  obtain s1 where run: "allow_run calls b1 = (s1, b')" and sent: "sent = (if r then n0 else 0) + s1"
    using assms(6) b1 by (auto split: prod.splits)
  have step: "bucket_ok b1" "bk_rate b1 = rate" "bk_burst b1 = max rate burst" "bk_last b1 = t0"
      "(if r then of_int n0 else 0) + bk_tokens b1 \<le> max rate burst"
    using Allow_step [OF b(1) assms(4) _ b1] b by auto
  have "bucket_ok b'" "of_int s1 + bk_tokens b' \<le> bk_tokens b1 + dur_seconds (last (t0 # map fst calls) - t0) * rate"
    using allow_run_bound [of b1 calls s1 b'] step assms run by auto
  moreover have "bk_burst b' = max rate burst"
    using allow_run_burst [OF run] step by simp
  ultimately show ?thesis
    using step(5) sent by (auto simp: bucket_ok_def algebra_simps split: if_splits)
qed

theorem rate_limit_bound_witness:
  "allow_run [(10 * second, 1500), (10 * second, 1000), (11 * second, 900)] (NewBucket 1000 2000)
     = (2400, \<lparr>bk_rate = 1000, bk_burst = 2000, bk_tokens = 600, bk_last = 11 * second\<rparr>) \<and>
   (2400 :: float64) \<le> max 1000 2000 + 1000 * dur_seconds (11 * second - 10 * second)"
proof -
  have run: "allow_run ((10 * second, 1500) # [(10 * second, 1000), (11 * second, 900)]) (NewBucket 1000 2000)
     = (2400, \<lparr>bk_rate = 1000, bk_burst = 2000, bk_tokens = 600, bk_last = 11 * second\<rparr>)"
    by (simp add: Allow_def refill_def NewBucket_def Let_def dur_seconds_def)
  show ?thesis
    using rate_limit_bound [OF _ _ _ _ _ run] run by simp
qed

end
