(* ===== verification/SessionPath.thy ===== *)
theory SessionPath
  imports DirectPath RateLimit Proto
begin

text \<open>
  \<^verbatim>\<open>internal/session/session.go\<close>: a session's data path. The session couples the state machine
  with the installed path and the limiter; every operation is one definition. Each migration fires
  the machine under its own lock and installs the path under the session's lock, so the operations
  are also given as two steps each, for interleavings of several goroutines. A datagram sender is a
  connection; what the transport answers is an argument of \<open>Send\<close>.
\<close>

record path =
  Sender :: "conn option"
  Encode :: "bytes \<Rightarrow> bytes"

definition Identity :: "bytes \<Rightarrow> bytes" where
  "Identity b = b"

text \<open>The zero \<open>Path\<close>; its encoder is nil in Go and never called.\<close>

definition no_path :: path where
  "no_path = \<lparr>Sender = None, Encode = Identity\<rparr>"

record session_path =
  sp_ID :: u64
  sp_m :: machine
  sp_path :: path
  sp_limiter :: "bucket option"
  sp_bytesSent :: u64
  sp_pktsSent :: u64
  sp_drops :: u64

definition session_New :: "u64 \<Rightarrow> session_path" where
  "session_New i = \<lparr>sp_ID = i, sp_m = NewMachine, sp_path = no_path, sp_limiter = None,
     sp_bytesSent = 0, sp_pktsSent = 0, sp_drops = 0\<rparr>"

definition SetRateLimit :: "float64 \<Rightarrow> float64 \<Rightarrow> session_path \<Rightarrow> session_path" where
  "SetRateLimit bytesPerSec burst s = s\<lparr>sp_limiter := Some (NewBucket bytesPerSec burst)\<rparr>"

definition session_State :: "session_path \<Rightarrow> path_state" where
  "session_State s = m_state (sp_m s)"

definition IsDirect :: "session_path \<Rightarrow> bool" where
  "IsDirect s = (session_State s = StateDirect)"

definition setPath :: "path \<Rightarrow> session_path \<Rightarrow> session_path" where
  "setPath p s = s\<lparr>sp_path := p\<rparr>"

definition fire :: "path_event \<Rightarrow> session_path \<Rightarrow> transition_error option \<times> session_path" where
  "fire ev s = (let (e, m) = Fire ev (sp_m s) in (e, s\<lparr>sp_m := m\<rparr>))"

text \<open>Fire the event and, when it is allowed, install the path.\<close>

definition migrate :: "path_event \<Rightarrow> path \<Rightarrow> session_path \<Rightarrow> transition_error option \<times> session_path" where
  "migrate ev p s =
    (case fire ev s of
       (Some err, s') \<Rightarrow> (Some err, s')
     | (None, s') \<Rightarrow> (None, setPath p s'))"

definition StartRelay :: "path \<Rightarrow> session_path \<Rightarrow> transition_error option \<times> session_path" where
  "StartRelay p s = migrate EvStartRelay p s"

definition BeginChecks :: "session_path \<Rightarrow> transition_error option \<times> session_path" where
  "BeginChecks s = fire EvBeginChecks s"

definition UpgradeDirect :: "path \<Rightarrow> session_path \<Rightarrow> transition_error option \<times> session_path" where
  "UpgradeDirect p s = migrate EvDirectEstablished p s"

definition ChecksFailed :: "session_path \<Rightarrow> transition_error option \<times> session_path" where
  "ChecksFailed s = fire EvChecksFailed s"

definition FallbackRelay :: "path \<Rightarrow> session_path \<Rightarrow> transition_error option \<times> session_path" where
  "FallbackRelay p s = migrate EvDirectLost p s"

text \<open>\<open>Close\<close> clears the path whether or not the machine accepted the event.\<close>

definition Close :: "session_path \<Rightarrow> transition_error option \<times> session_path" where
  "Close s = (let (e, s') = fire EvClose s in (e, setPath no_path s'))"

datatype send_error = ErrNoPath | ErrRateLimited | TransportError string

text \<open>
  \<open>Send\<close>: the result, the datagram handed to the transport (with its connection), and the
  session. The counters are 64-bit and wrap.
\<close>

definition Send ::
  "(conn \<Rightarrow> bytes \<Rightarrow> string option) \<Rightarrow> gotime \<Rightarrow> bytes \<Rightarrow> session_path \<Rightarrow>
    send_error option \<times> (conn \<times> bytes) option \<times> session_path" where
  "Send transport now pkt s =
    (case Sender (sp_path s) of
       None \<Rightarrow> (Some ErrNoPath, None, s)
     | Some c \<Rightarrow>
         (case Allow_opt now (int (length pkt)) (sp_limiter s) of (allowed, l) \<Rightarrow>
            (let s = s\<lparr>sp_limiter := l\<rparr> in
             if \<not> allowed then (Some ErrRateLimited, None, s\<lparr>sp_drops := sp_drops s + 1\<rparr>)
             else
               let d = Encode (sp_path s) pkt in
               (case transport c d of
                  Some err \<Rightarrow> (Some (TransportError err), Some (c, d), s)
                | None \<Rightarrow>
                    (None, Some (c, d),
                     s\<lparr>sp_bytesSent := sp_bytesSent s + of_nat (length pkt),
                       sp_pktsSent := sp_pktsSent s + 1\<rparr>)))))"

definition Stats :: "session_path \<Rightarrow> u64 \<times> u64 \<times> u64" where
  "Stats s = (sp_bytesSent s, sp_pktsSent s, sp_drops s)"

section \<open>Calls one after another\<close>

datatype session_op =
  OpStartRelay path | OpBeginChecks | OpUpgradeDirect path | OpChecksFailed | OpFallbackRelay path
| OpClose | OpSetRateLimit float64 float64 | OpSend gotime bytes

fun run_op :: "(conn \<Rightarrow> bytes \<Rightarrow> string option) \<Rightarrow> session_op \<Rightarrow> session_path \<Rightarrow> session_path" where
  "run_op tr (OpStartRelay p) s = snd (StartRelay p s)"
| "run_op tr OpBeginChecks s = snd (BeginChecks s)"
| "run_op tr (OpUpgradeDirect p) s = snd (UpgradeDirect p s)"
| "run_op tr OpChecksFailed s = snd (ChecksFailed s)"
| "run_op tr (OpFallbackRelay p) s = snd (FallbackRelay p s)"
| "run_op tr OpClose s = snd (Close s)"
| "run_op tr (OpSetRateLimit r b) s = SetRateLimit r b s"
| "run_op tr (OpSend now pkt) s = snd (snd (Send tr now pkt s))"

text \<open>
  The paths callers pass: a relay path for \<open>StartRelay\<close> and \<open>FallbackRelay\<close>, a direct one for
  \<open>UpgradeDirect\<close>. \<open>R\<close> and \<open>D\<close> say what those are.
\<close>

fun op_paths :: "(path \<Rightarrow> bool) \<Rightarrow> (path \<Rightarrow> bool) \<Rightarrow> session_op \<Rightarrow> bool" where
  "op_paths R D (OpStartRelay p) = R p"
| "op_paths R D (OpUpgradeDirect p) = D p"
| "op_paths R D (OpFallbackRelay p) = R p"
| "op_paths R D _ = True"

definition path_inv :: "(path \<Rightarrow> bool) \<Rightarrow> (path \<Rightarrow> bool) \<Rightarrow> session_path \<Rightarrow> bool" where
  "path_inv R D s =
    (case session_State s of
       StateNew \<Rightarrow> sp_path s = no_path
     | StateRelaying \<Rightarrow> R (sp_path s)
     | StateChecking \<Rightarrow> R (sp_path s)
     | StateDirect \<Rightarrow> D (sp_path s)
     | StateClosed \<Rightarrow> sp_path s = no_path)"

lemma fire_keeps [simp]: "sp_path (snd (fire ev s)) = sp_path s"
  by (simp add: fire_def split: prod.split)

lemma fire_state:
  "session_State (snd (fire ev s)) =
    (case transitions (session_State s) ev of None \<Rightarrow> session_State s | Some t \<Rightarrow> t)"
  by (auto simp: fire_def Fire_def session_State_def split: option.splits)

lemma fire_error: "fst (fire ev s) = None \<longleftrightarrow> transitions (session_State s) ev \<noteq> None"
  by (auto simp: fire_def Fire_def session_State_def split: option.splits)

lemma migrate_result:
  "session_State (snd (migrate ev p s)) =
     (case transitions (session_State s) ev of None \<Rightarrow> session_State s | Some t \<Rightarrow> t) \<and>
   sp_path (snd (migrate ev p s)) =
     (case transitions (session_State s) ev of None \<Rightarrow> sp_path s | Some t \<Rightarrow> p)"
  by (auto simp: migrate_def fire_def Fire_def session_State_def setPath_def split: option.splits)

lemma Close_result:
  "session_State (snd (Close s)) = StateClosed \<and> sp_path (snd (Close s)) = no_path"
  using fire_state [of EvClose s]
  by (auto simp: Close_def setPath_def session_State_def transitions_close split: prod.splits if_splits)

lemma Send_keeps [simp]:
  "session_State (snd (snd (Send tr now pkt s))) = session_State s"
  "sp_path (snd (snd (Send tr now pkt s))) = sp_path s"
  by (auto simp: Send_def Let_def session_State_def split: option.splits prod.splits)

lemma SetRateLimit_keeps [simp]:
  "session_State (SetRateLimit r b s) = session_State s" "sp_path (SetRateLimit r b s) = sp_path s"
  by (simp_all add: SetRateLimit_def session_State_def)

lemmas op_results = StartRelay_def UpgradeDirect_def FallbackRelay_def BeginChecks_def
  ChecksFailed_def migrate_result fire_state Close_result

lemma path_inv_op:
  assumes "path_inv R D s" and "op_paths R D x"
  shows "path_inv R D (run_op tr x s)"
  using assms by (cases x; cases "session_State s"; simp add: path_inv_def op_results)

lemma path_inv_run:
  "path_inv R D s \<Longrightarrow> list_all (op_paths R D) ops \<Longrightarrow> path_inv R D (fold (run_op tr) ops s)"
  by (induction ops arbitrary: s) (auto simp: path_inv_op)

lemma closed_op: "session_State s = StateClosed \<Longrightarrow> session_State (run_op tr x s) = StateClosed"
  by (cases x) (auto simp: op_results)

lemma closed_run:
  "session_State s = StateClosed \<Longrightarrow> session_State (fold (run_op tr) ops s) = StateClosed"
  by (induction ops arbitrary: s) (auto simp: closed_op)

section \<open>Goroutines\<close>

text \<open>
  Two-step migrations: an operation that has fired its event leaves the path it will install among
  the pending ones; any pending path may be installed next.
\<close>

inductive conc_step :: "session_path \<times> path list \<Rightarrow> session_path \<times> path list \<Rightarrow> bool" where
  conc_migrate: "ev \<in> {EvStartRelay, EvDirectEstablished, EvDirectLost} \<Longrightarrow> fire ev s = (None, s') \<Longrightarrow>
    conc_step (s, ps) (s', ps @ [p])"
| conc_check: "ev \<in> {EvBeginChecks, EvChecksFailed} \<Longrightarrow> fire ev s = (e, s') \<Longrightarrow>
    conc_step (s, ps) (s', ps)"
| conc_close: "fire EvClose s = (e, s') \<Longrightarrow> conc_step (s, ps) (s', ps @ [no_path])"
| conc_install: "i < length ps \<Longrightarrow> conc_step (s, ps) (setPath (ps ! i) s, take i ps @ drop (Suc i) ps)"

definition conc_start :: "u64 \<Rightarrow> session_path \<times> path list \<Rightarrow> bool" where
  "conc_start i c = (c = (session_New i, []))"

section \<open>Properties\<close>

text \<open>
  C25: when the operations of a session are called one after another, with relay paths given to
  \<open>StartRelay\<close> and \<open>FallbackRelay\<close> and direct paths to \<open>UpgradeDirect\<close>, the installed path always
  fits the state: none before the relay starts and after \<open>Close\<close>, a relay path while relaying or
  checking, a direct one in the direct state; and after a \<open>Close\<close> every later \<open>Send\<close> returns
  \<open>ErrNoPath\<close> and hands nothing to the transport.
\<close>

theorem session_path_follows_state:
  assumes "list_all (op_paths R D) ops" and "list_all (op_paths R D) later"
  shows "path_inv R D (fold (run_op tr) ops (session_New i)) \<and>
    Send tr now pkt (fold (run_op tr) (ops @ OpClose # later) (session_New i)) =
      (Some ErrNoPath, None, fold (run_op tr) (ops @ OpClose # later) (session_New i))"
proof -
  have start: "path_inv R D (session_New i)"
    by (simp add: path_inv_def session_New_def session_State_def NewMachine_def)
  define s where "s = fold (run_op tr) (ops @ [OpClose]) (session_New i)"
  have inv: "path_inv R D s"
    unfolding s_def using assms by (intro path_inv_run [OF start]) simp
  have "session_State s = StateClosed" by (simp add: s_def Close_result)
  then have "session_State (fold (run_op tr) later s) = StateClosed" by (rule closed_run)
  with path_inv_run [OF inv assms(2), of tr] have "sp_path (fold (run_op tr) later s) = no_path"
    by (simp add: path_inv_def)
  then show ?thesis
    using path_inv_run [OF start assms(1), of tr] by (simp add: Send_def no_path_def s_def)
qed

text \<open>The relay and the direct path of session 7 over connections 1 and 2.\<close>

definition relay7 :: path where
  "relay7 = \<lparr>Sender = Some 1, Encode = EncodeDatagram 7\<rparr>"

definition direct7 :: path where
  "direct7 = \<lparr>Sender = Some 2, Encode = Identity\<rparr>"

theorem session_path_follows_state_witness:
  "path_inv (\<lambda>p. Sender p = Some 1) (\<lambda>p. Sender p = Some 2)
     (fold (run_op (\<lambda>_ _. None)) [OpStartRelay relay7, OpBeginChecks, OpUpgradeDirect direct7] (session_New 7)) \<and>
   session_State
     (fold (run_op (\<lambda>_ _. None)) [OpStartRelay relay7, OpBeginChecks, OpUpgradeDirect direct7] (session_New 7))
     = StateDirect"
proof -
  have ops: "list_all (op_paths (\<lambda>p. Sender p = Some 1) (\<lambda>p. Sender p = Some 2))
      [OpStartRelay relay7, OpBeginChecks, OpUpgradeDirect direct7]"
    by (simp add: relay7_def direct7_def)
  have "session_State (session_New 7) = StateNew"
    by (simp add: session_New_def NewMachine_def session_State_def)
  then show ?thesis
    using session_path_follows_state [OF ops, of "[]"] by (simp add: op_results)
qed


end
