(* ===== verification/Telemetry.thy ===== *)
theory Telemetry
  imports SessionPath
begin

text \<open>
  \<^verbatim>\<open>internal/telemetry/telemetry.go\<close>: the round-trip cell and the periodic report of a session. One
  tick of \<open>Run\<close> is \<open>report_tick\<close>, which gives the two control messages of the tick and the loop's own
  variables after it. The ticker and the end of the loop (the context) belong to the caller's model.
  Nanosecond time stamps are integers; the range of \<open>int64\<close> is not left before the year 2262.
\<close>

definition DefaultInterval :: duration where
  "DefaultInterval = 5 * second"

definition report_interval :: "duration \<Rightarrow> duration" where
  "report_interval interval = (if interval \<le> 0 then DefaultInterval else interval)"

text \<open>\<open>HostStat\<close> is the reading it returns at the tick; the exit leaves it nil.\<close>

record meta =
  mt_Host :: string
  mt_TunName :: string
  mt_OS :: string
  mt_UsingStun :: bool
  mt_UsingTurn :: bool
  mt_Downlink :: bool
  mt_HostStat :: "(float64 \<times> float64 \<times> float64) option"

text \<open>\<open>RTT\<close> is its counter of milliseconds. Go's integer division truncates towards zero.\<close>

definition Observe :: "gotime \<Rightarrow> int \<Rightarrow> int \<Rightarrow> int" where
  "Observe now tsNanos ms =
    (if tsNanos = 0 then ms else sgn (now - tsNanos) * (\<bar>now - tsNanos\<bar> div 1000000))"

definition throughput :: "u64 \<Rightarrow> u64 \<Rightarrow> float64 \<Rightarrow> float64" where
  "throughput cur prev dt =
    (if dt \<le> 0 \<or> cur < prev then 0 else of_nat (unat (cur - prev)) / dt)"

record reporter =
  rp_lastBytes :: u64
  rp_last :: gotime

definition report_tick ::
  "gotime \<Rightarrow> u64 \<Rightarrow> session_path \<Rightarrow> meta \<Rightarrow> int \<Rightarrow> reporter \<Rightarrow> control list \<times> reporter" where
  "report_tick now sid sess mt ms rp =
    (let ping = (control_of MsgPing)\<lparr>c_SessionID := sid, c_TS := now\<rparr>;
         (b, _, d) = Stats sess;
         bps = throughput b (rp_lastBytes rp) (dur_seconds (now - rp_last rp));
         rep = (control_of MsgReport)
           \<lparr>c_SessionID := sid, c_ThroughputBps := bps, c_Drops := d, c_Direct := IsDirect sess,
            c_RTTms := ms, c_Host := mt_Host mt, c_TunName := mt_TunName mt,
            c_PathKind := (if IsDirect sess then ''direct'' else ''relay''),
            c_UsingStun := mt_UsingStun mt, c_UsingTurn := mt_UsingTurn mt, c_OS := mt_OS mt\<rparr>;
         rep = (if mt_Downlink mt then rep\<lparr>c_BytesDown := b\<rparr> else rep\<lparr>c_BytesUp := b\<rparr>);
         rep = (case mt_HostStat mt of
                  None \<Rightarrow> rep
                | Some (cpu, mem, disk) \<Rightarrow> rep\<lparr>c_CPUPct := cpu, c_MemPct := mem, c_DiskPct := disk\<rparr>)
     in ([ping, rep], \<lparr>rp_lastBytes = b, rp_last = now\<rparr>))"

lemma unsigned_rat_nonneg [simp]: "0 \<le> (unsigned (w :: u64) :: float64)"
  by (metis of_nat_unat of_nat_0_le_iff)

lemma throughput_nonneg: "0 \<le> throughput cur prev dt"
  by (simp add: throughput_def)

text \<open>A rate is never inflated by a counter that was reset or wrapped between two reports.\<close>

lemma throughput_bound: "0 < dt \<Longrightarrow> throughput cur prev dt * dt \<le> of_nat (unat cur)"
  by (auto simp: throughput_def word_le_nat_alt unat_sub not_less)

end
