(* ===== verification/IceWire.thy ===== *)
theory IceWire
  imports Proto
begin

text \<open>
  \<^verbatim>\<open>internal/ice/ice.go\<close> (the data of the signalling channel), \<^verbatim>\<open>internal/icewire/icewire.go\<close> and
  \<^verbatim>\<open>internal/directlink/directlink.go\<close>: negotiation of the direct path. The ICE agent is a third-party
  library: its answers are the record \<open>ice_agent\<close>, and the QUIC listener or dialer over the nominated
  pair is the field \<open>ag_quic\<close>. The channel \<open>incoming\<close> is the list of the signals that arrive until the
  context ends.
\<close>

datatype role = RoleControlling | RoleControlled

text \<open>The four named candidate types, and any other text the library may report.\<close>

datatype candidate_type =
  CandidateHost | CandidateServerReflexive | CandidatePeerReflexive | CandidateRelay | CandidateOther string

record candidate =
  cd_Type :: candidate_type
  cd_Foundation :: string
  cd_Protocol :: string
  cd_Address :: string
  cd_Port :: int
  cd_Priority :: u32
  cd_Raw :: string

record credentials =
  cr_Ufrag :: string
  cr_Pwd :: string

datatype signal_kind = SignalCandidate | SignalCredentials | SignalRole | SignalEnd

record signal =
  sg_SessionID :: string
  sg_Nonce :: string
  sg_Kind :: signal_kind
  sg_Candidate :: "candidate option"
  sg_Creds :: "credentials option"
  sg_Role :: "role option"

record ice_agent =
  ag_LocalCredentials :: "string + credentials"
  ag_candidates :: "candidate list"
  ag_GatherCandidates :: "string option"
  ag_Connect :: "candidate list \<Rightarrow> credentials \<Rightarrow> string option"
  ag_SelectedPair :: "(candidate_type \<times> candidate_type) option"
  ag_quic :: "role \<Rightarrow> string + conn"

datatype direct_error = ErrRelayPair | CtxDone | DirectFailure string

definition Establish ::
  "ice_agent \<Rightarrow> role \<Rightarrow> candidate list \<Rightarrow> credentials \<Rightarrow> bool \<Rightarrow> direct_error + conn" where
  "Establish agent role cands remote p2pOnly =
    (case ag_Connect agent cands remote of
       Some err \<Rightarrow> Inl (DirectFailure err)
     | None \<Rightarrow>
         if (case ag_SelectedPair agent of
               Some (lt, rt) \<Rightarrow> p2pOnly \<and> (lt = CandidateRelay \<or> rt = CandidateRelay)
             | None \<Rightarrow> False)
         then Inl ErrRelayPair
         else (case ag_quic agent role of Inl err \<Rightarrow> Inl (DirectFailure err) | Inr qc \<Rightarrow> Inr qc))"

text \<open>
  The goroutine that drains \<open>incoming\<close>: the first credentials are handed over, every candidate goes to
  the agent.
\<close>

fun drain :: "signal list \<Rightarrow> credentials option \<Rightarrow> candidate list \<Rightarrow> credentials option \<times> candidate list" where
  "drain [] sent cands = (sent, cands)"
| "drain (sig # sigs) sent cands =
    (case sg_Kind sig of
       SignalCredentials \<Rightarrow> drain sigs (if sent = None then sg_Creds sig else sent) cands
     | SignalCandidate \<Rightarrow>
         drain sigs sent (case sg_Candidate sig of None \<Rightarrow> cands | Some c \<Rightarrow> cands @ [c])
     | _ \<Rightarrow> drain sigs sent cands)"

definition signal_of :: "string \<Rightarrow> signal_kind \<Rightarrow> signal" where
  "signal_of sid k = \<lparr>sg_SessionID = sid, sg_Nonce = '''', sg_Kind = k, sg_Candidate = None,
     sg_Creds = None, sg_Role = None\<rparr>"

text \<open>\<open>Negotiate\<close>: the signals handed to \<open>send\<close>, and the direct connection or the error.\<close>

definition Negotiate ::
  "ice_agent \<Rightarrow> role \<Rightarrow> string \<Rightarrow> (signal \<Rightarrow> string option) \<Rightarrow> signal list \<Rightarrow> bool \<Rightarrow>
    signal list \<times> (direct_error + conn)" where
  "Negotiate agent role sid send incoming p2pOnly =
    (case ag_LocalCredentials agent of
       Inl err \<Rightarrow> ([], Inl (DirectFailure err))
     | Inr creds \<Rightarrow>
         (let hello = (signal_of sid SignalCredentials)\<lparr>sg_Creds := Some creds\<rparr> in
          case send hello of
            Some err \<Rightarrow> ([hello], Inl (DirectFailure err))
          | None \<Rightarrow>
              (case ag_GatherCandidates agent of
                 Some err \<Rightarrow> ([hello], Inl (DirectFailure err))
               | None \<Rightarrow>
                   (let trickle = map (\<lambda>c. (signal_of sid SignalCandidate)\<lparr>sg_Candidate := Some c\<rparr>)
                          (ag_candidates agent)
                    in (hello # trickle,
                        case drain incoming None [] of
                          (None, _) \<Rightarrow> Inl CtxDone
                        | (Some remote, cands) \<Rightarrow> Establish agent role cands remote p2pOnly)))))"

text \<open>With \<open>p2pOnly\<close> a direct connection never runs over a TURN-relayed pair.\<close>

lemma Negotiate_p2p:
  "snd (Negotiate agent role sid send incoming True) = Inr qc \<Longrightarrow>
    ag_SelectedPair agent = Some (lt, rt) \<Longrightarrow> lt \<noteq> CandidateRelay \<and> rt \<noteq> CandidateRelay"
  by (auto simp: Negotiate_def Establish_def Let_def split: sum.splits option.splits prod.splits if_splits)

end
