(* ===== verification/Pion.thy ===== *)
theory Pion
  imports IceWire
begin

text \<open>
  \<^verbatim>\<open>internal/ice/pion_adapter.go\<close> and \<^verbatim>\<open>internal/ice/packetconn.go\<close>: the ICE agent on top of the pion library,
  and the packet connection that QUIC runs over. The library is the record \<open>pion_lib\<close>: what it parses, and
  the agent it builds for a configuration. An agent of the library is its answers, \<open>pion_agent\<close>; a dialled
  or accepted path gives QUIC's answer over it, \<open>pa_quic\<close>.
\<close>

section \<open>Configuration\<close>

record pion_config =
  pc_Role :: role
  pc_STUNURLs :: "string list"
  pc_TURNURLs :: "string list"
  pc_TURNUser :: string
  pc_TURNPass :: string
  pc_KeepaliveInterval :: duration
  pc_FailedTimeout :: duration
  pc_DisconnectedTimeout :: duration
  pc_DisableMDNS :: bool
  pc_IncludeLoopback :: bool

record stun_uri =
  su_text :: string
  su_Username :: string
  su_Password :: string

datatype network_type = NetworkTypeUDP4 | NetworkTypeUDP6

datatype mdns_mode = MulticastDNSModeQueryAndGather | MulticastDNSModeDisabled

record agent_config =
  agc_Urls :: "stun_uri list"
  agc_NetworkTypes :: "network_type list"
  agc_CandidateTypes :: "candidate_type list"
  agc_MulticastDNSMode :: mdns_mode
  agc_IncludeLoopback :: bool
  agc_KeepaliveInterval :: duration
  agc_FailedTimeout :: duration
  agc_DisconnectedTimeout :: duration

section \<open>The library\<close>

record pion_candidate =
  pn_Type :: string
  pn_Foundation :: string
  pn_NetworkShort :: string
  pn_Address :: string
  pn_Port :: int
  pn_Priority :: u32
  pn_Marshal :: string

record pion_agent =
  pa_GetLocalUserCredentials :: "string + string \<times> string"
  pa_candidates :: "pion_candidate list"
  pa_GatherCandidates :: "string option"
  pa_Dial :: "pion_candidate list \<Rightarrow> string \<Rightarrow> string \<Rightarrow> string option"
  pa_Accept :: "pion_candidate list \<Rightarrow> string \<Rightarrow> string \<Rightarrow> string option"
  pa_GetSelectedCandidatePair :: "string + (pion_candidate \<times> pion_candidate) option"
  pa_quic :: "role \<Rightarrow> string + conn"

record pion_lib =
  pl_ParseURI :: "string \<Rightarrow> string + stun_uri"
  pl_UnmarshalCandidate :: "string \<Rightarrow> string + pion_candidate"
  pl_NewAgent :: "agent_config \<Rightarrow> string + pion_agent"

section \<open>Building an agent\<close>

fun parse_urls :: "(string \<Rightarrow> string + stun_uri) \<Rightarrow> string list \<Rightarrow> string + stun_uri list" where
  "parse_urls parse [] = Inr []"
| "parse_urls parse (u # us) =
    (case parse u of
       Inl err \<Rightarrow> Inl err
     | Inr uri \<Rightarrow> (case parse_urls parse us of Inl err \<Rightarrow> Inl err | Inr uris \<Rightarrow> Inr (uri # uris)))"

definition cand_types :: "pion_config \<Rightarrow> candidate_type list" where
  "cand_types cfg =
    [CandidateHost] @ (if pc_STUNURLs cfg \<noteq> [] then [CandidateServerReflexive] else []) @
    (if pc_TURNURLs cfg \<noteq> [] then [CandidateRelay] else [])"

definition or_default :: "duration \<Rightarrow> duration \<Rightarrow> duration" where
  "or_default d dflt = (if d = 0 then dflt else d)"

definition agent_config_of :: "pion_config \<Rightarrow> stun_uri list \<Rightarrow> agent_config" where
  "agent_config_of cfg urls =
    \<lparr>agc_Urls = urls, agc_NetworkTypes = [NetworkTypeUDP4, NetworkTypeUDP6], agc_CandidateTypes = cand_types cfg,
     agc_MulticastDNSMode =
       (if pc_DisableMDNS cfg then MulticastDNSModeDisabled else MulticastDNSModeQueryAndGather),
     agc_IncludeLoopback = pc_IncludeLoopback cfg,
     agc_KeepaliveInterval = or_default (pc_KeepaliveInterval cfg) (1 * second),
     agc_FailedTimeout = or_default (pc_FailedTimeout cfg) (10 * second),
     agc_DisconnectedTimeout = or_default (pc_DisconnectedTimeout cfg) (5 * second)\<rparr>"

definition turn_login :: "pion_config \<Rightarrow> stun_uri \<Rightarrow> stun_uri" where
  "turn_login cfg uri = uri\<lparr>su_Username := pc_TURNUser cfg, su_Password := pc_TURNPass cfg\<rparr>"

section \<open>The adapter's methods\<close>

definition CandidateType :: "string \<Rightarrow> candidate_type" where
  "CandidateType s =
    (if s = ''host'' then CandidateHost else if s = ''srflx'' then CandidateServerReflexive
     else if s = ''prflx'' then CandidatePeerReflexive else if s = ''relay'' then CandidateRelay
     else CandidateOther s)"

definition fromPion :: "pion_candidate \<Rightarrow> candidate" where
  "fromPion c =
    \<lparr>cd_Type = CandidateType (pn_Type c), cd_Foundation = pn_Foundation c, cd_Protocol = pn_NetworkShort c,
     cd_Address = pn_Address c, cd_Port = pn_Port c, cd_Priority = pn_Priority c, cd_Raw = pn_Marshal c\<rparr>"

definition LocalCredentials :: "pion_agent \<Rightarrow> string + credentials" where
  "LocalCredentials a =
    (case pa_GetLocalUserCredentials a of
       Inl err \<Rightarrow> Inl err
     | Inr (uf, pw) \<Rightarrow> Inr \<lparr>cr_Ufrag = uf, cr_Pwd = pw\<rparr>)"

definition AddRemoteCandidate ::
  "pion_lib \<Rightarrow> candidate \<Rightarrow> pion_candidate list \<Rightarrow> string option \<times> pion_candidate list" where
  "AddRemoteCandidate lib c remotes =
    (case pl_UnmarshalCandidate lib (cd_Raw c) of
       Inl err \<Rightarrow> (Some err, remotes)
     | Inr pc \<Rightarrow> (None, remotes @ [pc]))"

definition ice_Connect :: "role \<Rightarrow> pion_agent \<Rightarrow> pion_candidate list \<Rightarrow> credentials \<Rightarrow> string option" where
  "ice_Connect rl a remotes remote =
    (if rl = RoleControlling then pa_Dial a remotes (cr_Ufrag remote) (cr_Pwd remote)
     else pa_Accept a remotes (cr_Ufrag remote) (cr_Pwd remote))"

definition SelectedPair :: "pion_agent \<Rightarrow> (candidate_type \<times> candidate_type) option" where
  "SelectedPair a =
    (case pa_GetSelectedCandidatePair a of
       Inl _ \<Rightarrow> None
     | Inr None \<Rightarrow> None
     | Inr (Some (l, r)) \<Rightarrow> Some (CandidateType (pn_Type l), CandidateType (pn_Type r)))"

text \<open>The agent of the interface: the remote candidates of \<open>ag_Connect\<close> were added one by one before.\<close>

definition pion_adapter :: "pion_lib \<Rightarrow> role \<Rightarrow> pion_agent \<Rightarrow> ice_agent" where
  "pion_adapter lib rl a =
    \<lparr>ag_LocalCredentials = LocalCredentials a, ag_candidates = map fromPion (pa_candidates a),
     ag_GatherCandidates = pa_GatherCandidates a,
     ag_Connect = (\<lambda>cands. ice_Connect rl a (fold (\<lambda>c rs. snd (AddRemoteCandidate lib c rs)) cands [])),
     ag_SelectedPair = SelectedPair a, ag_quic = pa_quic a\<rparr>"

definition NewPionAgent :: "pion_lib \<Rightarrow> pion_config \<Rightarrow> string + ice_agent" where
  "NewPionAgent lib cfg =
    (case parse_urls (pl_ParseURI lib) (pc_STUNURLs cfg) of
       Inl err \<Rightarrow> Inl err
     | Inr stuns \<Rightarrow>
         (case parse_urls (pl_ParseURI lib) (pc_TURNURLs cfg) of
            Inl err \<Rightarrow> Inl err
          | Inr turns \<Rightarrow>
              (case pl_NewAgent lib (agent_config_of cfg (stuns @ map (turn_login cfg) turns)) of
                 Inl err \<Rightarrow> Inl err
               | Inr a \<Rightarrow> Inr (pion_adapter lib (pc_Role cfg) a))))"

section \<open>Packet connection\<close>

record packet_conn =
  pk_remote :: string
  pk_local :: string

text \<open>The counter \<open>pcSeq\<close> is an argument and a result.\<close>

definition NewPacketConn :: "string \<Rightarrow> u64 \<Rightarrow> packet_conn \<times> u64" where
  "NewPacketConn peerAddr pcSeq =
    (let pcSeq = pcSeq + 1 in
     (\<lparr>pk_remote = (if peerAddr = '''' then ''ice-peer'' else peerAddr),
       pk_local = ''ice-local-'' @ show_u64 pcSeq\<rparr>, pcSeq))"

definition ReadFrom :: "bytes + string \<Rightarrow> packet_conn \<Rightarrow> (bytes + string) \<times> string" where
  "ReadFrom answer p = (answer, pk_remote p)"

section \<open>Lemmas\<close>

lemma parse_urls_Inr: "parse_urls f us = Inr uris \<longleftrightarrow> list_all2 (\<lambda>u uri. f u = Inr uri) us uris"
  by (induction us arbitrary: uris) (auto simp: list_all2_Cons1 split: sum.splits, metis Inr_inject)

lemma CandidateType_relay: "CandidateType s = CandidateRelay \<longleftrightarrow> s = ''relay''"
  by (simp add: CandidateType_def)

text \<open>
  The agent is asked for relayed candidates exactly when a TURN server is configured, every TURN server
  carries the login, and the STUN servers carry none of it.
\<close>

lemma NewPionAgent_config:
  assumes "NewPionAgent lib cfg = Inr ag"
  obtains stuns turns a where
    "list_all2 (\<lambda>u uri. pl_ParseURI lib u = Inr uri) (pc_STUNURLs cfg) stuns"
    "list_all2 (\<lambda>u uri. pl_ParseURI lib u = Inr uri) (pc_TURNURLs cfg) turns"
    "pl_NewAgent lib (agent_config_of cfg (stuns @ map (turn_login cfg) turns)) = Inr a"
    "ag = pion_adapter lib (pc_Role cfg) a"
  using assms by (auto simp: NewPionAgent_def parse_urls_Inr split: sum.splits)

lemma relay_candidates_iff: "CandidateRelay \<in> set (agc_CandidateTypes (agent_config_of cfg urls)) \<longleftrightarrow> pc_TURNURLs cfg \<noteq> []"
  by (simp add: agent_config_of_def cand_types_def)

text \<open>With \<open>p2pOnly\<close>, a direct connection over a pion agent runs over a pair neither of whose ends is relayed.\<close>

lemma pion_p2p:
  assumes "snd (Negotiate (pion_adapter lib rl a) rl sid send incoming True) = Inr qc"
    and "pa_GetSelectedCandidatePair a = Inr (Some (l, r))"
  shows "pn_Type l \<noteq> ''relay'' \<and> pn_Type r \<noteq> ''relay''"
  using Negotiate_p2p [OF assms(1)] assms(2)
  by (auto simp: pion_adapter_def SelectedPair_def CandidateType_relay)

text \<open>
  The local addresses that a process hands to QUIC are pairwise distinct for the first \<open>2 ^ 64\<close> packet
  connections.
\<close>

lemma NewPacketConn_local: "pk_local (fst (NewPacketConn p n)) = pk_local (fst (NewPacketConn q m)) \<longleftrightarrow> n = m"
  by (simp add: NewPacketConn_def Let_def)

end
