(* ===== verification/ExitNode.thy ===== *)
theory ExitNode
  imports GoStrings Telemetry Pion
begin

text \<open>
  \<^verbatim>\<open>cmd/revquic-exit/main.go\<close> and the sampler and views of \<^verbatim>\<open>status.go\<close>: the exit node.

  Objects. An \<open>*exitSession\<close> is shared by the session table, the reporter goroutine and the direct-path
  goroutine, and outlives its table entry: \<open>xn_objs\<close> is the heap of these objects and the table maps
  a session id to a reference. A goroutine of a session is known by the reference of its object.

  Environment. The text form of IPv6, the transport's answer to a datagram, JSON of a signal, and the
  host's names are the record \<open>exit_env\<close>. Calls on the TUN device and on connections are appended to
  \<open>xn_out\<close>; log lines are left out. Names are ASCII text.
\<close>

section \<open>Node id\<close>

definition slug_char :: "char \<Rightarrow> bool" where
  "slug_char c = (let n = (of_char c :: nat) in 97 \<le> n \<and> n \<le> 122 \<or> 48 \<le> n \<and> n \<le> 57)"

fun slug_step :: "char \<Rightarrow> string \<times> bool \<Rightarrow> string \<times> bool" where
  "slug_step r (b, prevHyphen) =
    (if slug_char r then (b @ [r], False)
     else if \<not> prevHyphen \<and> b \<noteq> [] then (b @ ''-'', True)
     else (b, prevHyphen))"

definition slugify :: "string \<Rightarrow> string" where
  "slugify name =
    trim (\<lambda>c. c = CHR ''-'') (fst (fold slug_step (map to_lower (trim is_space name)) ([], False)))"

definition randSuffix :: "nat \<Rightarrow> string" where
  "randSuffix draw = show_nat (1000 + draw mod 9000)"

definition deriveNodeID :: "nat \<Rightarrow> string \<Rightarrow> string \<Rightarrow> string" where
  "deriveNodeID draw nodeID name =
    (let s = trim is_space nodeID in
     if s \<noteq> '''' then s
     else let slug = slugify name in
       if slug \<noteq> '''' then slug @ ''-'' @ randSuffix draw else ''exit-'' @ randSuffix draw)"

section \<open>State\<close>

record exit_session =
  es_sess :: session_path
  es_incoming :: "signal list"
  es_clientIP :: string
  es_stun :: string
  es_turn :: string
  es_turnUser :: string
  es_turnPass :: string
  es_rtt :: int
  es_startedAt :: gotime
  es_suspended :: bool
  es_suspendedAt :: gotime
  es_bytesUp :: u64
  es_bpsUp :: float64
  es_bpsDown :: float64

text \<open>The goroutines of a session: where \<open>runDirect\<close> stands, and the state of \<open>telemetry.Run\<close>.\<close>

datatype direct_pc = DirectNew | DirectChecking | DirectServing conn

record direct_task =
  dt_pc :: direct_pc
  dt_ctx :: nat
  dt_sid :: u64

record report_task =
  rt_cw :: "conn option"
  rt_ctx :: nat
  rt_sid :: u64
  rt_meta :: meta
  rt_state :: reporter

datatype exit_effect =
  TunWrote bytes
| DatagramSent conn bytes
| CtrlWrote conn control
| ConnClosed conn

text \<open>
  Contexts are numbered; \<open>xn_cancelled\<close> holds the cancelled ones. \<open>xn_last\<close> is the variable \<open>last\<close> of the
  throughput sampler.
\<close>

record exit_st =
  xn_conn :: "conn option"
  xn_connCtx :: nat
  xn_nodeID :: string
  xn_displayName :: string
  xn_region :: string
  xn_direct :: bool
  xn_directMode :: string
  xn_stun :: string
  xn_turn :: string
  xn_turnUser :: string
  xn_turnPass :: string
  xn_iceKeepalive :: duration
  xn_rateBytes :: float64
  xn_reportInterval :: duration
  xn_sessions :: "(u64, nat) gomap"
  xn_byIP :: "(addr, u64) gomap"
  xn_objs :: "(nat, exit_session) gomap"
  xn_next :: nat
  xn_cancelled :: "nat list"
  xn_directs :: "(nat, direct_task) gomap"
  xn_reporters :: "(nat, report_task) gomap"
  xn_last :: "(u64, u64 \<times> u64) gomap"
  xn_out :: "exit_effect list"

record exit_env =
  xe_parse6 :: "string \<Rightarrow> parse_error + addr"
  xe_show6 :: "128 word \<Rightarrow> string"
  xe_transport :: "conn \<Rightarrow> bytes \<Rightarrow> string option"
  xe_unmarshal :: "bytes \<Rightarrow> signal option"
  xe_marshal :: "signal \<Rightarrow> bytes"
  xe_host :: string
  xe_tun :: string
  xe_os :: string

record exit_flags =
  xf_nodeId :: string
  xf_name :: string
  xf_region :: string
  xf_rateBytes :: float64
  xf_reportInterval :: duration
  xf_direct :: bool
  xf_directMode :: string
  xf_stun :: string
  xf_turn :: string
  xf_turnUser :: string
  xf_turnPass :: string
  xf_iceKeepalive :: duration

definition exit_init :: "nat \<Rightarrow> exit_flags \<Rightarrow> exit_st" where
  "exit_init draw fl =
    \<lparr>xn_conn = None, xn_connCtx = 0, xn_nodeID = deriveNodeID draw (xf_nodeId fl) (xf_name fl),
     xn_displayName = xf_name fl, xn_region = xf_region fl, xn_direct = xf_direct fl,
     xn_directMode = xf_directMode fl, xn_stun = xf_stun fl, xn_turn = xf_turn fl,
     xn_turnUser = xf_turnUser fl, xn_turnPass = xf_turnPass fl,
     xn_iceKeepalive = xf_iceKeepalive fl, xn_rateBytes = xf_rateBytes fl,
     xn_reportInterval = xf_reportInterval fl, xn_sessions = [], xn_byIP = [], xn_objs = [],
     xn_next = 0, xn_cancelled = [], xn_directs = [], xn_reporters = [], xn_last = [], xn_out = []\<rparr>"

section \<open>Packets and small helpers\<close>

definition ipv4Dst :: "bytes \<Rightarrow> addr option" where
  "ipv4Dst pkt =
    (if length pkt < 20 \<or> drop_bit 4 (pkt ! 0) \<noteq> 4 then None
     else Some (AddrFrom4 [pkt ! 16, pkt ! 17, pkt ! 18, pkt ! 19]))"

definition ipv4Src :: "bytes \<Rightarrow> addr option" where
  "ipv4Src pkt =
    (if length pkt < 20 \<or> drop_bit 4 (pkt ! 0) \<noteq> 4 then None
     else Some (AddrFrom4 [pkt ! 12, pkt ! 13, pkt ! 14, pkt ! 15]))"

definition relayEncode :: "u64 \<Rightarrow> bytes \<Rightarrow> bytes" where
  "relayEncode sid pkt = EncodeDatagram sid pkt"

definition splitCSV :: "string \<Rightarrow> string list" where
  "splitCSV s = (if s = '''' then [] else split_at_char (CHR '','') s)"

definition orStr :: "string \<Rightarrow> string \<Rightarrow> string" where
  "orStr a b = (if a \<noteq> '''' then a else b)"

definition x_effect :: "exit_effect \<Rightarrow> exit_st \<Rightarrow> exit_st" where
  "x_effect e x = x\<lparr>xn_out := xn_out x @ [e]\<rparr>"

text \<open>A write on the current control stream; before the first connection there is none.\<close>

definition x_write :: "conn option \<Rightarrow> control \<Rightarrow> exit_st \<Rightarrow> exit_st" where
  "x_write cw m x = (case cw of None \<Rightarrow> x | Some c \<Rightarrow> x_effect (CtrlWrote c m) x)"

definition upd_es :: "nat \<Rightarrow> (exit_session \<Rightarrow> exit_session) \<Rightarrow> exit_st \<Rightarrow> exit_st" where
  "upd_es r f x =
    (case mget (xn_objs x) r of None \<Rightarrow> x | Some es \<Rightarrow> x\<lparr>xn_objs := mput (xn_objs x) r (f es)\<rparr>)"

definition on_session :: "u64 \<Rightarrow> (exit_session \<Rightarrow> exit_session) \<Rightarrow> exit_st \<Rightarrow> exit_st" where
  "on_session sid f x =
    (case mget (xn_sessions x) sid of None \<Rightarrow> x | Some r \<Rightarrow> upd_es r f x)"

section \<open>Sessions\<close>

definition exit_meta :: "exit_env \<Rightarrow> exit_session \<Rightarrow> meta" where
  "exit_meta env es =
    \<lparr>mt_Host = xe_host env, mt_TunName = xe_tun env, mt_OS = xe_os env,
     mt_UsingStun = (es_stun es \<noteq> ''''), mt_UsingTurn = (es_turn es \<noteq> ''''), mt_Downlink = True,
     mt_HostStat = None\<rparr>"

text \<open>The goroutines \<open>addSession\<close> starts for the object \<open>r\<close>.\<close>

definition start_tasks :: "exit_env \<Rightarrow> gotime \<Rightarrow> u64 \<Rightarrow> nat \<Rightarrow> exit_session \<Rightarrow> exit_st \<Rightarrow> exit_st" where
  "start_tasks env now sid r es x =
    (let x = (if xn_reportInterval x > 0
              then x\<lparr>xn_reporters := mput (xn_reporters x) r
                      \<lparr>rt_cw = xn_conn x, rt_ctx = xn_connCtx x, rt_sid = sid, rt_meta = exit_meta env es,
                       rt_state = \<lparr>rp_lastBytes = 0, rp_last = now\<rparr>\<rparr>\<rparr>
              else x)
     in if xn_direct x
        then x\<lparr>xn_directs := mput (xn_directs x) r
                \<lparr>dt_pc = DirectNew, dt_ctx = xn_connCtx x, dt_sid = sid\<rparr>\<rparr>
        else x)"

definition new_es :: "gotime \<Rightarrow> control \<Rightarrow> session_path \<Rightarrow> exit_session" where
  "new_es now msg sess =
    \<lparr>es_sess = sess, es_incoming = [], es_clientIP = c_ClientIP msg, es_stun = c_StunURL msg,
     es_turn = c_TurnURL msg, es_turnUser = c_TurnUser msg, es_turnPass = c_TurnPass msg, es_rtt = 0,
     es_startedAt = now, es_suspended = False, es_suspendedAt = 0, es_bytesUp = 0, es_bpsUp = 0,
     es_bpsDown = 0\<rparr>"

definition addSession :: "exit_env \<Rightarrow> gotime \<Rightarrow> control \<Rightarrow> exit_st \<Rightarrow> exit_st" where
  "addSession env now msg x =
    (let sid = c_SessionID msg in
     case ParseAddr (xe_parse6 env) (c_ClientIP msg) of
       Inl _ \<Rightarrow> x
     | Inr ip \<Rightarrow>
         (case mget (xn_sessions x) sid of
            Some r \<Rightarrow> upd_es r (\<lambda>es. es\<lparr>es_suspended := False\<rparr>) x
          | None \<Rightarrow>
              (case StartRelay \<lparr>Sender = xn_conn x, Encode = relayEncode sid\<rparr> (session_New sid) of
                 (Some _, _) \<Rightarrow> x
               | (None, sess) \<Rightarrow>
                   (let sess = (if xn_rateBytes x > 0
                                then SetRateLimit (xn_rateBytes x) (xn_rateBytes x * 2) sess else sess);
                        es = new_es now msg sess;
                        r = xn_next x
                    in start_tasks env now sid r es
                         (x\<lparr>xn_objs := mput (xn_objs x) r es, xn_next := Suc r,
                            xn_sessions := mput (xn_sessions x) sid r,
                            xn_byIP := mput (xn_byIP x) ip sid\<rparr>)))))"

definition removeSession :: "exit_env \<Rightarrow> u64 \<Rightarrow> exit_st \<Rightarrow> exit_st" where
  "removeSession env sid x =
    (let es = Option.bind (mget (xn_sessions x) sid) (mget (xn_objs x));
         x = x\<lparr>xn_sessions := mdel (xn_sessions x) sid\<rparr>
     in case es of
          None \<Rightarrow> x
        | Some es \<Rightarrow>
            (case ParseAddr (xe_parse6 env) (es_clientIP es) of
               Inl _ \<Rightarrow> x
             | Inr ip \<Rightarrow> x\<lparr>xn_byIP := mdel (xn_byIP x) ip\<rparr>))"

text \<open>The capacity of the channel \<open>incoming\<close>; a full channel drops the signal.\<close>

definition incoming_cap :: nat where
  "incoming_cap = 64"

definition push_signal :: "signal \<Rightarrow> exit_session \<Rightarrow> exit_session" where
  "push_signal s es =
    (if length (es_incoming es) < incoming_cap then es\<lparr>es_incoming := es_incoming es @ [s]\<rparr> else es)"

definition controlMessage :: "exit_env \<Rightarrow> gotime \<Rightarrow> control \<Rightarrow> exit_st \<Rightarrow> exit_st" where
  "controlMessage env now msg x =
    (case c_Type msg of
       MsgSessionStart \<Rightarrow> addSession env now msg x
     | MsgSessionSuspend \<Rightarrow>
         on_session (c_SessionID msg) (\<lambda>es. es\<lparr>es_suspended := True, es_suspendedAt := now\<rparr>) x
     | MsgSessionEnd \<Rightarrow> removeSession env (c_SessionID msg) x
     | MsgPong \<Rightarrow>
         on_session (c_SessionID msg) (\<lambda>es. es\<lparr>es_rtt := Observe now (c_TS msg) (es_rtt es)\<rparr>) x
     | MsgSignal \<Rightarrow>
         (case xe_unmarshal env (c_Signal msg) of
            None \<Rightarrow> x
          | Some s \<Rightarrow> on_session (c_SessionID msg) (push_signal s) x)
     | _ \<Rightarrow> x)"

section \<open>Data plane\<close>

definition writeInbound :: "exit_env \<Rightarrow> nat \<Rightarrow> bytes \<Rightarrow> exit_st \<Rightarrow> exit_st" where
  "writeInbound env r pkt x =
    (case mget (xn_objs x) r of
       None \<Rightarrow> x
     | Some es \<Rightarrow>
         (case ipv4Src pkt of
            None \<Rightarrow> x
          | Some src \<Rightarrow>
              if AddrString (xe_show6 env) src \<noteq> es_clientIP es then x
              else x_effect (TunWrote pkt)
                     (upd_es r (\<lambda>es. es\<lparr>es_bytesUp := es_bytesUp es + of_nat (length pkt)\<rparr>) x)))"

text \<open>One datagram of \<open>datagramToTun\<close>, and one packet of \<open>tunToDatagram\<close>.\<close>

definition datagramToTun :: "exit_env \<Rightarrow> bytes \<Rightarrow> exit_st \<Rightarrow> exit_st" where
  "datagramToTun env dg x =
    (case DecodeDatagram dg of
       Inl _ \<Rightarrow> x
     | Inr (sid, pkt) \<Rightarrow>
         (case mget (xn_sessions x) sid of
            None \<Rightarrow> x
          | Some r \<Rightarrow> writeInbound env r pkt x))"

definition tunToDatagram :: "exit_env \<Rightarrow> gotime \<Rightarrow> bytes \<Rightarrow> exit_st \<Rightarrow> exit_st" where
  "tunToDatagram env now pkt x =
    (case ipv4Dst pkt of
       None \<Rightarrow> x
     | Some dst \<Rightarrow>
         (case Option.bind (mget (xn_byIP x) dst) (mget (xn_sessions x)) of
            None \<Rightarrow> x
          | Some r \<Rightarrow>
              (case mget (xn_objs x) r of
                 None \<Rightarrow> x
               | Some es \<Rightarrow>
                   (case Send (xe_transport env) now pkt (es_sess es) of
                      (_, sent, sess) \<Rightarrow>
                        (let x = upd_es r (\<lambda>es. es\<lparr>es_sess := sess\<rparr>) x in
                         case sent of
                           None \<Rightarrow> x
                         | Some (c, d) \<Rightarrow> x_effect (DatagramSent c d) x)))))"

section \<open>Direct path of a session\<close>

definition direct_config :: "exit_session \<Rightarrow> exit_st \<Rightarrow> pion_config" where
  "direct_config es x =
    \<lparr>pc_Role = RoleControlled, pc_STUNURLs = splitCSV (orStr (es_stun es) (xn_stun x)),
     pc_TURNURLs = splitCSV (orStr (es_turn es) (xn_turn x)),
     pc_TURNUser = orStr (es_turnUser es) (xn_turnUser x),
     pc_TURNPass = orStr (es_turnPass es) (xn_turnPass x), pc_KeepaliveInterval = xn_iceKeepalive x,
     pc_FailedTimeout = 0, pc_DisconnectedTimeout = 0, pc_DisableMDNS = False, pc_IncludeLoopback = False\<rparr>"

text \<open>The goroutine at \<open>r\<close> returns, or goes on to \<open>pc\<close>.\<close>

definition direct_return :: "nat \<Rightarrow> exit_st \<Rightarrow> exit_st" where
  "direct_return r x = x\<lparr>xn_directs := mdel (xn_directs x) r\<rparr>"

definition direct_goto :: "nat \<Rightarrow> direct_task \<Rightarrow> direct_pc \<Rightarrow> exit_st \<Rightarrow> exit_st" where
  "direct_goto r dt pc x = x\<lparr>xn_directs := mput (xn_directs x) r (dt\<lparr>dt_pc := pc\<rparr>)\<rparr>"

text \<open>
  \<open>runDirect\<close> in the parts between its blocking calls: up to \<open>Negotiate\<close> (with the agent that
  \<open>NewPionAgent\<close> gives for the configuration, or its error), the result of \<open>Negotiate\<close>, a datagram
  received on the direct connection, and the end of that connection.
\<close>

definition direct_begin ::
  "pion_lib \<Rightarrow> nat \<Rightarrow> exit_st \<Rightarrow> exit_st" where
  "direct_begin lib r x =
    (case (mget (xn_directs x) r, mget (xn_objs x) r) of
       (Some dt, Some es) \<Rightarrow>
         if dt_pc dt \<noteq> DirectNew then x
         else (case NewPionAgent lib (direct_config es x) of
                 Inl _ \<Rightarrow> direct_return r x
               | Inr _ \<Rightarrow>
                   (case BeginChecks (es_sess es) of
                      (Some _, sess) \<Rightarrow> direct_return r (upd_es r (\<lambda>es. es\<lparr>es_sess := sess\<rparr>) x)
                    | (None, sess) \<Rightarrow>
                        direct_goto r dt DirectChecking (upd_es r (\<lambda>es. es\<lparr>es_sess := sess\<rparr>) x)))
     | _ \<Rightarrow> x)"

definition signal_msg :: "exit_env \<Rightarrow> u64 \<Rightarrow> signal \<Rightarrow> control" where
  "signal_msg env sid s = (control_of MsgSignal)\<lparr>c_SessionID := sid, c_Signal := xe_marshal env s\<rparr>"

definition direct_result ::
  "exit_env \<Rightarrow> ice_agent \<Rightarrow> (signal \<Rightarrow> string option) \<Rightarrow> signal list \<Rightarrow> nat \<Rightarrow> exit_st \<Rightarrow> exit_st" where
  "direct_result env agent send sigs r x =
    (case (mget (xn_directs x) r, mget (xn_objs x) r) of
       (Some dt, Some es) \<Rightarrow>
         if dt_pc dt \<noteq> DirectChecking then x
         else
           (case Negotiate agent RoleControlled (show_u64 (dt_sid dt)) send sigs
                   (xn_directMode x = ''p2p-only'') of
              (sent, res) \<Rightarrow>
                (let x = fold (\<lambda>s. x_write (xn_conn x) (signal_msg env (dt_sid dt) s)) sent x in
                 case res of
                   Inl _ \<Rightarrow>
                     direct_return r (upd_es r (\<lambda>es. es\<lparr>es_sess := snd (ChecksFailed (es_sess es))\<rparr>) x)
                 | Inr qc \<Rightarrow>
                     (case UpgradeDirect \<lparr>Sender = Some qc, Encode = Identity\<rparr> (es_sess es) of
                        (Some _, sess) \<Rightarrow> direct_return r (upd_es r (\<lambda>es. es\<lparr>es_sess := sess\<rparr>) x)
                      | (None, sess) \<Rightarrow>
                          direct_goto r dt (DirectServing qc) (upd_es r (\<lambda>es. es\<lparr>es_sess := sess\<rparr>) x))))
     | _ \<Rightarrow> x)"

definition direct_datagram :: "exit_env \<Rightarrow> nat \<Rightarrow> bytes \<Rightarrow> exit_st \<Rightarrow> exit_st" where
  "direct_datagram env r dg x =
    (case mget (xn_directs x) r of
       Some dt \<Rightarrow> (case dt_pc dt of DirectServing _ \<Rightarrow> writeInbound env r dg x | _ \<Rightarrow> x)
     | None \<Rightarrow> x)"

definition direct_lost :: "nat \<Rightarrow> exit_st \<Rightarrow> exit_st" where
  "direct_lost r x =
    (case mget (xn_directs x) r of
       Some dt \<Rightarrow>
         (case dt_pc dt of
            DirectServing _ \<Rightarrow>
              if dt_ctx dt \<in> set (xn_cancelled x) then direct_return r x
              else direct_return r
                     (upd_es r (\<lambda>es. es\<lparr>es_sess :=
                        snd (FallbackRelay \<lparr>Sender = xn_conn x, Encode = relayEncode (dt_sid dt)\<rparr>
                               (es_sess es))\<rparr>) x)
          | _ \<Rightarrow> x)
     | None \<Rightarrow> x)"

section \<open>Reports and status\<close>

text \<open>A tick of the reporter goroutine at \<open>r\<close>, and its end with its context.\<close>

definition session_report :: "gotime \<Rightarrow> nat \<Rightarrow> exit_st \<Rightarrow> exit_st" where
  "session_report now r x =
    (case (mget (xn_reporters x) r, mget (xn_objs x) r) of
       (Some rt, Some es) \<Rightarrow>
         (case report_tick now (rt_sid rt) (es_sess es) (rt_meta rt) (es_rtt es) (rt_state rt) of
            (msgs, rp) \<Rightarrow>
              fold (x_write (rt_cw rt)) msgs
                (x\<lparr>xn_reporters := mput (xn_reporters x) r (rt\<lparr>rt_state := rp\<rparr>)\<rparr>))
     | _ \<Rightarrow> x)"

definition report_stop :: "nat \<Rightarrow> exit_st \<Rightarrow> exit_st" where
  "report_stop r x =
    (case mget (xn_reporters x) r of
       Some rt \<Rightarrow> if rt_ctx rt \<in> set (xn_cancelled x)
                  then x\<lparr>xn_reporters := mdel (xn_reporters x) r\<rparr> else x
     | None \<Rightarrow> x)"

definition node_status :: "float64 \<Rightarrow> float64 \<Rightarrow> float64 \<Rightarrow> exit_st \<Rightarrow> exit_st" where
  "node_status cpu mem disk x =
    x_write (xn_conn x)
      ((control_of MsgNodeStatus)\<lparr>c_CPUPct := cpu, c_MemPct := mem, c_DiskPct := disk\<rparr>) x"

definition ewma :: "float64 \<Rightarrow> float64 \<Rightarrow> float64" where
  "ewma old sample = (if old = 0 then sample else (1 / 2) * old + (1 / 2) * sample)"

text \<open>The sampler on one session of its snapshot. The differences are of \<open>uint64\<close> and wrap.\<close>

definition sample_one :: "u64 \<times> nat \<Rightarrow> exit_st \<Rightarrow> exit_st" where
  "sample_one = (\<lambda>(sid, r) x.
    (case mget (xn_objs x) r of
       None \<Rightarrow> x
     | Some es \<Rightarrow>
         (let down = fst (Stats (es_sess es));
              up = es_bytesUp es;
              p = (case mget (xn_last x) sid of None \<Rightarrow> (0, 0) | Some p \<Rightarrow> p);
              x = x\<lparr>xn_last := mput (xn_last x) sid (up, down)\<rparr>
          in if p = (0, 0) then x
             else
               let upBps = of_nat (unat (up - fst p)) / 2;
                   downBps = of_nat (unat (down - snd p)) / 2
               in upd_es r (\<lambda>es. es\<lparr>es_bpsUp := ewma (es_bpsUp es) upBps,
                                    es_bpsDown := ewma (es_bpsDown es) downBps\<rparr>) x)))"

definition sampleThroughput :: "exit_st \<Rightarrow> exit_st" where
  "sampleThroughput x =
    (let x' = fold sample_one (xn_sessions x) x
     in x'\<lparr>xn_last := filter (\<lambda>(sid, _). sid \<in> set (map fst (xn_sessions x))) (xn_last x')\<rparr>)"

record status_session =
  st_SessionID :: u64
  st_ClientIP :: string
  st_Mode :: string
  st_State :: string
  st_LatencyMs :: int
  st_BytesUp :: u64
  st_BytesDown :: u64
  st_BpsUp :: float64
  st_BpsDown :: float64
  st_UsingTurn :: bool
  st_DurationSec :: int

record status_info =
  si_NodeID :: string
  si_Name :: string
  si_Region :: string
  si_OS :: string
  si_Clients :: nat
  si_Parked :: nat
  si_BpsUp :: float64
  si_BpsDown :: float64

definition status_row :: "gotime \<Rightarrow> u64 \<Rightarrow> exit_session \<Rightarrow> status_session" where
  "status_row now sid es =
    \<lparr>st_SessionID = sid, st_ClientIP = es_clientIP es,
     st_Mode = (if IsDirect (es_sess es) then ''direct'' else ''relay''),
     st_State = (if es_suspended es then ''parked'' else ''active''), st_LatencyMs = es_rtt es,
     st_BytesUp = es_bytesUp es, st_BytesDown = fst (Stats (es_sess es)), st_BpsUp = es_bpsUp es,
     st_BpsDown = es_bpsDown es, st_UsingTurn = (es_turn es \<noteq> ''''),
     st_DurationSec = sgn (now - es_startedAt es) * (\<bar>now - es_startedAt es\<bar> div 1000000000)\<rparr>"

definition table_sessions :: "exit_st \<Rightarrow> (u64 \<times> exit_session) list" where
  "table_sessions x =
    List.map_filter (\<lambda>(sid, r). map_option (Pair sid) (mget (xn_objs x) r)) (xn_sessions x)"

definition statusViews :: "exit_env \<Rightarrow> gotime \<Rightarrow> exit_st \<Rightarrow> status_info \<times> status_session list" where
  "statusViews env now x =
    (let ss = table_sessions x;
         out = sort_key st_SessionID (map (\<lambda>(sid, es). status_row now sid es) ss);
         parked = length (filter (\<lambda>(sid, es). es_suspended es) ss)
     in (\<lparr>si_NodeID = xn_nodeID x, si_Name = xn_displayName x, si_Region = xn_region x,
          si_OS = xe_os env, si_Clients = length out - parked, si_Parked = parked,
          si_BpsUp = sum_list (map (\<lambda>(sid, es). es_bpsUp es) ss),
          si_BpsDown = sum_list (map (\<lambda>(sid, es). es_bpsDown es) ss)\<rparr>, out))"

section \<open>Connection to the broker\<close>

text \<open>What the QUIC library answers to one attempt.\<close>

record dial_io =
  dl_dial :: "string + conn"
  dl_open :: "string option"
  dl_write :: "string option"
  dl_read :: "string + control"

definition register_msg :: "exit_env \<Rightarrow> string \<Rightarrow> string \<Rightarrow> string \<Rightarrow> string \<Rightarrow> int \<Rightarrow> control" where
  "register_msg env nodeID name region token capacity =
    (control_of MsgRegister)\<lparr>c_NodeID := nodeID, c_Name := name, c_Region := region, c_Token := token,
       c_Capacity := capacity, c_OS := xe_os env\<rparr>"

definition dialRegister :: "control \<Rightarrow> dial_io \<Rightarrow> exit_effect list \<times> (string + conn)" where
  "dialRegister reg io =
    (case dl_dial io of
       Inl err \<Rightarrow> ([], Inl err)
     | Inr c \<Rightarrow>
         (case dl_open io of
            Some err \<Rightarrow> ([ConnClosed c], Inl err)
          | None \<Rightarrow>
              (case dl_write io of
                 Some err \<Rightarrow> ([ConnClosed c], Inl err)
               | None \<Rightarrow>
                   (case dl_read io of
                      Inl err \<Rightarrow> ([CtrlWrote c reg, ConnClosed c], Inl err)
                    | Inr _ \<Rightarrow> ([CtrlWrote c reg], Inr c)))))"

definition next_backoff :: "duration \<Rightarrow> duration" where
  "next_backoff backoff = (let b = backoff * 2 in if b > 15 * second then 15 * second else b)"

text \<open>
  The attempts of the reconnect loop up to the next \<open>serve\<close>: \<open>dial k\<close> is the result of attempt \<open>k\<close>.
  The value is the connection and the sleeps before it; a loop that never connects has none.
\<close>

partial_function (option) reconnect ::
  "(nat \<Rightarrow> string + conn) \<Rightarrow> nat \<Rightarrow> duration \<Rightarrow> duration list \<Rightarrow> (conn \<times> duration list) option" where
  "reconnect dial k backoff slept =
    (case dial k of
       Inr c \<Rightarrow> Some (c, slept)
     | Inl _ \<Rightarrow> reconnect dial (Suc k) (next_backoff backoff) (slept @ [backoff]))"

text \<open>\<open>serve\<close> up to its wait, and after it.\<close>

definition serve_begin :: "conn \<Rightarrow> exit_st \<Rightarrow> exit_st" where
  "serve_begin c x = x\<lparr>xn_conn := Some c, xn_connCtx := Suc (xn_connCtx x), xn_sessions := [], xn_byIP := []\<rparr>"

definition serve_end :: "exit_st \<Rightarrow> exit_st" where
  "serve_end x =
    (case xn_conn x of
       None \<Rightarrow> x
     | Some c \<Rightarrow> (x_effect (ConnClosed c) x)
         \<lparr>xn_cancelled := xn_connCtx x # xn_cancelled x, xn_sessions := [], xn_byIP := []\<rparr>)"

section \<open>Runs of the exit\<close>

text \<open>
  What happens to a running exit: each event is one activation of one of its goroutines.
  \<open>SignalTaken\<close> is the negotiation goroutine receiving from \<open>incoming\<close>.
\<close>

datatype exit_in =
  Served conn
| ServeEnded
| FromBroker gotime control
| FromRelay bytes
| FromTun gotime bytes
| DirectBegins pion_lib nat
| SignalTaken nat
| DirectNegotiated ice_agent "signal \<Rightarrow> string option" "signal list" nat
| DirectDatagram nat bytes
| DirectLost nat
| ReportTick gotime nat
| ReportStops nat
| NodeTick float64 float64 float64
| SampleTick

fun exit_handle :: "exit_env \<Rightarrow> exit_in \<Rightarrow> exit_st \<Rightarrow> exit_st" where
  "exit_handle env (Served c) x = serve_begin c x"
| "exit_handle env ServeEnded x = serve_end x"
| "exit_handle env (FromBroker now msg) x = controlMessage env now msg x"
| "exit_handle env (FromRelay dg) x = datagramToTun env dg x"
| "exit_handle env (FromTun now pkt) x = tunToDatagram env now pkt x"
| "exit_handle env (DirectBegins mk r) x = direct_begin mk r x"
| "exit_handle env (SignalTaken r) x = upd_es r (\<lambda>es. es\<lparr>es_incoming := tl (es_incoming es)\<rparr>) x"
| "exit_handle env (DirectNegotiated ag send sigs r) x = direct_result env ag send sigs r x"
| "exit_handle env (DirectDatagram r dg) x = direct_datagram env r dg x"
| "exit_handle env (DirectLost r) x = direct_lost r x"
| "exit_handle env (ReportTick now r) x = session_report now r x"
| "exit_handle env (ReportStops r) x = report_stop r x"
| "exit_handle env (NodeTick cpu mem disk) x = node_status cpu mem disk x"
| "exit_handle env SampleTick x = sampleThroughput x"

definition exit_start :: "exit_st \<Rightarrow> bool" where
  "exit_start x = (\<exists>draw fl. x = exit_init draw fl)"

inductive exit_trans :: "exit_env \<Rightarrow> (exit_in \<Rightarrow> exit_st \<Rightarrow> bool) \<Rightarrow> exit_st \<Rightarrow> exit_st \<Rightarrow> bool"
  for env :: exit_env and allowed :: "exit_in \<Rightarrow> exit_st \<Rightarrow> bool" where
  "allowed ev x \<Longrightarrow> exit_trans env allowed x (exit_handle env ev x)"

abbreviation exit_run :: "exit_env \<Rightarrow> (exit_in \<Rightarrow> exit_st \<Rightarrow> bool) \<Rightarrow> exit_st \<Rightarrow> bool" where
  "exit_run env allowed \<equiv> reach exit_start (exit_trans env allowed)"

definition any_event :: "exit_in \<Rightarrow> exit_st \<Rightarrow> bool" where
  "any_event ev x = True"

text \<open>
  What the exit relies on the broker for: a new session comes with the text of an IPv4 address, and no
  session the exit still holds has this address.
\<close>

fun broker_promise :: "exit_env \<Rightarrow> exit_in \<Rightarrow> exit_st \<Rightarrow> bool" where
  "broker_promise env (FromBroker now msg) x =
    (c_Type msg = MsgSessionStart \<and> mget (xn_sessions x) (c_SessionID msg) = None \<longrightarrow>
       (case ParseAddr (xe_parse6 env) (c_ClientIP msg) of
          Inr (Addr4 w) \<Rightarrow> c_ClientIP msg = string4 w \<and> mget (xn_byIP x) (Addr4 w) = None
        | _ \<Rightarrow> False))"
| "broker_promise env _ x = True"

section \<open>Node ids\<close>

lemma slug_step_chars:
  "set (fst acc) \<subseteq> {c. slug_char c \<or> c = CHR ''-''} \<Longrightarrow>
    set (fst (slug_step r acc)) \<subseteq> {c. slug_char c \<or> c = CHR ''-''}"
  by (cases acc) simp

lemma slug_fold_chars:
  "set (fst acc) \<subseteq> {c. slug_char c \<or> c = CHR ''-''} \<Longrightarrow>
    set (fst (fold slug_step s acc)) \<subseteq> {c. slug_char c \<or> c = CHR ''-''}"
  by (induction s arbitrary: acc) (simp_all only: fold_simps slug_step_chars)

text \<open>A slug has lower-case letters, digits and inner hyphens only.\<close>

lemma slugify_chars: "c \<in> set (slugify name) \<Longrightarrow> slug_char c \<or> c = CHR ''-''"
  using slug_fold_chars [of "([], False)"] set_trim unfolding slugify_def by fastforce

lemma slugify_ends:
  "slugify name \<noteq> [] \<Longrightarrow> hd (slugify name) \<noteq> CHR ''-'' \<and> last (slugify name) \<noteq> CHR ''-''"
  using trim_ends unfolding slugify_def by blast

lemma deriveNodeID_nonempty: "deriveNodeID draw nodeID name \<noteq> []"
  by (simp add: deriveNodeID_def Let_def)

end
