(* ===== verification/ExitRuns.thy ===== *)
theory ExitRuns
  imports ExitNode
begin

text \<open>
  Runs of the exit node: the invariant of its objects and goroutines under every event, and the agreement
  of its two tables when the broker keeps its promise. Both are interpretations of the invariant
  interface.
\<close>

section \<open>Frame\<close>

named_theorems xframe \<open>fields an operation of the exit leaves alone\<close>

lemma x_effect_frame [simp, xframe]:
  "xn_sessions (x_effect e x) = xn_sessions x" "xn_byIP (x_effect e x) = xn_byIP x"
  "xn_objs (x_effect e x) = xn_objs x" "xn_next (x_effect e x) = xn_next x"
  "xn_directs (x_effect e x) = xn_directs x" "xn_reporters (x_effect e x) = xn_reporters x"
  "xn_conn (x_effect e x) = xn_conn x" "xn_out (x_effect e x) = xn_out x @ [e]"
  by (simp_all add: x_effect_def)

lemma x_write_frame [simp, xframe]:
  "xn_sessions (x_write c m x) = xn_sessions x" "xn_byIP (x_write c m x) = xn_byIP x"
  "xn_objs (x_write c m x) = xn_objs x" "xn_next (x_write c m x) = xn_next x"
  "xn_directs (x_write c m x) = xn_directs x" "xn_reporters (x_write c m x) = xn_reporters x"
  "xn_conn (x_write c m x) = xn_conn x"
  by (simp_all add: x_write_def split: option.split)

lemma fold_write_frame [simp, xframe]:
  "xn_sessions (fold (\<lambda>s. x_write c (f s)) ms x) = xn_sessions x"
  "xn_byIP (fold (\<lambda>s. x_write c (f s)) ms x) = xn_byIP x"
  "xn_objs (fold (\<lambda>s. x_write c (f s)) ms x) = xn_objs x"
  "xn_next (fold (\<lambda>s. x_write c (f s)) ms x) = xn_next x"
  "xn_directs (fold (\<lambda>s. x_write c (f s)) ms x) = xn_directs x"
  "xn_reporters (fold (\<lambda>s. x_write c (f s)) ms x) = xn_reporters x"
  by (induction ms arbitrary: x) simp_all

lemma upd_es_frame [simp, xframe]:
  "xn_sessions (upd_es r f x) = xn_sessions x" "xn_byIP (upd_es r f x) = xn_byIP x"
  "xn_next (upd_es r f x) = xn_next x" "xn_directs (upd_es r f x) = xn_directs x"
  "xn_reporters (upd_es r f x) = xn_reporters x" "xn_conn (upd_es r f x) = xn_conn x"
  "xn_out (upd_es r f x) = xn_out x"
  by (simp_all add: upd_es_def split: option.split)

lemma mget_upd_es [simp, xframe]:
  "mget (xn_objs (upd_es r f x)) r' =
    (if r' = r then map_option f (mget (xn_objs x) r) else mget (xn_objs x) r')"
  by (simp add: upd_es_def split: option.split)

section \<open>Objects and goroutines\<close>

text \<open>
  A session object always has a path that matches its state: sid-prefixed datagrams on the relay, bare
  packets on the direct path. It is never closed.
\<close>

definition es_ok :: "exit_session \<Rightarrow> bool" where
  "es_ok es =
    (length (es_incoming es) \<le> incoming_cap \<and>
     path_inv (\<lambda>p. Encode p = relayEncode (sp_ID (es_sess es))) (\<lambda>p. Encode p = Identity) (es_sess es) \<and>
     session_State (es_sess es) \<in> {StateRelaying, StateChecking, StateDirect} \<and>
     0 \<le> es_bpsUp es \<and> 0 \<le> es_bpsDown es)"

fun pc_ok :: "direct_pc \<Rightarrow> session_path \<Rightarrow> bool" where
  "pc_ok DirectNew s = (session_State s = StateRelaying)"
| "pc_ok DirectChecking s = (session_State s = StateChecking)"
| "pc_ok (DirectServing qc) s = (session_State s = StateDirect \<and> Sender (sp_path s) = Some qc)"

definition task_ok :: "direct_task \<Rightarrow> exit_session \<Rightarrow> bool" where
  "task_ok dt es = (dt_sid dt = sp_ID (es_sess es) \<and> pc_ok (dt_pc dt) (es_sess es))"

definition has_obj :: "exit_st \<Rightarrow> nat \<Rightarrow> (exit_session \<Rightarrow> bool) \<Rightarrow> bool" where
  "has_obj x r P = (case mget (xn_objs x) r of None \<Rightarrow> False | Some es \<Rightarrow> P es)"

definition exit_ok :: "exit_st \<Rightarrow> bool" where
  "exit_ok x =
    ((\<forall>r es. mget (xn_objs x) r = Some es \<longrightarrow> r < xn_next x \<and> es_ok es) \<and>
     (\<forall>sid r. mget (xn_sessions x) sid = Some r \<longrightarrow> has_obj x r (\<lambda>es. sp_ID (es_sess es) = sid)) \<and>
     (\<forall>r dt. mget (xn_directs x) r = Some dt \<longrightarrow> has_obj x r (task_ok dt)) \<and>
     (\<forall>r rt. mget (xn_reporters x) r = Some rt \<longrightarrow> has_obj x r (\<lambda>es. sp_ID (es_sess es) = rt_sid rt)))"

lemma exit_ok_init: "exit_ok (exit_init draw fl)"
  by (simp add: exit_ok_def exit_init_def)

text \<open>Only these five fields matter, and entries of the three tables may go.\<close>

lemma has_obj_cong: "xn_objs y = xn_objs x \<Longrightarrow> has_obj y r P = has_obj x r P"
  by (simp add: has_obj_def)

lemma exit_ok_sub:
  assumes "exit_ok x" "xn_objs y = xn_objs x" "xn_next y = xn_next x"
    and "\<And>k v. mget (xn_sessions y) k = Some v \<Longrightarrow> mget (xn_sessions x) k = Some v"
    and "\<And>k v. mget (xn_directs y) k = Some v \<Longrightarrow> mget (xn_directs x) k = Some v"
    and "\<And>k v. mget (xn_reporters y) k = Some v \<Longrightarrow> mget (xn_reporters x) k = Some v"
  shows "exit_ok y"
  using assms(1,4-6) unfolding exit_ok_def has_obj_cong [OF assms(2)] assms(2,3) by blast

lemma exit_ok_cong:
  "exit_ok x \<Longrightarrow> xn_objs y = xn_objs x \<Longrightarrow> xn_next y = xn_next x \<Longrightarrow> xn_sessions y = xn_sessions x \<Longrightarrow>
    xn_directs y = xn_directs x \<Longrightarrow> xn_reporters y = xn_reporters x \<Longrightarrow> exit_ok y"
  by (rule exit_ok_sub) simp_all

lemma exit_ok_effect [simp]: "exit_ok x \<Longrightarrow> exit_ok (x_effect e x)"
  by (erule exit_ok_cong) simp_all

lemma exit_ok_write [simp]: "exit_ok x \<Longrightarrow> exit_ok (x_write c m x)"
  by (erule exit_ok_cong) simp_all

lemma exit_ok_obj: "exit_ok x \<Longrightarrow> mget (xn_objs x) r = Some es \<Longrightarrow> es_ok es"
  by (simp add: exit_ok_def)

lemma exit_ok_direct:
  "exit_ok x \<Longrightarrow> mget (xn_directs x) r = Some dt \<Longrightarrow> mget (xn_objs x) r = Some es \<Longrightarrow> task_ok dt es"
  unfolding exit_ok_def has_obj_def by force

lemma pc_ok_cong:
  "session_State t = session_State s \<Longrightarrow> sp_path t = sp_path s \<Longrightarrow> pc_ok pc t = pc_ok pc s"
  by (cases pc) simp_all

text \<open>
  The one rule for a change of an object: it stays well formed, keeps its id, and its direct-path
  goroutine, if it still has one, agrees with it.
\<close>

lemma exit_ok_update:
  assumes ok: "exit_ok x" and es: "mget (xn_objs x) r = Some es"
    and es': "es_ok es'" "sp_ID (es_sess es') = sp_ID (es_sess es)"
    and objs: "\<And>q. mget (xn_objs y) q = (if q = r then Some es' else mget (xn_objs x) q)"
    and same: "xn_next y = xn_next x" "xn_sessions y = xn_sessions x"
    and rep: "\<And>q rt. mget (xn_reporters y) q = Some rt \<Longrightarrow>
                \<exists>rt'. mget (xn_reporters x) q = Some rt' \<and> rt_sid rt' = rt_sid rt"
    and dir: "\<And>q. q \<noteq> r \<Longrightarrow> mget (xn_directs y) q = mget (xn_directs x) q"
      "\<And>dt. mget (xn_directs y) r = Some dt \<Longrightarrow> task_ok dt es'"
  shows "exit_ok y"
proof -
  have has: "has_obj y q P" if "has_obj x q P" "q = r \<Longrightarrow> P es'" for q P
    using that by (auto simp: has_obj_def objs)
  have 1: "r' < xn_next y \<and> es_ok e" if "mget (xn_objs y) r' = Some e" for r' e
    using that ok es es' by (auto simp: objs same exit_ok_def split: if_splits)
  have 2: "has_obj y q (\<lambda>e. sp_ID (es_sess e) = sid)" if "mget (xn_sessions y) sid = Some q" for q sid
    using that ok es es' by (intro has) (auto simp: same exit_ok_def has_obj_def split: option.splits)
  have 3: "has_obj y q (task_ok dt)" if "mget (xn_directs y) q = Some dt" for q dt
  proof (cases "q = r")
    case True
    with that dir(2) show ?thesis by (simp add: has_obj_def objs)
  next
    case False
    with that ok dir(1) show ?thesis by (intro has) (auto simp: exit_ok_def)
  qed
  have 4: "has_obj y q (\<lambda>e. sp_ID (es_sess e) = rt_sid rt)" if "mget (xn_reporters y) q = Some rt" for q rt
    using rep [OF that] ok es es' by (intro has) (auto simp: exit_ok_def has_obj_def split: option.splits)
  show ?thesis using 1 2 3 4 by (simp add: exit_ok_def)
qed

lemma op_keeps_ID [simp]: "sp_ID (run_op tr op s) = sp_ID s"
  by (cases op)
    (auto simp: StartRelay_def UpgradeDirect_def FallbackRelay_def BeginChecks_def ChecksFailed_def
       Close_def SetRateLimit_def Send_def migrate_def fire_def setPath_def Let_def
       split: prod.splits option.splits)

lemma es_ok_op:
  assumes "es_ok es" "op \<noteq> OpClose"
    and "op_paths (\<lambda>p. Encode p = relayEncode (sp_ID (es_sess es))) (\<lambda>p. Encode p = Identity) op"
  shows "es_ok (es\<lparr>es_sess := run_op tr op (es_sess es)\<rparr>)"
proof -
  have "session_State (run_op tr op (es_sess es)) \<in> {StateRelaying, StateChecking, StateDirect}"
    using assms(1,2) by (cases op; auto simp: es_ok_def op_results)
  with assms show ?thesis by (simp add: es_ok_def path_inv_op)
qed

text \<open>Changes that leave the data path of the object alone.\<close>

lemma exit_ok_upd_es:
  assumes ok: "exit_ok x"
    and f: "\<And>es. es_ok es \<Longrightarrow> es_ok (f es) \<and> es_sess (f es) = es_sess es"
  shows "exit_ok (upd_es r f x)"
proof (cases "mget (xn_objs x) r")
  case None
  with ok show ?thesis by (simp add: upd_es_def)
next
  case (Some es)
  with ok have e: "es_ok es" by (simp add: exit_ok_def)
  show ?thesis
  proof (rule exit_ok_update [OF ok Some, where es' = "f es"])
    show "task_ok dt (f es)" if "mget (xn_directs (upd_es r f x)) r = Some dt" for dt
      using that ok Some f [OF e] by (fastforce simp: exit_ok_def has_obj_def task_ok_def)
  qed (use f [OF e] Some in auto)
qed

lemma exit_ok_on_session:
  "exit_ok x \<Longrightarrow> (\<And>es. es_ok es \<Longrightarrow> es_ok (f es) \<and> es_sess (f es) = es_sess es) \<Longrightarrow>
    exit_ok (on_session sid f x)"
  by (simp add: on_session_def exit_ok_upd_es split: option.split)

text \<open>Changes of the data path, with what becomes of the goroutine.\<close>

lemma exit_ok_op:
  assumes ok: "exit_ok x" and es: "mget (xn_objs x) r = Some es" and "op \<noteq> OpClose"
    and paths: "op_paths (\<lambda>p. Encode p = relayEncode (sp_ID (es_sess es))) (\<lambda>p. Encode p = Identity) op"
    and y: "xn_objs y = xn_objs (upd_es r (\<lambda>es. es\<lparr>es_sess := run_op tr op (es_sess es)\<rparr>) x)"
      "xn_next y = xn_next x" "xn_sessions y = xn_sessions x" "xn_reporters y = xn_reporters x"
    and dir: "\<And>q. q \<noteq> r \<Longrightarrow> mget (xn_directs y) q = mget (xn_directs x) q"
      "\<And>dt. mget (xn_directs y) r = Some dt \<Longrightarrow>
         dt_sid dt = sp_ID (es_sess es) \<and> pc_ok (dt_pc dt) (run_op tr op (es_sess es))"
  shows "exit_ok y"
proof (rule exit_ok_update [OF ok es, where es' = "es\<lparr>es_sess := run_op tr op (es_sess es)\<rparr>"])
  show "es_ok (es\<lparr>es_sess := run_op tr op (es_sess es)\<rparr>)"
    using ok es assms(3) paths by (intro es_ok_op) (auto simp: exit_ok_def)
qed (use y dir es in \<open>auto simp: task_ok_def\<close>)

section \<open>Every event keeps the invariant\<close>

lemma writeInbound_ok: "exit_ok x \<Longrightarrow> exit_ok (writeInbound env r pkt x)"
  unfolding writeInbound_def
  by (simp split: option.split, intro allI impI exit_ok_effect exit_ok_upd_es)
    (simp_all add: es_ok_def)

lemma Send_as_op: "Send tr now pkt s = (e, sent, s') \<Longrightarrow> s' = run_op tr (OpSend now pkt) s"
  by simp

lemma exit_ok_Send:
  assumes ok: "exit_ok x" and r: "mget (xn_objs x) r = Some es"
    and s: "Send tr now pkt (es_sess es) = (e, sent, sess)"
  shows "exit_ok (upd_es r (\<lambda>es. es\<lparr>es_sess := sess\<rparr>) x)"
proof (rule exit_ok_op [OF ok r, where op = "OpSend now pkt" and tr = tr])
  show "dt_sid dt = sp_ID (es_sess es) \<and> pc_ok (dt_pc dt) (run_op tr (OpSend now pkt) (es_sess es))"
    if "mget (xn_directs (upd_es r (\<lambda>es. es\<lparr>es_sess := sess\<rparr>) x)) r = Some dt" for dt
  proof -
    have "task_ok dt es" using that by (intro exit_ok_direct [OF ok _ r]) simp
    moreover have "pc_ok (dt_pc dt) (run_op tr (OpSend now pkt) (es_sess es)) = pc_ok (dt_pc dt) (es_sess es)"
      by (rule pc_ok_cong) simp_all
    ultimately show ?thesis by (simp add: task_ok_def)
  qed
qed (use r s in \<open>simp_all add: upd_es_def\<close>)

lemma tunToDatagram_ok:
  assumes "exit_ok x"
  shows "exit_ok (tunToDatagram env now pkt x)"
  using assms unfolding tunToDatagram_def Let_def
  by (auto split: option.split prod.split intro: exit_ok_effect exit_ok_Send [OF assms])

lemma removeSession_ok: "exit_ok x \<Longrightarrow> exit_ok (removeSession env sid x)"
  by (erule exit_ok_sub)
    (auto simp: removeSession_def Let_def split: option.splits sum.splits if_splits)

text \<open>A new session takes an unused reference; the relay always starts.\<close>

lemma StartRelay_New:
  "StartRelay p (session_New sid) = (None, (session_New sid)\<lparr>sp_m := \<lparr>m_state = StateRelaying\<rparr>, sp_path := p\<rparr>)"
  by (simp add: StartRelay_def migrate_def fire_def Fire_def session_New_def NewMachine_def setPath_def)

definition new_sess :: "u64 \<Rightarrow> exit_st \<Rightarrow> session_path" where
  "new_sess sid x =
    (let s = (session_New sid)\<lparr>sp_m := \<lparr>m_state = StateRelaying\<rparr>,
               sp_path := \<lparr>Sender = xn_conn x, Encode = relayEncode sid\<rparr>\<rparr>
     in if xn_rateBytes x > 0 then SetRateLimit (xn_rateBytes x) (xn_rateBytes x * 2) s else s)"

lemma new_sess_fields [simp]:
  "sp_ID (new_sess sid x) = sid" "session_State (new_sess sid x) = StateRelaying"
  "sp_path (new_sess sid x) = \<lparr>Sender = xn_conn x, Encode = relayEncode sid\<rparr>"
  by (simp_all add: new_sess_def Let_def SetRateLimit_def session_State_def session_New_def)

definition with_session :: "u64 \<Rightarrow> addr \<Rightarrow> exit_session \<Rightarrow> exit_st \<Rightarrow> exit_st" where
  "with_session sid ip es x =
    x\<lparr>xn_objs := mput (xn_objs x) (xn_next x) es, xn_next := Suc (xn_next x),
      xn_sessions := mput (xn_sessions x) sid (xn_next x), xn_byIP := mput (xn_byIP x) ip sid\<rparr>"

lemma addSession_cases:
  "addSession env now msg x =
    (case ParseAddr (xe_parse6 env) (c_ClientIP msg) of
       Inl _ \<Rightarrow> x
     | Inr ip \<Rightarrow>
         (case mget (xn_sessions x) (c_SessionID msg) of
            Some r \<Rightarrow> upd_es r (\<lambda>es. es\<lparr>es_suspended := False\<rparr>) x
          | None \<Rightarrow>
              start_tasks env now (c_SessionID msg) (xn_next x) (new_es now msg (new_sess (c_SessionID msg) x))
                (with_session (c_SessionID msg) ip (new_es now msg (new_sess (c_SessionID msg) x)) x)))"
  by (simp add: addSession_def StartRelay_New new_sess_def with_session_def Let_def split: sum.split option.split)

lemma start_tasks_frame [simp, xframe]:
  "xn_objs (start_tasks env now sid r es x) = xn_objs x"
  "xn_next (start_tasks env now sid r es x) = xn_next x"
  "xn_sessions (start_tasks env now sid r es x) = xn_sessions x"
  "xn_byIP (start_tasks env now sid r es x) = xn_byIP x"
  by (simp_all add: start_tasks_def Let_def)

lemma start_tasks_directs:
  "mget (xn_directs (start_tasks env now sid r es x)) q = Some dt \<Longrightarrow>
    q = r \<and> dt_pc dt = DirectNew \<and> dt_sid dt = sid \<or> mget (xn_directs x) q = Some dt"
  by (auto simp: start_tasks_def Let_def split: if_splits)

lemma start_tasks_reporters:
  "mget (xn_reporters (start_tasks env now sid r es x)) q = Some rt \<Longrightarrow>
    q = r \<and> rt_sid rt = sid \<or> mget (xn_reporters x) q = Some rt"
  by (auto simp: start_tasks_def Let_def split: if_splits)

lemma new_es_ok: "es_ok (new_es now msg (new_sess sid x))"
  by (simp add: es_ok_def new_es_def path_inv_def)

lemma has_obj_old:
  "exit_ok x \<Longrightarrow> has_obj x r P \<Longrightarrow>
    has_obj (start_tasks env now sid q es' (with_session sid ip es x)) r P"
  unfolding exit_ok_def has_obj_def with_session_def by (auto split: option.splits)

lemma addSession_ok:
  assumes ok: "exit_ok x"
  shows "exit_ok (addSession env now msg x)"
proof -
  let ?sid = "c_SessionID msg"
  let ?es = "new_es now msg (new_sess ?sid x)"
  have "exit_ok (start_tasks env now ?sid (xn_next x) ?es (with_session ?sid ip ?es x))" (is "exit_ok ?y")
    for ip
  proof -
    have new: "has_obj ?y (xn_next x) P = P ?es" for P
      by (simp add: has_obj_def with_session_def)
    have 1: "r < xn_next ?y \<and> es_ok es" if "mget (xn_objs ?y) r = Some es" for r es
      using that ok new_es_ok [of now msg ?sid x]
      by (auto simp: with_session_def exit_ok_def less_Suc_eq split: if_splits)
    have 2: "has_obj ?y r (\<lambda>es. sp_ID (es_sess es) = sid)" if "mget (xn_sessions ?y) sid = Some r" for sid r
    proof (cases "sid = ?sid")
      case True
      with that have "r = xn_next x" by (simp add: with_session_def)
      with True show ?thesis by (simp add: new) (simp add: new_es_def)
    next
      case False
      with that have "mget (xn_sessions x) sid = Some r" by (simp add: with_session_def)
      with ok show ?thesis by (intro has_obj_old) (simp_all add: exit_ok_def)
    qed
    have 3: "has_obj ?y r (task_ok dt)" if "mget (xn_directs ?y) r = Some dt" for r dt
      using start_tasks_directs [OF that]
    proof
      assume "r = xn_next x \<and> dt_pc dt = DirectNew \<and> dt_sid dt = ?sid"
      then show ?thesis by (simp add: new task_ok_def) (simp add: new_es_def)
    next
      assume "mget (xn_directs (with_session ?sid ip ?es x)) r = Some dt"
      then have "mget (xn_directs x) r = Some dt" by (simp add: with_session_def)
      with ok show ?thesis by (intro has_obj_old) (simp_all add: exit_ok_def)
    qed
    have 4: "has_obj ?y r (\<lambda>es. sp_ID (es_sess es) = rt_sid rt)" if "mget (xn_reporters ?y) r = Some rt" for r rt
      using start_tasks_reporters [OF that]
    proof
      assume "r = xn_next x \<and> rt_sid rt = ?sid"
      then show ?thesis by (simp add: new) (simp add: new_es_def)
    next
      assume "mget (xn_reporters (with_session ?sid ip ?es x)) r = Some rt"
      then have "mget (xn_reporters x) r = Some rt" by (simp add: with_session_def)
      with ok show ?thesis by (intro has_obj_old) (simp_all add: exit_ok_def)
    qed
    show ?thesis unfolding exit_ok_def using 1 2 3 4 by blast
  qed
  then show ?thesis using ok
    by (simp add: addSession_cases split: sum.split option.split)
      (intro allI impI exit_ok_upd_es, simp_all add: es_ok_def)
qed

lemma controlMessage_ok: "exit_ok x \<Longrightarrow> exit_ok (controlMessage env now msg x)"
  unfolding controlMessage_def
  by (auto simp: addSession_ok removeSession_ok es_ok_def push_signal_def split: msg_type.split option.split
      intro!: exit_ok_on_session)

lemma direct_return_frame [simp, xframe]:
  "xn_objs (direct_return r x) = xn_objs x" "xn_next (direct_return r x) = xn_next x"
  "xn_sessions (direct_return r x) = xn_sessions x" "xn_byIP (direct_return r x) = xn_byIP x"
  "xn_reporters (direct_return r x) = xn_reporters x"
  "xn_directs (direct_return r x) = mdel (xn_directs x) r"
  by (simp_all add: direct_return_def)

lemma direct_goto_frame [simp, xframe]:
  "xn_objs (direct_goto r dt pc x) = xn_objs x" "xn_next (direct_goto r dt pc x) = xn_next x"
  "xn_sessions (direct_goto r dt pc x) = xn_sessions x" "xn_byIP (direct_goto r dt pc x) = xn_byIP x"
  "xn_reporters (direct_goto r dt pc x) = xn_reporters x"
  "xn_directs (direct_goto r dt pc x) = mput (xn_directs x) r (dt\<lparr>dt_pc := pc\<rparr>)"
  by (simp_all add: direct_goto_def)

lemma direct_return_ok: "exit_ok x \<Longrightarrow> exit_ok (direct_return r x)"
  by (erule exit_ok_sub) (auto split: if_splits)

text \<open>A data-path change by the direct goroutine that then returns, or goes on.\<close>

lemma op_return_ok:
  assumes "exit_ok x" "mget (xn_objs x) r = Some es" "op \<noteq> OpClose"
    and "op_paths (\<lambda>p. Encode p = relayEncode (sp_ID (es_sess es))) (\<lambda>p. Encode p = Identity) op"
    and "sess = run_op tr op (es_sess es)"
  shows "exit_ok (direct_return r (upd_es r (\<lambda>es. es\<lparr>es_sess := sess\<rparr>) x))"
  by (rule exit_ok_op [OF assms(1-4), where tr = tr]) (use assms in \<open>auto simp: upd_es_def split: if_splits\<close>)

lemma op_goto_ok:
  assumes "exit_ok x" "mget (xn_objs x) r = Some es" "op \<noteq> OpClose"
    and "op_paths (\<lambda>p. Encode p = relayEncode (sp_ID (es_sess es))) (\<lambda>p. Encode p = Identity) op"
    and "sess = run_op tr op (es_sess es)" and "dt_sid dt = sp_ID (es_sess es)" and "pc_ok pc sess"
  shows "exit_ok (direct_goto r dt pc (upd_es r (\<lambda>es. es\<lparr>es_sess := sess\<rparr>) x))"
  by (rule exit_ok_op [OF assms(1-4), where tr = tr]) (use assms in \<open>auto simp: upd_es_def split: if_splits\<close>)

lemma direct_begin_ok:
  assumes ok: "exit_ok x"
  shows "exit_ok (direct_begin lib r x)"
proof (cases "\<exists>dt es. mget (xn_directs x) r = Some dt \<and> mget (xn_objs x) r = Some es \<and> dt_pc dt = DirectNew")
  case True
  then obtain dt es where e: "mget (xn_directs x) r = Some dt" "mget (xn_objs x) r = Some es"
    "dt_pc dt = DirectNew" by blast
  from exit_ok_direct [OF ok e(1,2)] e(3)
  have t: "dt_sid dt = sp_ID (es_sess es)" "session_State (es_sess es) = StateRelaying"
    by (simp_all add: task_ok_def)
  obtain err sess where b: "BeginChecks (es_sess es) = (err, sess)" by (cases "BeginChecks (es_sess es)")
  then have s: "sess = run_op undefined OpBeginChecks (es_sess es)" by simp
  have "err = None" using b t(2) fire_error [of EvBeginChecks "es_sess es"] by (simp add: BeginChecks_def)
  moreover have "pc_ok DirectChecking sess" using s t(2) by (simp add: op_results)
  ultimately have "exit_ok (direct_goto r dt DirectChecking (upd_es r (\<lambda>es. es\<lparr>es_sess := sess\<rparr>) x))"
    by (intro op_goto_ok [OF ok e(2) _ _ s t(1)]) simp_all
  with e b \<open>err = None\<close> show ?thesis
    by (simp add: direct_begin_def direct_return_ok ok split: sum.split)
next
  case False
  then show ?thesis using ok by (auto simp: direct_begin_def split: option.split)
qed

lemma fold_write_ok: "exit_ok x \<Longrightarrow> exit_ok (fold (\<lambda>s. x_write c (f s)) ms x)"
  by (erule exit_ok_cong) simp_all

lemma upd_es_const:
  "mget (xn_objs x) r = Some es \<Longrightarrow>
    upd_es r (\<lambda>es. es\<lparr>es_sess := f (es_sess es)\<rparr>) x = upd_es r (\<lambda>e. e\<lparr>es_sess := f (es_sess es)\<rparr>) x"
  by (simp add: upd_es_def)

lemma direct_result_ok:
  assumes ok: "exit_ok x"
  shows "exit_ok (direct_result env ag send sigs r x)"
proof (cases "\<exists>dt es. mget (xn_directs x) r = Some dt \<and> mget (xn_objs x) r = Some es \<and> dt_pc dt = DirectChecking")
  case True
  then obtain dt es where e: "mget (xn_directs x) r = Some dt" "mget (xn_objs x) r = Some es"
    "dt_pc dt = DirectChecking" by blast
  from exit_ok_direct [OF ok e(1,2)] e(3)
  have t: "dt_sid dt = sp_ID (es_sess es)" "session_State (es_sess es) = StateChecking"
    by (simp_all add: task_ok_def)
  obtain sent res where n: "Negotiate ag RoleControlled (show_u64 (dt_sid dt)) send sigs
      (xn_directMode x = ''p2p-only'') = (sent, res)" by (cases "Negotiate ag RoleControlled (show_u64 (dt_sid dt)) send sigs
      (xn_directMode x = ''p2p-only'')")
  define y where "y = fold (\<lambda>s. x_write (xn_conn x) (signal_msg env (dt_sid dt) s)) sent x"
  have y: "exit_ok y" "mget (xn_objs y) r = Some es"
    using ok e(2) by (simp_all add: y_def fold_write_ok)
  show ?thesis
  proof (cases res)
    case (Inl err)
    have "exit_ok (direct_return r (upd_es r (\<lambda>e. e\<lparr>es_sess := snd (ChecksFailed (es_sess es))\<rparr>) y))"
      by (rule op_return_ok [OF y, where op = OpChecksFailed and tr = undefined]) simp_all
    then show ?thesis using e n Inl
      by (simp add: direct_result_def y_def [symmetric]
          upd_es_const [OF y(2), where f = "\<lambda>s. snd (ChecksFailed s)"])
  next
    case (Inr qc)
    let ?p = "\<lparr>Sender = Some qc, Encode = Identity\<rparr>"
    obtain err sess where u: "UpgradeDirect ?p (es_sess es) = (err, sess)" by (cases "UpgradeDirect ?p (es_sess es)")
    then have s: "sess = run_op undefined (OpUpgradeDirect ?p) (es_sess es)" by simp
    have ret: "exit_ok (direct_return r (upd_es r (\<lambda>es. es\<lparr>es_sess := sess\<rparr>) y))"
      by (rule op_return_ok [OF y _ _ s]) simp_all
    have "pc_ok (DirectServing qc) sess" using s t(2) by (simp add: op_results)
    then have "exit_ok (direct_goto r dt (DirectServing qc) (upd_es r (\<lambda>es. es\<lparr>es_sess := sess\<rparr>) y))"
      by (intro op_goto_ok [OF y _ _ s t(1)]) simp_all
    then show ?thesis using e n Inr u ret
      by (simp add: direct_result_def y_def Let_def split: option.split)
  qed
next
  case False
  then show ?thesis using ok by (auto simp: direct_result_def split: option.split)
qed

lemma direct_datagram_ok: "exit_ok x \<Longrightarrow> exit_ok (direct_datagram env r dg x)"
  by (simp add: direct_datagram_def writeInbound_ok split: option.split direct_pc.split)

lemma direct_lost_ok:
  assumes ok: "exit_ok x"
  shows "exit_ok (direct_lost r x)"
proof (cases "\<exists>dt es qc. mget (xn_directs x) r = Some dt \<and> mget (xn_objs x) r = Some es \<and> dt_pc dt = DirectServing qc")
  case True
  then obtain dt es qc where e: "mget (xn_directs x) r = Some dt" "mget (xn_objs x) r = Some es"
    "dt_pc dt = DirectServing qc" by blast
  from exit_ok_direct [OF ok e(1,2)] have t: "dt_sid dt = sp_ID (es_sess es)" by (simp add: task_ok_def)
  let ?p = "\<lparr>Sender = xn_conn x, Encode = relayEncode (dt_sid dt)\<rparr>"
  have "exit_ok (direct_return r (upd_es r (\<lambda>e. e\<lparr>es_sess := snd (FallbackRelay ?p (es_sess es))\<rparr>) x))"
    by (rule op_return_ok [OF ok e(2), where op = "OpFallbackRelay ?p" and tr = undefined])
      (simp_all add: t)
  then show ?thesis using e ok
    by (simp add: direct_lost_def direct_return_ok
        upd_es_const [OF e(2), where f = "\<lambda>s. snd (FallbackRelay ?p s)"])
next
  case False
  with ok show ?thesis
    by (auto simp: direct_lost_def upd_es_def direct_return_ok split: option.split direct_pc.split)
qed

lemma session_report_ok:
  assumes ok: "exit_ok x"
  shows "exit_ok (session_report now r x)"
proof (cases "\<exists>rt es. mget (xn_reporters x) r = Some rt \<and> mget (xn_objs x) r = Some es")
  case True
  then obtain rt es where e: "mget (xn_reporters x) r = Some rt" "mget (xn_objs x) r = Some es" by blast
  have "exit_ok (session_report now r x)"
  proof (rule exit_ok_update [OF ok e(2) exit_ok_obj [OF ok e(2)] refl])
    show "task_ok dt es" if "mget (xn_directs (session_report now r x)) r = Some dt" for dt
      using that e by (intro exit_ok_direct [OF ok _ e(2)])
        (simp add: session_report_def fold_write_frame [where f = id, simplified] split: prod.splits)
  qed (use e in \<open>auto simp: session_report_def fold_write_frame [where f = id, simplified]
         split: prod.splits if_splits\<close>)
  then show ?thesis .
next
  case False
  with ok show ?thesis by (auto simp: session_report_def split: option.split)
qed

lemma report_stop_ok: "exit_ok x \<Longrightarrow> exit_ok (report_stop r x)"
  by (erule exit_ok_sub) (auto simp: report_stop_def split: option.splits if_splits)

lemma ewma_nonneg: "0 \<le> old \<Longrightarrow> 0 \<le> sample \<Longrightarrow> 0 \<le> ewma old sample"
  by (simp add: ewma_def)

lemma sample_one_ok: "exit_ok x \<Longrightarrow> exit_ok (sample_one e x)"
proof -
  assume ok: "exit_ok x"
  have last: "exit_ok (x\<lparr>xn_last := l\<rparr>)" for l
    using ok by (rule exit_ok_cong) simp_all
  show ?thesis
    by (cases e) (auto simp: sample_one_def Let_def last ok es_ok_def ewma_nonneg split: option.split
        intro!: exit_ok_upd_es)
qed

lemma sampleThroughput_ok: "exit_ok x \<Longrightarrow> exit_ok (sampleThroughput x)"
proof -
  assume "exit_ok x"
  then have "exit_ok (fold sample_one es x)" for es
    by (induction es arbitrary: x) (simp_all add: sample_one_ok)
  then show ?thesis unfolding sampleThroughput_def Let_def by (rule exit_ok_cong) simp_all
qed

lemma serve_ok: "exit_ok x \<Longrightarrow> exit_ok (serve_begin c x)" "exit_ok x \<Longrightarrow> exit_ok (serve_end x)"
  by (erule exit_ok_sub; simp add: serve_begin_def serve_end_def split: option.splits)+

lemma exit_handle_ok: "exit_ok x \<Longrightarrow> exit_ok (exit_handle env ev x)"
  by (cases ev)
    (auto simp: serve_ok controlMessage_ok datagramToTun_def writeInbound_ok tunToDatagram_ok direct_begin_ok
       direct_result_ok direct_datagram_ok direct_lost_ok session_report_ok report_stop_ok node_status_def
       sampleThroughput_ok es_ok_def split: sum.split option.split intro!: exit_ok_upd_es)

interpretation exit_typed: inductive_invariant exit_start "exit_trans env allowed" exit_ok for env allowed
proof unfold_locales
  show "exit_ok x" if "exit_start x" for x
    using that exit_ok_init by (auto simp: exit_start_def)
  show "exit_ok y" if "exit_trans env allowed x y" "exit_ok x" for x y
    using that by (cases rule: exit_trans.cases) (simp add: exit_handle_ok)
qed

section \<open>The two tables\<close>

definition ip_of :: "exit_st \<Rightarrow> nat \<Rightarrow> string option" where
  "ip_of x r = map_option es_clientIP (mget (xn_objs x) r)"

definition tables_ok :: "exit_st \<Rightarrow> bool" where
  "tables_ok x =
    ((\<forall>a sid. mget (xn_byIP x) a = Some sid \<longleftrightarrow>
        (\<exists>r w. mget (xn_sessions x) sid = Some r \<and> ip_of x r = Some (string4 w) \<and> a = Addr4 w)) \<and>
     (\<forall>sid r. mget (xn_sessions x) sid = Some r \<longrightarrow> r < xn_next x \<and> (\<exists>w. ip_of x r = Some (string4 w))))"

lemma tables_cong:
  "tables_ok x \<Longrightarrow> xn_byIP y = xn_byIP x \<Longrightarrow> xn_sessions y = xn_sessions x \<Longrightarrow> xn_next y = xn_next x \<Longrightarrow>
    (\<And>r. ip_of y r = ip_of x r) \<Longrightarrow> tables_ok y"
  by (simp add: tables_ok_def)

text \<open>What the events other than session starts and ends leave alone.\<close>

definition same_tables :: "exit_st \<Rightarrow> exit_st \<Rightarrow> bool" where
  "same_tables x y =
    (xn_byIP y = xn_byIP x \<and> xn_sessions y = xn_sessions x \<and> xn_next y = xn_next x \<and>
     (\<forall>r. ip_of y r = ip_of x r))"

lemma same_tables_refl [simp]: "same_tables x x"
  by (simp add: same_tables_def)

lemma same_tables_trans: "same_tables x y \<Longrightarrow> same_tables y z \<Longrightarrow> same_tables x z"
  by (simp add: same_tables_def)

lemma same_tables_upd: "(\<And>es. es_clientIP (f es) = es_clientIP es) \<Longrightarrow> same_tables x (upd_es r f x)"
  by (auto simp: same_tables_def ip_of_def option.map_comp comp_def)

lemma same_tables_objs:
  "xn_objs y = xn_objs x \<Longrightarrow> xn_byIP y = xn_byIP x \<Longrightarrow> xn_sessions y = xn_sessions x \<Longrightarrow>
    xn_next y = xn_next x \<Longrightarrow> same_tables x y"
  by (simp add: same_tables_def ip_of_def)

lemma same_tables_outside [simp]:
  "same_tables x (x_effect e y) = same_tables x y"
  "same_tables x (x_write c m y) = same_tables x y"
  "same_tables x (fold (\<lambda>s. x_write c (f s)) ms y) = same_tables x y"
  "same_tables x (direct_return r y) = same_tables x y"
  "same_tables x (direct_goto r dt pc y) = same_tables x y"
  by (simp_all add: same_tables_def ip_of_def)

lemma same_tables_upd_es:
  "same_tables x y \<Longrightarrow> (\<And>es. es_clientIP (f es) = es_clientIP es) \<Longrightarrow> same_tables x (upd_es r f y)"
  by (rule same_tables_trans [OF _ same_tables_upd])

lemma writeInbound_tables: "same_tables x (writeInbound env r pkt x)"
  by (simp add: writeInbound_def same_tables_upd_es split: option.split)

lemma tunToDatagram_tables: "same_tables x (tunToDatagram env now pkt x)"
  by (simp add: tunToDatagram_def Let_def same_tables_upd_es split: option.split prod.split)

lemma direct_tables:
  "same_tables x (direct_begin lib r x)" "same_tables x (direct_result env ag send sigs r x)"
  "same_tables x (direct_datagram env r dg x)" "same_tables x (direct_lost r x)"
  by (simp_all add: direct_begin_def direct_result_def direct_datagram_def direct_lost_def Let_def
      writeInbound_tables same_tables_upd_es
      split: option.split prod.split sum.split direct_pc.split)

lemma report_tables: "same_tables x (session_report now r x)" "same_tables x (report_stop r x)"
  by (auto simp: session_report_def report_stop_def same_tables_def ip_of_def
      fold_write_frame [where f = id, simplified] split: option.split prod.split)

lemma sample_one_tables: "same_tables x (sample_one e x)"
proof -
  have "same_tables x (x\<lparr>xn_last := l\<rparr>)" for l by (rule same_tables_objs) simp_all
  then show ?thesis
    by (cases e) (simp add: sample_one_def Let_def same_tables_upd_es split: option.split)
qed

lemma sampleThroughput_tables: "same_tables x (sampleThroughput x)"
proof -
  have "same_tables x (fold sample_one es x)" for es
    by (induction es arbitrary: x) (auto intro: same_tables_trans sample_one_tables)
  then show ?thesis
    unfolding sampleThroughput_def Let_def by (rule same_tables_trans) (rule same_tables_objs; simp)
qed

lemma on_session_tables:
  "(\<And>es. es_clientIP (f es) = es_clientIP es) \<Longrightarrow> same_tables x (on_session sid f x)"
  by (simp add: on_session_def same_tables_upd split: option.split)

text \<open>A session start on a free address, and a session end.\<close>

lemma with_session_tables:
  assumes t: "tables_ok x" and new: "mget (xn_sessions x) sid = None" "mget (xn_byIP x) (Addr4 w) = None"
    and ip: "es_clientIP es = string4 w"
  shows "tables_ok (with_session sid (Addr4 w) es x)"
proof -
  let ?y = "with_session sid (Addr4 w) es x"
  have y: "ip_of ?y r = (if r = xn_next x then Some (string4 w) else ip_of x r)" for r
    using ip by (simp add: ip_of_def with_session_def)
  have old: "r < xn_next x \<and> (\<exists>w. ip_of x r = Some (string4 w))" if "mget (xn_sessions x) s = Some r" for s r
    using t that by (simp add: tables_ok_def)
  have by_ip: "mget (xn_byIP x) a = Some s \<longleftrightarrow>
      (\<exists>r w. mget (xn_sessions x) s = Some r \<and> ip_of x r = Some (string4 w) \<and> a = Addr4 w)" for a s
    using t by (simp add: tables_ok_def)
  have "mget (xn_byIP ?y) a = Some s \<longleftrightarrow>
      (\<exists>r w. mget (xn_sessions ?y) s = Some r \<and> ip_of ?y r = Some (string4 w) \<and> a = Addr4 w)" for a s
  proof (cases "s = sid")
    case True
    have "mget (xn_byIP x) a \<noteq> Some sid" using by_ip new(1) by simp
    with True show ?thesis by (auto simp: with_session_def y [unfolded with_session_def])
  next
    case False
    have "mget (xn_byIP x) (Addr4 w) \<noteq> Some s" using new(2) by simp
    with False show ?thesis
      using by_ip [of a s] old [of s]
      by (auto simp: with_session_def y [unfolded with_session_def]) (metis less_irrefl)
  qed
  moreover have "r < xn_next ?y \<and> (\<exists>w. ip_of ?y r = Some (string4 w))" if "mget (xn_sessions ?y) s = Some r" for s r
    using that old [of s r] by (auto simp: with_session_def y [unfolded with_session_def] split: if_splits)
  ultimately show ?thesis by (simp add: tables_ok_def)
qed

lemma removeSession_tables:
  assumes t: "tables_ok x"
  shows "tables_ok (removeSession env sid x)"
proof (cases "mget (xn_sessions x) sid")
  case None
  then have "same_tables x (removeSession env sid x)"
    by (simp add: removeSession_def mdel_notin same_tables_def ip_of_def)
  with t show ?thesis by (simp add: same_tables_def tables_cong)
next
  case (Some r)
  with t obtain w where w: "ip_of x r = Some (string4 w)" unfolding tables_ok_def by blast
  then obtain es where es: "mget (xn_objs x) r = Some es" "es_clientIP es = string4 w"
    by (auto simp: ip_of_def)
  have rem: "removeSession env sid x =
      x\<lparr>xn_sessions := mdel (xn_sessions x) sid, xn_byIP := mdel (xn_byIP x) (Addr4 w)\<rparr>"
    using Some es by (simp add: removeSession_def)
  have by_ip: "mget (xn_byIP x) a = Some s \<longleftrightarrow>
      (\<exists>r w. mget (xn_sessions x) s = Some r \<and> ip_of x r = Some (string4 w) \<and> a = Addr4 w)" for a s
    using t by (simp add: tables_ok_def)
  have own: "mget (xn_byIP x) (Addr4 w) = Some sid" using by_ip Some w by auto
  have "mget (xn_byIP (removeSession env sid x)) a = Some s \<longleftrightarrow>
      (\<exists>r w. mget (xn_sessions (removeSession env sid x)) s = Some r \<and>
        ip_of (removeSession env sid x) r = Some (string4 w) \<and> a = Addr4 w)" for a s
    using by_ip [of a s] own Some w by (cases "s = sid") (auto simp: rem ip_of_def)
  then show ?thesis using t by (auto simp: tables_ok_def rem ip_of_def split: if_splits)
qed

lemma same_tables_ok: "tables_ok x \<Longrightarrow> same_tables x y \<Longrightarrow> tables_ok y"
  by (simp add: same_tables_def tables_cong)

lemma addSession_tables:
  assumes t: "tables_ok x" and b: "broker_promise env (FromBroker now msg) x" and m: "c_Type msg = MsgSessionStart"
  shows "tables_ok (addSession env now msg x)"
proof (cases "mget (xn_sessions x) (c_SessionID msg)")
  case None
  with b m obtain w where w: "ParseAddr (xe_parse6 env) (c_ClientIP msg) = Inr (Addr4 w)"
    "c_ClientIP msg = string4 w" "mget (xn_byIP x) (Addr4 w) = None"
    by (auto split: sum.splits addr.splits)
  let ?es = "new_es now msg (new_sess (c_SessionID msg) x)"
  have "tables_ok (with_session (c_SessionID msg) (Addr4 w) ?es x)"
    by (rule with_session_tables [OF t None w(3)]) (simp add: new_es_def w(2))
  then have "tables_ok (start_tasks env now (c_SessionID msg) (xn_next x) ?es
      (with_session (c_SessionID msg) (Addr4 w) ?es x))"
    by (rule same_tables_ok) (rule same_tables_objs; simp)
  with None w show ?thesis by (simp add: addSession_cases)
next
  case (Some r)
  with t show ?thesis
    by (auto simp: addSession_cases same_tables_upd split: sum.split intro: same_tables_ok)
qed

lemma controlMessage_tables:
  assumes t: "tables_ok x" and b: "broker_promise env (FromBroker now msg) x"
  shows "tables_ok (controlMessage env now msg x)"
proof -
  have sess: "tables_ok (on_session sid f x)" if "\<And>es. es_clientIP (f es) = es_clientIP es" for sid f
    using t on_session_tables [OF that] by (rule same_tables_ok)
  show ?thesis
    using addSession_tables [OF t b] removeSession_tables [OF t] t
    by (auto simp: controlMessage_def push_signal_def split: msg_type.split option.split intro!: sess)
qed

lemma serve_tables: "tables_ok (serve_begin c x)" "tables_ok x \<Longrightarrow> tables_ok (serve_end x)"
  by (simp_all add: tables_ok_def serve_begin_def serve_end_def ip_of_def split: option.split)

lemma exit_handle_tables:
  assumes t: "tables_ok x" and "broker_promise env ev x"
  shows "tables_ok (exit_handle env ev x)"
proof -
  note same = same_tables_ok [OF t]
  show ?thesis
    using assms
    by (cases ev)
      (auto simp: serve_tables controlMessage_tables datagramToTun_def node_status_def
        same [OF same_tables_upd]
        split: sum.split option.split
        intro: same writeInbound_tables tunToDatagram_tables direct_tables report_tables sampleThroughput_tables)
qed

interpretation exit_tables: inductive_invariant exit_start "exit_trans env (broker_promise env)" tables_ok
  for env
proof unfold_locales
  show "tables_ok x" if "exit_start x" for x
    using that by (auto simp: exit_start_def exit_init_def tables_ok_def)
  show "tables_ok y" if "exit_trans env (broker_promise env) x y" "tables_ok x" for x y
    using that by (cases rule: exit_trans.cases) (simp add: exit_handle_tables)
qed


end
