(* ===== verification/ExitProps.thy ===== *)
theory ExitProps
  imports ExitRuns
begin

text \<open>
  What the invariants of the exit give: goroutines never meet an invalid transition, packets of one
  client never reach or come from another while the broker keeps its promise, what happens when it does
  not, and the reconnect loop.
\<close>

section \<open>Runs given as lists of events\<close>

fun all_allowed :: "exit_env \<Rightarrow> (exit_in \<Rightarrow> exit_st \<Rightarrow> bool) \<Rightarrow> exit_in list \<Rightarrow> exit_st \<Rightarrow> bool" where
  "all_allowed env allowed [] x = True"
| "all_allowed env allowed (ev # evs) x =
    (allowed ev x \<and> all_allowed env allowed evs (exit_handle env ev x))"

lemma exit_run_step: "exit_run env allowed x \<Longrightarrow> allowed ev x \<Longrightarrow> exit_run env allowed (exit_handle env ev x)"
  by (erule reach_step) (rule exit_trans.intros)

lemma exit_run_events:
  "exit_run env allowed x \<Longrightarrow> all_allowed env allowed evs x \<Longrightarrow>
    exit_run env allowed (fold (exit_handle env) evs x)"
  by (induction evs arbitrary: x) (simp_all add: exit_run_step)

lemma exit_run_init: "exit_run env allowed (exit_init draw fl)"
  by (rule reach_start) (auto simp: exit_start_def)

lemma all_allowed_any [simp]: "all_allowed env any_event evs x"
  by (induction evs arbitrary: x) (simp_all add: any_event_def)

section \<open>Messages and packets\<close>

definition start_msg :: "u64 \<Rightarrow> u32 \<Rightarrow> control" where
  "start_msg sid w = (control_of MsgSessionStart)\<lparr>c_SessionID := sid, c_ClientIP := string4 w\<rparr>"

definition end_msg :: "u64 \<Rightarrow> control" where
  "end_msg sid = (control_of MsgSessionEnd)\<lparr>c_SessionID := sid\<rparr>"

definition ip_packet :: "u32 \<Rightarrow> u32 \<Rightarrow> bytes \<Rightarrow> bytes" where
  "ip_packet src dst body = 0x45 # replicate 11 0 @ As4 src @ As4 dst @ body"

lemma msg_fields [simp]:
  "c_Type (start_msg sid w) = MsgSessionStart" "c_SessionID (start_msg sid w) = sid"
  "c_ClientIP (start_msg sid w) = string4 w"
  "c_Type (end_msg sid) = MsgSessionEnd" "c_SessionID (end_msg sid) = sid"
  by (simp_all add: start_msg_def end_msg_def)

lemma As4_list: "[As4 w ! 0, As4 w ! 1, As4 w ! 2, As4 w ! 3] = As4 w"
  by (simp add: As4_def be_put_def upt_rec)

lemma AddrFrom4_As4 [simp]: "AddrFrom4 (As4 w) = Addr4 w"
  by (simp add: AddrFrom4_def As4_def)

lemma ip_packet_src [simp]: "ipv4Src (ip_packet src dst body) = Some (Addr4 src)"
proof -
  have "[ip_packet src dst body ! 12, ip_packet src dst body ! 13, ip_packet src dst body ! 14,
      ip_packet src dst body ! 15] = As4 src"
    by (subst As4_list [symmetric]) (simp add: ip_packet_def nth_append As4_def)
  then show ?thesis
    by (simp only: ipv4Src_def) (simp add: ip_packet_def As4_def AddrFrom4_def drop_bit_eq_div)
qed

lemma ip_packet_dst [simp]: "ipv4Dst (ip_packet src dst body) = Some (Addr4 dst)"
proof -
  have "[ip_packet src dst body ! 16, ip_packet src dst body ! 17, ip_packet src dst body ! 18,
      ip_packet src dst body ! 19] = As4 dst"
    by (subst As4_list [symmetric]) (simp add: ip_packet_def nth_append As4_def)
  then show ?thesis
    by (simp only: ipv4Dst_def) (simp add: ip_packet_def As4_def AddrFrom4_def drop_bit_eq_div)
qed

lemma ipv4_addr4:
  "ipv4Src pkt = Some a \<Longrightarrow> \<exists>w. a = Addr4 w" "ipv4Dst pkt = Some a \<Longrightarrow> \<exists>w. a = Addr4 w"
  by (auto simp: ipv4Src_def ipv4Dst_def AddrFrom4_def split: if_splits)

section \<open>What the data plane writes\<close>

definition session_of :: "exit_st \<Rightarrow> u64 \<Rightarrow> exit_session option" where
  "session_of x sid = Option.bind (mget (xn_sessions x) sid) (mget (xn_objs x))"

lemma writeInbound_out:
  "xn_out (writeInbound env r pkt x) = xn_out x @
    (case mget (xn_objs x) r of
       None \<Rightarrow> []
     | Some es \<Rightarrow> (case ipv4Src pkt of
                     None \<Rightarrow> []
                   | Some src \<Rightarrow> if AddrString (xe_show6 env) src = es_clientIP es then [TunWrote pkt] else []))"
  by (simp add: writeInbound_def split: option.split)

lemma datagramToTun_writes:
  "xn_out (datagramToTun env dg x) = xn_out x @ [TunWrote pkt] \<longleftrightarrow>
    (\<exists>sid w es. dg = EncodeDatagram sid pkt \<and> ipv4Src pkt = Some (Addr4 w) \<and>
      session_of x sid = Some es \<and> es_clientIP es = string4 w)"
proof (cases "DecodeDatagram dg")
  case (Inl e)
  then have "dg \<noteq> EncodeDatagram sid pkt" for sid by (metis Decode_Encode Inl_Inr_False)
  with Inl show ?thesis by (simp add: datagramToTun_def)
next
  case (Inr sp)
  obtain sid p where sp: "sp = (sid, p)" by (cases sp)
  with Inr have dg: "dg = EncodeDatagram sid p" by (simp add: dgram.dec_iff)
  have inj: "EncodeDatagram sid p = EncodeDatagram sid' pkt \<longleftrightarrow> sid = sid' \<and> p = pkt" for sid'
    by (rule dgram.enc_inject)
  show ?thesis
  proof (cases "session_of x sid")
    case None
    then show ?thesis using Inr sp
      by (auto simp: datagramToTun_def session_of_def writeInbound_out dg inj bind_eq_None_conv
          split: option.split)
  next
    case (Some es)
    then obtain r where r: "mget (xn_sessions x) sid = Some r" "mget (xn_objs x) r = Some es"
      by (auto simp: session_of_def bind_eq_Some_conv)
    have out: "xn_out (datagramToTun env dg x) = xn_out x @
        (case ipv4Src p of None \<Rightarrow> []
         | Some src \<Rightarrow> if AddrString (xe_show6 env) src = es_clientIP es then [TunWrote p] else [])"
      using Inr sp r by (simp add: datagramToTun_def writeInbound_out)
    show ?thesis
    proof (cases "ipv4Src p")
      case (Some src)
      with ipv4_addr4(1) obtain w where "src = Addr4 w" by blast
      with out Some \<open>session_of x sid = Some es\<close> show ?thesis by (auto simp: dg inj)
    qed (use out in \<open>auto simp: dg inj\<close>)
  qed
qed

text \<open>What \<open>Send\<close> hands to the transport.\<close>

lemma Send_hands:
  "fst (snd (Send tr now pkt s)) = Some (c, d) \<longleftrightarrow>
    Sender (sp_path s) = Some c \<and> fst (Allow_opt now (int (length pkt)) (sp_limiter s)) \<and> d = Encode (sp_path s) pkt"
  by (auto simp: Send_def Let_def split: option.split prod.split)

lemma tunToDatagram_out:
  "xn_out (tunToDatagram env now pkt x) = xn_out x @
    (case Option.bind (ipv4Dst pkt) (\<lambda>a. Option.bind (mget (xn_byIP x) a) (session_of x)) of
       None \<Rightarrow> []
     | Some es \<Rightarrow> (case fst (snd (Send (xe_transport env) now pkt (es_sess es))) of
                     None \<Rightarrow> [] | Some (c, d) \<Rightarrow> [DatagramSent c d]))"
  by (auto simp: tunToDatagram_def session_of_def Let_def split: option.split prod.split
      bind_splits)

section \<open>A demonstration run\<close>

definition demo_xenv :: exit_env where
  "demo_xenv = \<lparr>xe_parse6 = \<lambda>_. Inl (OtherParse ''''), xe_show6 = \<lambda>_. '''', xe_transport = \<lambda>_ _. None,
     xe_unmarshal = \<lambda>_. None, xe_marshal = \<lambda>_. [], xe_host = ''h'', xe_tun = ''tun0'', xe_os = ''linux''\<rparr>"

definition demo_xflags :: exit_flags where
  "demo_xflags = \<lparr>xf_nodeId = ''e'', xf_name = '''', xf_region = ''us'', xf_rateBytes = 0,
     xf_reportInterval = 0, xf_direct = True, xf_directMode = ''any'', xf_stun = '''', xf_turn = '''',
     xf_turnUser = '''', xf_turnPass = '''', xf_iceKeepalive = 0\<rparr>"

definition demo_creds :: credentials where
  "demo_creds = \<lparr>cr_Ufrag = ''u'', cr_Pwd = ''p''\<rparr>"

definition demo_agent :: ice_agent where
  "demo_agent = \<lparr>ag_LocalCredentials = Inr demo_creds, ag_candidates = [], ag_GatherCandidates = None,
     ag_Connect = \<lambda>_ _. None, ag_SelectedPair = None, ag_quic = \<lambda>_. Inr 9\<rparr>"

definition demo_pion :: pion_lib where
  "demo_pion = \<lparr>pl_ParseURI = \<lambda>_. Inl '''', pl_UnmarshalCandidate = \<lambda>_. Inl '''',
     pl_NewAgent = \<lambda>_. Inr \<lparr>pa_GetLocalUserCredentials = Inr (''u'', ''p''), pa_candidates = [],
       pa_GatherCandidates = None, pa_Dial = \<lambda>_ _ _. None, pa_Accept = \<lambda>_ _ _. None,
       pa_GetSelectedCandidatePair = Inr None, pa_quic = \<lambda>_. Inr 9\<rparr>\<rparr>"

lemma demo_pion_agent:
  "pc_STUNURLs cfg = [] \<Longrightarrow> pc_TURNURLs cfg = [] \<Longrightarrow> NewPionAgent demo_pion cfg = Inr demo_agent"
  by (simp add: NewPionAgent_def demo_pion_def pion_adapter_def demo_agent_def LocalCredentials_def demo_creds_def
      SelectedPair_def ice_Connect_def fun_eq_iff)

lemma start_msg_urls [simp]: "c_StunURL (start_msg sid w) = ''''" "c_TurnURL (start_msg sid w) = ''''"
  by (simp_all add: start_msg_def control_of_def)

definition demo_events :: "exit_in list" where
  "demo_events =
    [Served 2, FromBroker 5 (start_msg 7 0x0A630002), DirectBegins demo_pion 0,
     DirectNegotiated demo_agent (\<lambda>_. None)
       [(signal_of ''7'' SignalCredentials)\<lparr>sg_Creds := Some demo_creds\<rparr>] 0]"

definition demo_exit_st :: exit_st where
  "demo_exit_st = fold (exit_handle demo_xenv) demo_events (exit_init 0 demo_xflags)"

lemma demo_path:
  "BeginChecks (new_sess sid x) = (None, (new_sess sid x)\<lparr>sp_m := \<lparr>m_state = StateChecking\<rparr>\<rparr>)"
  "UpgradeDirect p ((new_sess sid x)\<lparr>sp_m := \<lparr>m_state = StateChecking\<rparr>\<rparr>) =
    (None, (new_sess sid x)\<lparr>sp_m := \<lparr>m_state = StateDirect\<rparr>, sp_path := p\<rparr>)"
  by (simp_all add: BeginChecks_def UpgradeDirect_def migrate_def fire_def Fire_def setPath_def
      new_sess_def SetRateLimit_def session_New_def Let_def)

lemma new_sess_unlimited: "xn_rateBytes x = 0 \<Longrightarrow> sp_limiter (new_sess sid x) = None"
  by (simp add: new_sess_def session_New_def)

lemma demo_negotiate:
  "Negotiate demo_agent RoleControlled sid (\<lambda>_. None)
     [(signal_of s SignalCredentials)\<lparr>sg_Creds := Some demo_creds\<rparr>] b =
    ([(signal_of sid SignalCredentials)\<lparr>sg_Creds := Some demo_creds\<rparr>], Inr 9)"
  by (simp add: Negotiate_def demo_agent_def Establish_def signal_of_def)

lemma demo_exit_val:
  "mget (xn_sessions demo_exit_st) 7 = Some 0"
  "mget (xn_byIP demo_exit_st) (Addr4 0x0A630002) = Some 7"
  "\<exists>es. mget (xn_objs demo_exit_st) 0 = Some es \<and> es_clientIP es = string4 0x0A630002 \<and>
     sp_path (es_sess es) = \<lparr>Sender = Some 9, Encode = Identity\<rparr> \<and> IsDirect (es_sess es) \<and>
     sp_limiter (es_sess es) = None"
  "\<exists>dt. mget (xn_directs demo_exit_st) 0 = Some dt \<and> dt_pc dt = DirectServing 9 \<and> dt_sid dt = 7"
  "mget (xn_sessions demo_exit_st) 8 = None"
  "all_allowed demo_xenv (broker_promise demo_xenv) demo_events (exit_init 0 demo_xflags)"
  by (simp_all add: demo_exit_st_def demo_events_def controlMessage_def addSession_cases exit_init_def
      serve_begin_def demo_xflags_def start_tasks_def with_session_def new_es_def direct_begin_def
      direct_result_def demo_pion_agent direct_config_def splitCSV_def orStr_def demo_path demo_negotiate direct_goto_def upd_es_def x_write_def x_effect_def
      Let_def IsDirect_def session_State_def new_sess_unlimited)

lemma demo_xrun: "exit_run demo_xenv (broker_promise demo_xenv) demo_exit_st"
  unfolding demo_exit_st_def by (rule exit_run_events [OF exit_run_init demo_exit_val(6)])

lemma demo_xrun_any: "exit_run demo_xenv any_event demo_exit_st"
  unfolding demo_exit_st_def by (rule exit_run_events [OF exit_run_init all_allowed_any])

section \<open>Properties\<close>

text \<open>
  C24: Whatever happens to the exit, its state stays well formed: every session object has a path that
  fits its state, at most 64 queued signals and rates that are not negative; every table entry and every
  goroutine has its object, with the right id. So the goroutine of the direct path never meets an
  invalid transition of the session's state machine.
\<close>

theorem exit_well_formed:
  assumes "exit_run env any_event x"
    and "mget (xn_directs x) r = Some dt" and "mget (xn_objs x) r = Some es"
  shows "exit_ok x \<and> dt_sid dt = sp_ID (es_sess es) \<and>
    (case dt_pc dt of
       DirectNew \<Rightarrow> fst (BeginChecks (es_sess es)) = None
     | DirectChecking \<Rightarrow> fst (ChecksFailed (es_sess es)) = None \<and> fst (UpgradeDirect p (es_sess es)) = None
     | DirectServing qc \<Rightarrow> fst (FallbackRelay p (es_sess es)) = None \<and> Sender (sp_path (es_sess es)) = Some qc)"
proof -
  from exit_typed.reach_holds [OF assms(1)] have ok: "exit_ok x" .
  from exit_ok_direct [OF ok assms(2,3)] have t: "task_ok dt es" .
  have m: "fst (migrate ev p s) = fst (fire ev s)" for ev s
    by (simp add: migrate_def split: prod.split option.split)
  show ?thesis
    using ok t by (cases "dt_pc dt")
      (simp_all add: task_ok_def BeginChecks_def ChecksFailed_def UpgradeDirect_def FallbackRelay_def m fire_error)
qed

theorem exit_well_formed_witness:
  "\<exists>dt es. mget (xn_directs demo_exit_st) 0 = Some dt \<and> mget (xn_objs demo_exit_st) 0 = Some es \<and>
    dt_sid dt = sp_ID (es_sess es) \<and> fst (FallbackRelay no_path (es_sess es)) = None"
proof -
  obtain dt where dt: "mget (xn_directs demo_exit_st) 0 = Some dt" "dt_pc dt = DirectServing 9"
    using demo_exit_val(4) by blast
  obtain es where es: "mget (xn_objs demo_exit_st) 0 = Some es" using demo_exit_val(3) by blast
  from exit_well_formed [OF demo_xrun_any dt(1) es, of no_path] dt es show ?thesis by simp
qed



text \<open>The tables and objects after a session start on a new id, and after a session end.\<close>

lemma started:
  assumes "mget (xn_sessions x) sid = None"
  shows "xn_sessions (exit_handle env (FromBroker t (start_msg sid w)) x) = mput (xn_sessions x) sid (xn_next x)"
    "xn_byIP (exit_handle env (FromBroker t (start_msg sid w)) x) = mput (xn_byIP x) (Addr4 w) sid"
    "xn_objs (exit_handle env (FromBroker t (start_msg sid w)) x) =
      mput (xn_objs x) (xn_next x) (new_es t (start_msg sid w) (new_sess sid x))"
    "q \<noteq> xn_next x \<Longrightarrow>
      mget (xn_directs (exit_handle env (FromBroker t (start_msg sid w)) x)) q = mget (xn_directs x) q"
    "xn_out (exit_handle env (FromBroker t (start_msg sid w)) x) = xn_out x"
  using assms by (simp_all add: controlMessage_def addSession_cases with_session_def start_tasks_def Let_def)

lemma ended:
  assumes "mget (xn_sessions x) sid = Some r" "mget (xn_objs x) r = Some es" "es_clientIP es = string4 w"
  shows "exit_handle env (FromBroker t (end_msg sid)) x =
    x\<lparr>xn_sessions := mdel (xn_sessions x) sid, xn_byIP := mdel (xn_byIP x) (Addr4 w)\<rparr>"
  using assms by (simp add: controlMessage_def removeSession_def)

text \<open>
  C37: The promise is needed, and the broker does not always keep it: it returns an address to the pool
  before it tells the exit that the old session has ended. When the start of a new session on the
  address arrives before the end of the old one, the end removes the new session's entry: the new
  session stays in the table and none of the packets for its address are delivered.
\<close>

theorem early_reuse_blackholes:
  assumes "mget (xn_sessions x) old = None" and "mget (xn_sessions x) new = None" and "old \<noteq> new"
    and "y = fold (exit_handle env)
      [FromBroker t1 (start_msg old w), FromBroker t2 (start_msg new w), FromBroker t3 (end_msg old)] x"
    and "ipv4Dst pkt = Some (Addr4 w)"
  shows "mget (xn_sessions y) new \<noteq> None \<and> mget (xn_byIP y) (Addr4 w) = None \<and>
    exit_handle env (FromTun t4 pkt) y = y"
proof -
  define x1 where "x1 = exit_handle env (FromBroker t1 (start_msg old w)) x"
  define x2 where "x2 = exit_handle env (FromBroker t2 (start_msg new w)) x1"
  have n1: "xn_next x1 = Suc (xn_next x)"
    using assms(1) by (simp add: x1_def controlMessage_def addSession_cases with_session_def)
  have s1: "mget (xn_sessions x1) new = None" "mget (xn_sessions x1) old = Some (xn_next x)"
    using started(1) [OF assms(1)] assms(2,3) by (simp_all add: x1_def)
  have o2: "mget (xn_objs x2) (xn_next x) = Some (new_es t1 (start_msg old w) (new_sess old x))"
    using started(3) [OF s1(1)] started(3) [OF assms(1)] n1 by (simp add: x2_def x1_def)
  have s2: "mget (xn_sessions x2) old = Some (xn_next x)" "mget (xn_sessions x2) new \<noteq> None"
    using started(1) [OF s1(1)] s1 assms(3) by (simp_all add: x2_def)
  have "y = x2\<lparr>xn_sessions := mdel (xn_sessions x2) old, xn_byIP := mdel (xn_byIP x2) (Addr4 w)\<rparr>"
    using ended [OF s2(1) o2, of w] assms(4) by (simp add: x2_def x1_def new_es_def)
  with s2 assms(3,5) show ?thesis by (simp add: tunToDatagram_def)
qed

theorem early_reuse_blackholes_witness:
  "let y = fold (exit_handle demo_xenv)
     [FromBroker 1 (start_msg 3 0x0A630002), FromBroker 2 (start_msg 4 0x0A630002), FromBroker 3 (end_msg 3)]
     (exit_init 0 demo_xflags)
   in mget (xn_sessions y) 4 \<noteq> None \<and> exit_handle demo_xenv (FromTun 4 (ip_packet 1 0x0A630002 [])) y = y"
  using early_reuse_blackholes [of "exit_init 0 demo_xflags" 3 4 _ demo_xenv 1 "0x0A630002" 2 3
      "ip_packet 1 0x0A630002 []" 4, OF _ _ _ refl]
  by (simp only: Let_def) (simp add: exit_init_def)

text \<open>
  C38: Ending a session does not stop the goroutine of its direct path. In every run in which a session
  with a direct connection ends and its address is given to a new session, with the broker keeping its
  promise, the ended session's client can still send packets into the network from the address that is
  now another client's.
\<close>

theorem ended_session_still_writes:
  assumes "exit_run env (broker_promise env) x"
    and "mget (xn_sessions x) old = Some r" and "mget (xn_objs x) r = Some es"
    and "es_clientIP es = string4 w"
    and "mget (xn_directs x) r = Some dt" and "dt_pc dt = DirectServing qc"
    and "mget (xn_sessions x) new = None" and "ipv4Src pkt = Some (Addr4 w)"
    and "y = fold (exit_handle env) [FromBroker t1 (end_msg old), FromBroker t2 (start_msg new w)] x"
  shows "exit_run env (broker_promise env) y \<and> mget (xn_sessions y) old = None \<and>
    mget (xn_byIP y) (Addr4 w) = Some new \<and>
    xn_out (exit_handle env (DirectDatagram r pkt) y) = xn_out y @ [TunWrote pkt]"
proof -
  from exit_typed.reach_holds [OF assms(1)] assms(3) have r: "r \<noteq> xn_next x"
    by (auto simp: exit_ok_def)
  define x1 where "x1 = exit_handle env (FromBroker t1 (end_msg old)) x"
  have x1: "x1 = x\<lparr>xn_sessions := mdel (xn_sessions x) old, xn_byIP := mdel (xn_byIP x) (Addr4 w)\<rparr>"
    unfolding x1_def by (rule ended [OF assms(2-4)])
  have new: "mget (xn_sessions x1) new = None" using assms(7) by (simp add: x1)
  have y: "y = exit_handle env (FromBroker t2 (start_msg new w)) x1" using assms(9) by (simp add: x1_def)
  have "exit_run env (broker_promise env) x1"
    unfolding x1_def using assms(1) by (rule exit_run_step) simp
  then have "exit_run env (broker_promise env) y"
    unfolding y by (rule exit_run_step) (simp add: x1)
  moreover have "mget (xn_sessions y) old = None" "mget (xn_byIP y) (Addr4 w) = Some new"
    using started(1,2) [OF new] assms(2,7) by (auto simp: y x1)
  moreover have "mget (xn_directs y) r = Some dt" "mget (xn_objs y) r = Some es"
    using started(3,4) [OF new] assms(3,5) r by (simp_all add: y x1)
  then have "xn_out (exit_handle env (DirectDatagram r pkt) y) = xn_out y @ [TunWrote pkt]"
    using assms(4,6,8) by (simp add: direct_datagram_def writeInbound_out)
  ultimately show ?thesis by simp
qed

theorem ended_session_still_writes_witness:
  "let y = fold (exit_handle demo_xenv) [FromBroker 8 (end_msg 7), FromBroker 9 (start_msg 8 0x0A630002)] demo_exit_st
   in mget (xn_byIP y) (Addr4 0x0A630002) = Some 8 \<and>
      xn_out (exit_handle demo_xenv (DirectDatagram 0 (ip_packet 0x0A630002 1 [])) y) =
        xn_out y @ [TunWrote (ip_packet 0x0A630002 1 [])]"
proof -
  obtain dt es where d: "mget (xn_directs demo_exit_st) 0 = Some dt" "dt_pc dt = DirectServing 9"
    "mget (xn_objs demo_exit_st) 0 = Some es" "es_clientIP es = string4 0x0A630002"
    using demo_exit_val(3,4) by blast
  show ?thesis
    using ended_session_still_writes [OF demo_xrun demo_exit_val(1) d(3,4,1,2) demo_exit_val(5)
        ip_packet_src [of "0x0A630002" 1 "[]"] refl, of 8 9]
    by (simp only: Let_def)
qed

section \<open>Reconnecting\<close>

lemma next_backoff_capped:
  "next_backoff (min (2 ^ k * second) (15 * second)) = min (2 ^ Suc k * second) (15 * second)"
  by (simp add: next_backoff_def Let_def min_def)

definition backoffs :: "nat \<Rightarrow> duration list" where
  "backoffs n = map (\<lambda>k. min (2 ^ k * second) (15 * second)) [0..<n]"

lemma reconnect_from:
  assumes "dial n = Inr c" and "\<And>j. k \<le> j \<Longrightarrow> j < n \<Longrightarrow> \<exists>e. dial j = Inl e" and "k \<le> n"
  shows "reconnect dial k (min (2 ^ k * second) (15 * second)) (backoffs k) = Some (c, backoffs n)"
  using assms(3,2)
proof (induction rule: inc_induct)
  case base
  then show ?case using assms(1) by (simp add: reconnect.simps)
next
  case (step k)
  obtain e where e: "dial k = Inl e" using step.prems [of k] step.hyps by auto
  have b: "backoffs k @ [min (2 ^ k * second) (15 * second)] = backoffs (Suc k)"
    by (simp add: backoffs_def)
  have "reconnect dial (Suc k) (min (2 ^ Suc k * second) (15 * second)) (backoffs (Suc k)) = Some (c, backoffs n)"
    by (rule step.IH) (use step.prems in auto)
  then show ?case
    by (subst reconnect.simps) (simp only: e sum.case next_backoff_capped b)
qed

lemma reconnect_result: "reconnect dial k b sl = Some y \<Longrightarrow> \<exists>n. dial n = Inr (fst y)"
  by (rule reconnect.raw_induct [where P = "\<lambda>dial k b sl y. \<exists>n. dial n = Inr (fst y)"])
    (auto split: sum.splits)

text \<open>
  C32: The reconnect loop ends exactly when some attempt succeeds. It then returns the connection of the
  first successful attempt, after sleeps of 1, 2, 4, 8 and from then on 15 seconds; while no attempt
  succeeds it goes on for ever.
\<close>

theorem reconnect_terminates:
  "reconnect dial 0 second [] =
    (if \<exists>n. \<not> isl (dial n)
     then let n = LEAST n. \<not> isl (dial n)
          in Some (projr (dial n), map (\<lambda>k. min (2 ^ k * second) (15 * second)) [0..<n])
     else None)"
proof (cases "\<exists>n. \<not> isl (dial n)")
  case True
  define n where "n = (LEAST n. \<not> isl (dial n))"
  have n: "dial n = Inr (projr (dial n))"
    using LeastI_ex [OF True] by (cases "dial n") (simp_all add: n_def)
  have "\<exists>e. dial j = Inl e" if "j < n" for j
    using not_less_Least [OF that [unfolded n_def]] by (cases "dial j") auto
  then have "reconnect dial 0 (min (2 ^ 0 * second) (15 * second)) (backoffs 0) = Some (projr (dial n), backoffs n)"
    by (intro reconnect_from [where n = n and dial = dial, OF n]) simp_all
  with True show ?thesis by (simp add: n_def [symmetric] backoffs_def Let_def)
next
  case False
  then have "reconnect dial 0 second [] = None"
    using reconnect_result [of dial 0 second "[]"] by (metis isl_def option.exhaust sum.disc(2))
  with False show ?thesis by simp
qed

end
