(* ===== verification/Client.thy ===== *)
theory Client
  imports ExitNode
begin

text \<open>
  \<^verbatim>\<open>cmd/revquic-client/main.go\<close>: the client. One call of \<open>runConnection\<close> that got as far as a session is an
  \<open>activation\<close>: its connection, its session and the goroutines it started. They outlive the call for
  as long as they have not seen the cancelled context, so activations are kept, and a goroutine is known by
  the index of its activation.

  Calls on the TUN device, the host's routes and connections are appended to \<open>cl_out\<close>; log lines are left
  out. What the libraries answer is in the events and in the record \<open>client_env\<close>.
\<close>

section \<open>State\<close>

record run_params =
  rp_brokerAddr :: string
  rp_region :: string
  rp_token :: string
  rp_exitID :: string
  rp_name :: string
  rp_resumeKey :: string
  rp_full :: bool
  rp_brokerIP :: string
  rp_gw :: string
  rp_dev :: string
  rp_logFile :: string
  rp_logType :: string
  rp_direct :: bool
  rp_directMode :: string
  rp_stun :: string
  rp_turn :: string
  rp_turnUser :: string
  rp_turnPass :: string
  rp_iceKeepalive :: duration
  rp_rateBytes :: float64
  rp_reportInterval :: duration

record activation =
  ac_conn :: conn
  ac_sid :: u64
  ac_sess :: session_path
  ac_live :: bool
  ac_incoming :: "signal list"
  ac_rtt :: int
  ac_ice :: pion_config
  ac_direct :: "direct_pc option"
  ac_report :: "(meta \<times> reporter) option"
  ac_inbound :: bool

datatype client_effect =
  WroteControl conn control
| SentPacket conn bytes
| WroteTun bytes
| ClosedWith conn u64
| AddrUp string string int
| AddHostRoute string string string
| SetDefaultRoute string
| SpawnSupervisor string string string string bool string string
| Slept duration
| Fatal string

text \<open>Where the reconnect loop of \<open>main\<close> stands.\<close>

datatype loop_pc = Dialling | Awaiting conn | Connected nat | Sleeping | Stopped

record client_st =
  cl_params :: run_params
  cl_pc :: loop_pc
  cl_first :: bool
  cl_backoff :: duration
  cl_shuttingDown :: bool
  cl_routesUp :: bool
  cl_acts :: "activation list"
  cl_cur :: "nat option"
  cl_box :: "conn option"
  cl_lastTick :: gotime
  cl_out :: "client_effect list"

record client_env =
  ce_transport :: "conn \<Rightarrow> bytes \<Rightarrow> string option"
  ce_unmarshal :: "bytes \<Rightarrow> signal option"
  ce_marshal :: "signal \<Rightarrow> bytes"
  ce_host :: string
  ce_tun :: string
  ce_os :: string
  ce_hostStat :: "float64 \<times> float64 \<times> float64"
  ce_default_route :: "string option"

definition client_init :: "run_params \<Rightarrow> gotime \<Rightarrow> client_st" where
  "client_init p now =
    \<lparr>cl_params = p, cl_pc = Dialling, cl_first = True, cl_backoff = second, cl_shuttingDown = False,
     cl_routesUp = False, cl_acts = [], cl_cur = None, cl_box = None, cl_lastTick = now, cl_out = []\<rparr>"

definition c_effect :: "client_effect \<Rightarrow> client_st \<Rightarrow> client_st" where
  "c_effect e cl = cl\<lparr>cl_out := cl_out cl @ [e]\<rparr>"

definition upd_act :: "nat \<Rightarrow> (activation \<Rightarrow> activation) \<Rightarrow> client_st \<Rightarrow> client_st" where
  "upd_act i f cl =
    (if i < length (cl_acts cl) then cl\<lparr>cl_acts := (cl_acts cl)[i := f (cl_acts cl ! i)]\<rparr> else cl)"

text \<open>\<open>connBox.closeCode\<close>.\<close>

definition closeCode :: "u64 \<Rightarrow> client_st \<Rightarrow> client_st" where
  "closeCode code cl = (case cl_box cl of None \<Rightarrow> cl | Some c \<Rightarrow> c_effect (ClosedWith c code) cl)"

section \<open>The reconnect loop\<close>

datatype client_err = NoExitErr string | ConnErr string

text \<open>
  \<open>runConnection\<close> returns \<open>err\<close>, with its deferred calls, and the loop goes on to its sleep or ends; and the
  end of the sleep.
\<close>

definition connection_down :: "client_err \<Rightarrow> client_st \<Rightarrow> client_st" where
  "connection_down err cl =
    (let cl = (case cl_pc cl of
                 Awaiting c \<Rightarrow> c_effect (ClosedWith c 0) cl
               | Connected i \<Rightarrow>
                   (if i < length (cl_acts cl) then c_effect (ClosedWith (ac_conn (cl_acts cl ! i)) 0) else id)
                     (upd_act i (\<lambda>a. a\<lparr>ac_live := False\<rparr>) cl)
               | _ \<Rightarrow> cl);
         cl = cl\<lparr>cl_cur := None\<rparr>
     in if cl_shuttingDown cl then cl\<lparr>cl_pc := Stopped\<rparr>
        else (case (err, cl_first cl) of
                (NoExitErr msg, True) \<Rightarrow> c_effect (Fatal msg) (cl\<lparr>cl_pc := Stopped\<rparr>)
              | _ \<Rightarrow> c_effect (Slept (cl_backoff cl)) (cl\<lparr>cl_first := False, cl_pc := Sleeping\<rparr>)))"

definition client_backoff :: "duration \<Rightarrow> duration" where
  "client_backoff backoff =
    (if backoff < 15 * second then (if backoff * 2 > 15 * second then 15 * second else backoff * 2)
     else backoff)"

definition sleep_over :: "client_st \<Rightarrow> client_st" where
  "sleep_over cl =
    (if cl_pc cl = Sleeping then cl\<lparr>cl_pc := Dialling, cl_backoff := client_backoff (cl_backoff cl)\<rparr> else cl)"

section \<open>Connecting\<close>

definition connect_msg :: "run_params \<Rightarrow> control" where
  "connect_msg p =
    (control_of MsgConnect)\<lparr>c_RequestedRegion := rp_region p, c_Token := rp_token p,
       c_RequestedExit := rp_exitID p, c_Name := rp_name p, c_ResumeKey := rp_resumeKey p\<rparr>"

text \<open>\<open>runConnection\<close> up to the wait for the answer: the dial, the control stream, the first message.\<close>

definition client_dial :: "string + conn \<Rightarrow> string option \<Rightarrow> string option \<Rightarrow> client_st \<Rightarrow> client_st" where
  "client_dial dialled opened written cl =
    (if cl_pc cl \<noteq> Dialling then cl
     else (case dialled of
             Inl err \<Rightarrow> connection_down (ConnErr err) cl
           | Inr c \<Rightarrow>
               (let cl = cl\<lparr>cl_pc := Awaiting c\<rparr> in
                case opened of
                  Some err \<Rightarrow> connection_down (ConnErr err) cl
                | None \<Rightarrow>
                    (case written of
                       Some err \<Rightarrow> connection_down (ConnErr err) cl
                     | None \<Rightarrow> c_effect (WroteControl c (connect_msg (cl_params cl))) cl))))"

definition tunnel_mtu :: "control \<Rightarrow> int" where
  "tunnel_mtu resp =
    (if c_MTU resp = 0 \<or> c_MTU resp > int SafeTunnelMTU then int SafeTunnelMTU else c_MTU resp)"

text \<open>The routes of a full tunnel, once, and whether the default route could be set.\<close>

definition setup_routes :: "client_env \<Rightarrow> client_st \<Rightarrow> bool \<times> client_st" where
  "setup_routes env cl =
    (let p = cl_params cl in
     if rp_full p \<and> \<not> cl_routesUp cl then
       (let cl = (if rp_brokerIP p \<noteq> '''' \<and> rp_gw p \<noteq> '''' \<and> rp_dev p \<noteq> ''''
                  then c_effect (AddHostRoute (rp_brokerIP p) (rp_gw p) (rp_dev p)) cl else cl);
            cl = c_effect (SetDefaultRoute (ce_tun env)) cl
        in case ce_default_route env of
             Some _ \<Rightarrow> (False, cl)
           | None \<Rightarrow> (True, (c_effect (SpawnSupervisor (ce_tun env) (rp_brokerIP p) (rp_gw p) (rp_dev p) (rp_full p)
                                  (rp_logFile p) (rp_logType p)) cl)\<lparr>cl_routesUp := True\<rparr>))
     else (True, cl))"

definition client_meta :: "client_env \<Rightarrow> run_params \<Rightarrow> control \<Rightarrow> meta" where
  "client_meta env p resp =
    \<lparr>mt_Host = ce_host env, mt_TunName = ce_tun env, mt_OS = ce_os env,
     mt_UsingStun = (rp_direct p \<and> orStr (c_StunURL resp) (rp_stun p) \<noteq> ''''),
     mt_UsingTurn = (rp_direct p \<and> orStr (c_TurnURL resp) (rp_turn p) \<noteq> ''''), mt_Downlink = False,
     mt_HostStat = Some (ce_hostStat env)\<rparr>"

definition client_ice :: "run_params \<Rightarrow> control \<Rightarrow> pion_config" where
  "client_ice p resp =
    \<lparr>pc_Role = RoleControlling, pc_STUNURLs = splitCSV (orStr (c_StunURL resp) (rp_stun p)),
     pc_TURNURLs = splitCSV (orStr (c_TurnURL resp) (rp_turn p)),
     pc_TURNUser = orStr (c_TurnUser resp) (rp_turnUser p),
     pc_TURNPass = orStr (c_TurnPass resp) (rp_turnPass p), pc_KeepaliveInterval = rp_iceKeepalive p,
     pc_FailedTimeout = 0, pc_DisconnectedTimeout = 0, pc_DisableMDNS = False, pc_IncludeLoopback = False\<rparr>"

definition relay_path :: "conn \<Rightarrow> u64 \<Rightarrow> path" where
  "relay_path c sid = \<lparr>Sender = Some c, Encode = relayEncode sid\<rparr>"

definition new_activation ::
  "client_env \<Rightarrow> gotime \<Rightarrow> run_params \<Rightarrow> conn \<Rightarrow> control \<Rightarrow> session_path \<Rightarrow> activation" where
  "new_activation env now p c resp sess =
    \<lparr>ac_conn = c, ac_sid = c_SessionID resp,
     ac_sess = (if rp_rateBytes p > 0 then SetRateLimit (rp_rateBytes p) (rp_rateBytes p * 2) sess else sess),
     ac_live = True, ac_incoming = [], ac_rtt = 0, ac_ice = client_ice p resp,
     ac_direct = (if rp_direct p then Some DirectNew else None),
     ac_report = (if rp_reportInterval p > 0
                  then Some (client_meta env p resp, \<lparr>rp_lastBytes = 0, rp_last = now\<rparr>) else None),
     ac_inbound = True\<rparr>"

text \<open>
  The answer to the connect message: \<open>runConnection\<close> from there to its control loop. A default route that
  cannot be set ends the process.
\<close>

definition client_reply :: "client_env \<Rightarrow> gotime \<Rightarrow> string + control \<Rightarrow> client_st \<Rightarrow> client_st" where
  "client_reply env now answer cl =
    (case cl_pc cl of
       Awaiting c \<Rightarrow>
         (case answer of
            Inl err \<Rightarrow> connection_down (ConnErr err) cl
          | Inr resp \<Rightarrow>
              if c_Type resp \<noteq> MsgConnectOK then connection_down (NoExitErr (c_Error resp)) cl
              else
                (let cl = c_effect (AddrUp (ce_tun env) (c_ClientIP resp @ ''/24'') (tunnel_mtu resp)) cl in
                 case setup_routes env cl of
                   (False, cl) \<Rightarrow> c_effect (Fatal ''default route'') (cl\<lparr>cl_pc := Stopped\<rparr>)
                 | (True, cl) \<Rightarrow>
                     (case StartRelay (relay_path c (c_SessionID resp)) (session_New (c_SessionID resp)) of
                        (Some _, _) \<Rightarrow> connection_down (ConnErr ''start relay'') cl
                      | (None, sess) \<Rightarrow>
                          cl\<lparr>cl_acts := cl_acts cl @ [new_activation env now (cl_params cl) c resp sess],
                             cl_cur := Some (length (cl_acts cl)), cl_box := Some c,
                             cl_pc := Connected (length (cl_acts cl))\<rparr>)))
     | _ \<Rightarrow> cl)"

section \<open>A running connection\<close>

text \<open>The body of the control loop.\<close>

definition client_control :: "client_env \<Rightarrow> gotime \<Rightarrow> string + control \<Rightarrow> client_st \<Rightarrow> client_st" where
  "client_control env now input cl =
    (case cl_pc cl of
       Connected i \<Rightarrow>
         (case input of
            Inl err \<Rightarrow> connection_down (ConnErr err) cl
          | Inr m \<Rightarrow>
              (case c_Type m of
                 MsgSignal \<Rightarrow>
                   (case ce_unmarshal env (c_Signal m) of
                      None \<Rightarrow> cl
                    | Some sig \<Rightarrow>
                        upd_act i (\<lambda>a. if length (ac_incoming a) < incoming_cap
                                       then a\<lparr>ac_incoming := ac_incoming a @ [sig]\<rparr> else a) cl)
               | MsgError \<Rightarrow> connection_down (NoExitErr (c_Error m)) cl
               | MsgPong \<Rightarrow> upd_act i (\<lambda>a. a\<lparr>ac_rtt := Observe now (c_TS m) (ac_rtt a)\<rparr>) cl
               | _ \<Rightarrow> cl))
     | _ \<Rightarrow> cl)"

text \<open>One datagram of the relay, and the end of this loop with its connection.\<close>

definition relay_inbound :: "nat \<Rightarrow> bytes \<Rightarrow> client_st \<Rightarrow> client_st" where
  "relay_inbound i dg cl =
    (if i < length (cl_acts cl) \<and> ac_inbound (cl_acts cl ! i) then
       (case DecodeDatagram dg of Inl _ \<Rightarrow> cl | Inr (_, pkt) \<Rightarrow> c_effect (WroteTun pkt) cl)
     else cl)"

definition inbound_ends :: "nat \<Rightarrow> client_st \<Rightarrow> client_st" where
  "inbound_ends i = upd_act i (\<lambda>a. a\<lparr>ac_inbound := False\<rparr>)"

text \<open>
  One round of the TUN pump: a failing read ends the process; a packet goes to the current session, if there
  is one.
\<close>

definition tun_failed :: "string \<Rightarrow> client_st \<Rightarrow> client_st" where
  "tun_failed err cl = c_effect (Fatal (''tun read: '' @ err)) (cl\<lparr>cl_pc := Stopped\<rparr>)"

definition tun_outbound :: "client_env \<Rightarrow> gotime \<Rightarrow> bytes \<Rightarrow> client_st \<Rightarrow> client_st" where
  "tun_outbound env now pkt cl =
    (case cl_cur cl of
       None \<Rightarrow> cl
     | Some i \<Rightarrow>
         if i < length (cl_acts cl) then
           (case Send (ce_transport env) now pkt (ac_sess (cl_acts cl ! i)) of
              (_, sent, sess) \<Rightarrow>
                (let cl = upd_act i (\<lambda>a. a\<lparr>ac_sess := sess\<rparr>) cl in
                 case sent of None \<Rightarrow> cl | Some (c, d) \<Rightarrow> c_effect (SentPacket c d) cl))
         else cl)"

text \<open>A round of the sleep watchdog, and the shutdown callback up to \<open>os.Exit\<close>.\<close>

definition watchdog :: "gotime \<Rightarrow> client_st \<Rightarrow> client_st" where
  "watchdog now cl =
    (let cl' = (if now - cl_lastTick cl > 10 * second then closeCode 0 cl else cl)
     in cl'\<lparr>cl_lastTick := now\<rparr>)"

definition client_shutdown :: "client_st \<Rightarrow> client_st" where
  "client_shutdown cl = closeCode CloseClientShutdown (cl\<lparr>cl_shuttingDown := True\<rparr>)"

section \<open>The direct path\<close>

text \<open>
  \<open>runDirect\<close> of an activation between its blocking calls, as for the exit: up to \<open>Negotiate\<close>, its result, a
  datagram on the direct connection, and the end of that connection.
\<close>

definition act_direct :: "nat \<Rightarrow> client_st \<Rightarrow> direct_pc option" where
  "act_direct i cl = (if i < length (cl_acts cl) then ac_direct (cl_acts cl ! i) else None)"

definition client_direct_begin :: "pion_lib \<Rightarrow> nat \<Rightarrow> client_st \<Rightarrow> client_st" where
  "client_direct_begin lib i cl =
    (if act_direct i cl \<noteq> Some DirectNew then cl
     else
       upd_act i (\<lambda>a.
         case NewPionAgent lib (ac_ice a) of
           Inl _ \<Rightarrow> a\<lparr>ac_direct := None\<rparr>
         | Inr _ \<Rightarrow>
             (case BeginChecks (ac_sess a) of
                (Some _, sess) \<Rightarrow> a\<lparr>ac_sess := sess, ac_direct := None\<rparr>
              | (None, sess) \<Rightarrow> a\<lparr>ac_sess := sess, ac_direct := Some DirectChecking\<rparr>)) cl)"

definition client_signal :: "client_env \<Rightarrow> u64 \<Rightarrow> signal \<Rightarrow> control" where
  "client_signal env sid sig = (control_of MsgSignal)\<lparr>c_SessionID := sid, c_Signal := ce_marshal env sig\<rparr>"

definition client_direct_result ::
  "client_env \<Rightarrow> ice_agent \<Rightarrow> (signal \<Rightarrow> string option) \<Rightarrow> signal list \<Rightarrow> nat \<Rightarrow> client_st \<Rightarrow> client_st" where
  "client_direct_result env agent send sigs i cl =
    (if act_direct i cl \<noteq> Some DirectChecking then cl
     else
       (let a = cl_acts cl ! i in
        case Negotiate agent RoleControlling ''1'' send sigs (rp_directMode (cl_params cl) = ''p2p-only'') of
          (sent, res) \<Rightarrow>
            (let cl = fold (\<lambda>sig. c_effect (WroteControl (ac_conn a) (client_signal env (ac_sid a) sig))) sent cl in
             case res of
               Inl _ \<Rightarrow>
                 upd_act i (\<lambda>a. a\<lparr>ac_sess := snd (ChecksFailed (ac_sess a)), ac_direct := None\<rparr>) cl
             | Inr qc \<Rightarrow>
                 upd_act i (\<lambda>a.
                   case UpgradeDirect \<lparr>Sender = Some qc, Encode = Identity\<rparr> (ac_sess a) of
                     (Some _, sess) \<Rightarrow> a\<lparr>ac_sess := sess, ac_direct := None\<rparr>
                   | (None, sess) \<Rightarrow> a\<lparr>ac_sess := sess, ac_direct := Some (DirectServing qc)\<rparr>) cl)))"

definition client_direct_datagram :: "nat \<Rightarrow> bytes \<Rightarrow> client_st \<Rightarrow> client_st" where
  "client_direct_datagram i dg cl =
    (case act_direct i cl of
       Some (DirectServing _) \<Rightarrow> c_effect (WroteTun dg) cl
     | _ \<Rightarrow> cl)"

definition client_direct_lost :: "nat \<Rightarrow> client_st \<Rightarrow> client_st" where
  "client_direct_lost i cl =
    (case act_direct i cl of
       Some (DirectServing _) \<Rightarrow>
         upd_act i (\<lambda>a. a\<lparr>ac_sess := snd (FallbackRelay (relay_path (ac_conn a) (ac_sid a)) (ac_sess a)),
                          ac_direct := None\<rparr>) cl
     | _ \<Rightarrow> cl)"

section \<open>Reports\<close>

definition client_report :: "client_env \<Rightarrow> gotime \<Rightarrow> nat \<Rightarrow> client_st \<Rightarrow> client_st" where
  "client_report env now i cl =
    (if i < length (cl_acts cl) then
       (let a = cl_acts cl ! i in
        case ac_report a of
          None \<Rightarrow> cl
        | Some (mt, rp) \<Rightarrow>
            (case report_tick now (ac_sid a) (ac_sess a) (mt\<lparr>mt_HostStat := Some (ce_hostStat env)\<rparr>) (ac_rtt a) rp of
               (msgs, rp) \<Rightarrow>
                 fold (\<lambda>m. c_effect (WroteControl (ac_conn a) m)) msgs
                   (upd_act i (\<lambda>a. a\<lparr>ac_report := Some (mt, rp)\<rparr>) cl)))
     else cl)"

definition client_report_stop :: "nat \<Rightarrow> client_st \<Rightarrow> client_st" where
  "client_report_stop i = upd_act i (\<lambda>a. if ac_live a then a else a\<lparr>ac_report := None\<rparr>)"

section \<open>Runs of the client\<close>

datatype client_in =
  Dialled "string + conn" "string option" "string option"
| Answered_by gotime "string + control"
| ControlIn gotime "string + control"
| RelayIn nat bytes
| RelayInEnds nat
| TunOut gotime bytes
| TunFails string
| WatchTick gotime
| ShutdownSignal
| ProcessExit
| SleepOver
| DirectStarts pion_lib nat
| DirectTakes nat
| DirectResult ice_agent "signal \<Rightarrow> string option" "signal list" nat
| DirectIn nat bytes
| DirectEnds nat
| Reports gotime nat
| ReportsEnd nat

text \<open>A stopped process does nothing more.\<close>

definition client_handle :: "client_env \<Rightarrow> client_in \<Rightarrow> client_st \<Rightarrow> client_st" where
  "client_handle env ev cl =
    (if cl_pc cl = Stopped then cl
     else (case ev of
             Dialled d op wr \<Rightarrow> client_dial d op wr cl
           | Answered_by now ans \<Rightarrow> client_reply env now ans cl
           | ControlIn now m \<Rightarrow> client_control env now m cl
           | RelayIn i dg \<Rightarrow> relay_inbound i dg cl
           | RelayInEnds i \<Rightarrow> inbound_ends i cl
           | TunOut now pkt \<Rightarrow> tun_outbound env now pkt cl
           | TunFails err \<Rightarrow> tun_failed err cl
           | WatchTick now \<Rightarrow> watchdog now cl
           | ShutdownSignal \<Rightarrow> client_shutdown cl
           | ProcessExit \<Rightarrow> if cl_shuttingDown cl then cl\<lparr>cl_pc := Stopped\<rparr> else cl
           | SleepOver \<Rightarrow> sleep_over cl
           | DirectStarts lib i \<Rightarrow> client_direct_begin lib i cl
           | DirectTakes i \<Rightarrow> upd_act i (\<lambda>a. a\<lparr>ac_incoming := tl (ac_incoming a)\<rparr>) cl
           | DirectResult ag send sigs i \<Rightarrow> client_direct_result env ag send sigs i cl
           | DirectIn i dg \<Rightarrow> client_direct_datagram i dg cl
           | DirectEnds i \<Rightarrow> client_direct_lost i cl
           | Reports now i \<Rightarrow> client_report env now i cl
           | ReportsEnd i \<Rightarrow> client_report_stop i cl))"

definition client_start :: "client_st \<Rightarrow> bool" where
  "client_start cl = (\<exists>p now. cl = client_init p now)"

inductive client_trans :: "client_env \<Rightarrow> client_st \<Rightarrow> client_st \<Rightarrow> bool" for env :: client_env where
  "client_trans env cl (client_handle env ev cl)"

abbreviation client_run :: "client_env \<Rightarrow> client_st \<Rightarrow> bool" where
  "client_run env \<equiv> reach client_start (client_trans env)"

end
