(* ===== verification/ClientRuns.thy ===== *)
theory ClientRuns
  imports Client ExitRuns
begin

text \<open>
  Runs of the client: the invariant of its activations and of the reconnect loop under every event, and what
  it gives for the packets of the TUN pump.
\<close>

section \<open>The invariant\<close>

text \<open>
  An activation's path fits its state, and its state fits the direct-path goroutine: without one the session is
  on the relay.
\<close>

fun fits :: "direct_pc option \<Rightarrow> session_path \<Rightarrow> bool" where
  "fits None s = (session_State s = StateRelaying)"
| "fits (Some pc) s = pc_ok pc s"

definition act_ok :: "activation \<Rightarrow> bool" where
  "act_ok a =
    (length (ac_incoming a) \<le> incoming_cap \<and> sp_ID (ac_sess a) = ac_sid a \<and>
     path_inv (\<lambda>p. p = relay_path (ac_conn a) (ac_sid a)) (\<lambda>p. Encode p = Identity) (ac_sess a) \<and>
     fits (ac_direct a) (ac_sess a))"

text \<open>The loop, the pointer to the current session, the box and the liveness of contexts agree.\<close>

definition client_ok :: "client_st \<Rightarrow> bool" where
  "client_ok cl =
    (list_all act_ok (cl_acts cl) \<and>
     (cl_pc cl \<noteq> Stopped \<longrightarrow> cl_cur cl = (case cl_pc cl of Connected i \<Rightarrow> Some i | _ \<Rightarrow> None)) \<and>
     (\<forall>i. cl_pc cl = Connected i \<longrightarrow> i < length (cl_acts cl) \<and> cl_box cl = Some (ac_conn (cl_acts cl ! i))) \<and>
     (cl_pc cl \<noteq> Stopped \<longrightarrow> (\<forall>j < length (cl_acts cl). ac_live (cl_acts cl ! j) \<longleftrightarrow> cl_pc cl = Connected j)) \<and>
     second \<le> cl_backoff cl \<and> cl_backoff cl \<le> 15 * second)"

lemma client_ok_cong:
  "client_ok cl \<Longrightarrow> cl_acts cl' = cl_acts cl \<Longrightarrow> cl_pc cl' = cl_pc cl \<Longrightarrow> cl_cur cl' = cl_cur cl \<Longrightarrow>
    cl_box cl' = cl_box cl \<Longrightarrow> cl_backoff cl' = cl_backoff cl \<Longrightarrow> client_ok cl'"
  by (simp add: client_ok_def)

lemma c_effect_frame [simp]:
  "cl_acts (c_effect e cl) = cl_acts cl" "cl_pc (c_effect e cl) = cl_pc cl" "cl_cur (c_effect e cl) = cl_cur cl"
  "cl_box (c_effect e cl) = cl_box cl" "cl_backoff (c_effect e cl) = cl_backoff cl"
  "cl_params (c_effect e cl) = cl_params cl" "cl_shuttingDown (c_effect e cl) = cl_shuttingDown cl"
  "cl_first (c_effect e cl) = cl_first cl" "cl_out (c_effect e cl) = cl_out cl @ [e]"
  by (simp_all add: c_effect_def)

lemma client_ok_effect [simp]: "client_ok (c_effect e cl) = client_ok cl"
  by (simp add: client_ok_def)

lemma client_ok_effects [simp]: "client_ok (fold (\<lambda>m. c_effect (f m)) ms cl) = client_ok cl"
  by (induction ms arbitrary: cl) simp_all

lemma effects_acts [simp]: "cl_acts (fold (\<lambda>m. c_effect (f m)) ms cl) = cl_acts cl"
  by (induction ms arbitrary: cl) simp_all

lemma upd_act_frame [simp]:
  "cl_pc (upd_act i f cl) = cl_pc cl" "cl_cur (upd_act i f cl) = cl_cur cl" "cl_box (upd_act i f cl) = cl_box cl"
  "cl_backoff (upd_act i f cl) = cl_backoff cl" "cl_out (upd_act i f cl) = cl_out cl"
  "cl_shuttingDown (upd_act i f cl) = cl_shuttingDown cl" "cl_first (upd_act i f cl) = cl_first cl"
  "length (cl_acts (upd_act i f cl)) = length (cl_acts cl)"
  by (simp_all add: upd_act_def)

lemma upd_act_nth [simp]:
  "j < length (cl_acts cl) \<Longrightarrow>
    cl_acts (upd_act i f cl) ! j = (if j = i then f (cl_acts cl ! i) else cl_acts cl ! j)"
  by (auto simp: upd_act_def nth_list_update)

text \<open>The rule for a change of an activation.\<close>

lemma client_ok_update:
  assumes "client_ok cl"
    and "i < length (cl_acts cl) \<Longrightarrow> act_ok (cl_acts cl ! i) \<Longrightarrow>
      act_ok (f (cl_acts cl ! i)) \<and> ac_conn (f (cl_acts cl ! i)) = ac_conn (cl_acts cl ! i) \<and>
      ac_live (f (cl_acts cl ! i)) = ac_live (cl_acts cl ! i)"
  shows "client_ok (upd_act i f cl)"
proof (cases "i < length (cl_acts cl)")
  case True
  with assms show ?thesis by (auto simp: client_ok_def list_all_length)
next
  case False
  with assms(1) show ?thesis by (simp add: upd_act_def)
qed

lemma act_direct_Some:
  "act_direct i cl = Some pc \<longleftrightarrow> i < length (cl_acts cl) \<and> ac_direct (cl_acts cl ! i) = Some pc"
  by (simp add: act_direct_def)

section \<open>Operations on a session keep an activation well formed\<close>

lemma op_ID [simp]:
  "sp_ID (snd (fire ev s)) = sp_ID s" "sp_ID (snd (migrate ev p s)) = sp_ID s"
  "sp_ID (snd (snd (Send tr now pkt s))) = sp_ID s"
  by (auto simp: fire_def migrate_def setPath_def Send_def Let_def split: prod.splits option.splits)

lemma act_ok_send:
  assumes "act_ok a"
  shows "act_ok (a\<lparr>ac_sess := snd (snd (Send tr now pkt (ac_sess a)))\<rparr>)"
  using assms pc_ok_cong [of "snd (snd (Send tr now pkt (ac_sess a)))" "ac_sess a"]
  by (cases "ac_direct a") (auto simp: act_ok_def path_inv_def split: path_state.splits)

lemma act_ok_begin:
  assumes "act_ok a" "ac_direct a = Some DirectNew"
  shows "\<exists>sess. BeginChecks (ac_sess a) = (None, sess) \<and>
    act_ok (a\<lparr>ac_sess := sess, ac_direct := Some DirectChecking\<rparr>)"
  using assms fire_error [of EvBeginChecks "ac_sess a"]
  by (intro exI [of _ "snd (BeginChecks (ac_sess a))"])
    (auto simp: act_ok_def path_inv_def BeginChecks_def fire_state prod_eq_iff)

lemma act_ok_failed:
  assumes "act_ok a" "ac_direct a = Some DirectChecking"
  shows "act_ok (a\<lparr>ac_sess := snd (ChecksFailed (ac_sess a)), ac_direct := None\<rparr>)"
  using assms by (auto simp: act_ok_def path_inv_def ChecksFailed_def fire_state)

lemma act_ok_upgrade:
  assumes "act_ok a" "ac_direct a = Some DirectChecking"
  shows "\<exists>sess. UpgradeDirect \<lparr>Sender = Some qc, Encode = Identity\<rparr> (ac_sess a) = (None, sess) \<and>
    act_ok (a\<lparr>ac_sess := sess, ac_direct := Some (DirectServing qc)\<rparr>)"
proof -
  have "fst (migrate ev p s) = fst (fire ev s)" for ev p s
    by (simp add: migrate_def split: prod.split option.split)
  then show ?thesis
    using assms fire_error [of EvDirectEstablished "ac_sess a"]
    by (intro exI [of _ "snd (UpgradeDirect \<lparr>Sender = Some qc, Encode = Identity\<rparr> (ac_sess a))"])
      (auto simp: act_ok_def path_inv_def UpgradeDirect_def migrate_result prod_eq_iff)
qed

lemma act_ok_lost:
  assumes "act_ok a" "ac_direct a = Some (DirectServing qc)"
  shows "act_ok (a\<lparr>ac_sess := snd (FallbackRelay (relay_path (ac_conn a) (ac_sid a)) (ac_sess a)),
    ac_direct := None\<rparr>)"
  using assms by (auto simp: act_ok_def path_inv_def FallbackRelay_def migrate_result)

section \<open>Every event keeps the invariant\<close>

lemma client_ok_init: "client_ok (client_init p now)"
  by (simp add: client_ok_def client_init_def)

text \<open>Leaving a connection: the loop stops or sleeps, with no current session and no live context.\<close>

lemma client_ok_leave:
  assumes "client_ok cl" and "cl_acts cl' = map (\<lambda>a. a\<lparr>ac_live := False\<rparr>) (cl_acts cl)"
    and "cl_cur cl' = None" "cl_pc cl' \<in> {Stopped, Sleeping}" "cl_backoff cl' = cl_backoff cl"
  shows "client_ok cl'"
proof -
  have "act_ok (a\<lparr>ac_live := False\<rparr>) = act_ok a" for a by (simp add: act_ok_def)
  with assms show ?thesis by (auto simp: client_ok_def list_all_length)
qed

lemma not_live:
  assumes "client_ok cl" "\<And>i. cl_pc cl \<noteq> Connected i" "cl_pc cl \<noteq> Stopped"
  shows "map (\<lambda>a. a\<lparr>ac_live := False\<rparr>) (cl_acts cl) = cl_acts cl"
  using assms by (auto simp: client_ok_def list_eq_iff_nth_eq)

lemma live_off:
  assumes "client_ok cl" "cl_pc cl = Connected i"
  shows "cl_acts (upd_act i (\<lambda>a. a\<lparr>ac_live := False\<rparr>) cl) = map (\<lambda>a. a\<lparr>ac_live := False\<rparr>) (cl_acts cl)"
  using assms by (auto simp: client_ok_def list_eq_iff_nth_eq)

lemma client_ok_down:
  assumes ok: "client_ok cl" and pc: "cl_pc cl \<noteq> Stopped"
  shows "client_ok (connection_down err cl)"
proof -
  define cl1 where "cl1 = (case cl_pc cl of
      Awaiting c \<Rightarrow> c_effect (ClosedWith c 0) cl
    | Connected i \<Rightarrow>
        (if i < length (cl_acts cl) then c_effect (ClosedWith (ac_conn (cl_acts cl ! i)) 0) else id)
          (upd_act i (\<lambda>a. a\<lparr>ac_live := False\<rparr>) cl)
    | _ \<Rightarrow> cl)"
  have "cl_acts cl1 = map (\<lambda>a. a\<lparr>ac_live := False\<rparr>) (cl_acts cl) \<and> cl_backoff cl1 = cl_backoff cl"
    using not_live [OF ok] live_off [OF ok] pc by (cases "cl_pc cl") (simp_all add: cl1_def)
  then show ?thesis
    by (intro client_ok_leave [OF ok])
      (simp_all add: connection_down_def cl1_def [symmetric] Let_def split: client_err.split bool.split)
qed

lemma client_ok_dial:
  assumes ok: "client_ok cl"
  shows "client_ok (client_dial d op wr cl)"
proof (cases "cl_pc cl = Dialling")
  case True
  with ok have "client_ok (cl\<lparr>cl_pc := Awaiting c\<rparr>)" for c
    by (auto simp: client_ok_def)
  with True ok show ?thesis
    by (auto simp: client_dial_def Let_def intro: client_ok_down split: sum.split option.split)
qed (simp add: client_dial_def ok)

lemma setup_routes_keeps:
  "setup_routes env cl = (r, cl') \<Longrightarrow> cl_acts cl' = cl_acts cl \<and> cl_pc cl' = cl_pc cl \<and>
    cl_cur cl' = cl_cur cl \<and> cl_box cl' = cl_box cl \<and> cl_backoff cl' = cl_backoff cl \<and> cl_params cl' = cl_params cl"
  by (auto simp: setup_routes_def Let_def split: if_splits option.splits)

lemma new_activation_ok:
  "act_ok (new_activation env now p c resp (snd (StartRelay (relay_path c (c_SessionID resp)) (session_New (c_SessionID resp)))))"
  by (auto simp: act_ok_def new_activation_def StartRelay_New path_inv_def session_State_def SetRateLimit_def) (simp_all add: session_New_def)

lemma client_ok_reply:
  assumes ok: "client_ok cl"
  shows "client_ok (client_reply env now ans cl)"
proof (cases "cl_pc cl")
  case (Awaiting c)
  have down: "client_ok (connection_down err cl)" for err
    using Awaiting by (intro client_ok_down [OF ok]) simp
  show ?thesis
  proof (cases ans)
    case (Inr resp)
    obtain r cl1 where routes: "setup_routes env (c_effect (AddrUp (ce_tun env) (c_ClientIP resp @ ''/24'') (tunnel_mtu resp)) cl) = (r, cl1)"
      by fastforce
    from setup_routes_keeps [OF routes] Awaiting ok
    have "client_ok (cl1\<lparr>cl_pc := Stopped\<rparr>)"
      "client_ok (cl1\<lparr>cl_acts := cl_acts cl1 @ [new_activation env now (cl_params cl1) c resp
           (snd (StartRelay (relay_path c (c_SessionID resp)) (session_New (c_SessionID resp))))],
         cl_cur := Some (length (cl_acts cl1)), cl_box := Some c, cl_pc := Connected (length (cl_acts cl1))\<rparr>)"
      using new_activation_ok [of env now "cl_params cl1" c resp]
      by (auto simp: client_ok_def nth_append less_Suc_eq new_activation_def)
    then show ?thesis
      using down Awaiting Inr routes by (auto simp: client_reply_def StartRelay_New Let_def split: bool.split)
  qed (simp add: client_reply_def Awaiting down)
qed (simp_all add: client_reply_def ok)

lemma client_ok_control:
  assumes ok: "client_ok cl"
  shows "client_ok (client_control env now m cl)"
proof (cases "cl_pc cl")
  case (Connected i)
  have "client_ok (connection_down err cl)" for err
    using Connected by (intro client_ok_down [OF ok]) simp
  moreover have "client_ok (upd_act i (\<lambda>a. a\<lparr>ac_rtt := f a\<rparr>) cl)" for f
    by (rule client_ok_update [OF ok]) (simp add: act_ok_def)
  moreover have "client_ok (upd_act i (\<lambda>a. if length (ac_incoming a) < incoming_cap
      then a\<lparr>ac_incoming := ac_incoming a @ [sig]\<rparr> else a) cl)" for sig
    by (rule client_ok_update [OF ok]) (simp add: act_ok_def)
  ultimately show ?thesis
    using ok Connected by (simp add: client_control_def split: sum.split msg_type.split option.split)
qed (simp_all add: client_control_def ok)

lemma client_ok_tun:
  assumes ok: "client_ok cl"
  shows "client_ok (tun_outbound env now pkt cl)"
proof -
  have "client_ok (upd_act i (\<lambda>a. a\<lparr>ac_sess := snd (snd (Send tr now pkt (ac_sess (cl_acts cl ! i))))\<rparr>) cl)" for tr i
    by (rule client_ok_update [OF ok]) (simp add: act_ok_send)
  then show ?thesis
    using ok by (auto simp: tun_outbound_def Let_def split: option.split prod.split) (metis snd_conv)+
qed

lemma client_ok_direct_begin:
  assumes ok: "client_ok cl"
  shows "client_ok (client_direct_begin lib i cl)"
proof (cases "act_direct i cl = Some DirectNew")
  case True
  let ?a = "cl_acts cl ! i"
  from True have d: "ac_direct ?a = Some DirectNew" by (simp add: act_direct_Some)
  have none: "act_ok ?a \<Longrightarrow> act_ok (?a\<lparr>ac_direct := None\<rparr>)" using d by (simp add: act_ok_def)
  show ?thesis
  proof (cases "NewPionAgent lib (ac_ice ?a)")
    case (Inl err)
    with True none show ?thesis by (auto simp: client_direct_begin_def intro!: client_ok_update [OF ok])
  next
    case (Inr ag)
    with True show ?thesis
      by (auto simp: client_direct_begin_def intro!: client_ok_update [OF ok] dest!: act_ok_begin [OF _ d])
  qed
qed (simp add: client_direct_begin_def ok)

lemma client_ok_direct_result:
  assumes ok: "client_ok cl"
  shows "client_ok (client_direct_result env ag send sigs i cl)"
proof (cases "act_direct i cl = Some DirectChecking")
  case True
  let ?a = "cl_acts cl ! i"
  from True have d: "ac_direct ?a = Some DirectChecking" by (simp add: act_direct_Some)
  let ?w = "\<lambda>sent. fold (\<lambda>sig. c_effect (WroteControl (ac_conn ?a) (client_signal env (ac_sid ?a) sig))) sent cl"
  have "client_ok (upd_act i (\<lambda>a. a\<lparr>ac_sess := snd (ChecksFailed (ac_sess a)), ac_direct := None\<rparr>) (?w sent))" for sent
    using ok act_ok_failed [OF _ d] by (auto intro!: client_ok_update)
  moreover have "client_ok (upd_act i (\<lambda>a. case UpgradeDirect \<lparr>Sender = Some qc, Encode = Identity\<rparr> (ac_sess a) of
      (Some _, sess) \<Rightarrow> a\<lparr>ac_sess := sess, ac_direct := None\<rparr>
    | (None, sess) \<Rightarrow> a\<lparr>ac_sess := sess, ac_direct := Some (DirectServing qc)\<rparr>) (?w sent))" for sent qc
    using ok by (auto intro!: client_ok_update dest!: act_ok_upgrade [OF _ d, of qc])
  ultimately show ?thesis
    using True by (simp add: client_direct_result_def Let_def split: prod.split sum.split)
qed (simp add: client_direct_result_def ok)

lemma client_ok_direct_lost:
  assumes ok: "client_ok cl"
  shows "client_ok (client_direct_lost i cl)"
  unfolding client_direct_lost_def using ok
  by (auto simp: act_direct_Some intro!: client_ok_update dest: act_ok_lost split: option.split direct_pc.split)

lemma client_ok_report:
  assumes ok: "client_ok cl"
  shows "client_ok (client_report env now i cl)"
proof -
  have "client_ok (upd_act i (\<lambda>a. a\<lparr>ac_report := r\<rparr>) cl)" for r
    by (rule client_ok_update [OF ok]) (simp add: act_ok_def)
  then show ?thesis using ok by (simp add: client_report_def Let_def split: option.split prod.split)
qed

lemma client_ok_rest:
  assumes ok: "client_ok cl"
  shows "client_ok (relay_inbound i dg cl)" "client_ok (inbound_ends i cl)" "client_ok (watchdog now cl)"
    "client_ok (client_shutdown cl)" "client_ok (cl\<lparr>cl_pc := Stopped\<rparr>)" "client_ok (sleep_over cl)"
    "client_ok (upd_act i (\<lambda>a. a\<lparr>ac_incoming := tl (ac_incoming a)\<rparr>) cl)"
    "client_ok (client_direct_datagram i dg cl)" "client_ok (client_report_stop i cl)"
    "client_ok (tun_failed err cl)"
proof -
  show "client_ok (relay_inbound i dg cl)" using ok by (simp add: relay_inbound_def split: sum.split prod.split)
  show "client_ok (inbound_ends i cl)"
    unfolding inbound_ends_def by (rule client_ok_update [OF ok]) (simp add: act_ok_def)
  show "client_ok (watchdog now cl)" "client_ok (client_shutdown cl)"
    using ok by (auto simp: watchdog_def client_shutdown_def closeCode_def Let_def intro: client_ok_cong split: option.split)
  show "client_ok (cl\<lparr>cl_pc := Stopped\<rparr>)" "client_ok (tun_failed err cl)"
    using ok by (simp_all add: client_ok_def tun_failed_def c_effect_def)
  show "client_ok (sleep_over cl)"
    using ok by (auto simp: sleep_over_def client_ok_def client_backoff_def)
  show "client_ok (upd_act i (\<lambda>a. a\<lparr>ac_incoming := tl (ac_incoming a)\<rparr>) cl)"
    by (rule client_ok_update [OF ok]) (auto simp: act_ok_def)
  show "client_ok (client_direct_datagram i dg cl)"
    using ok by (simp add: client_direct_datagram_def split: option.split direct_pc.split)
  show "client_ok (client_report_stop i cl)"
    unfolding client_report_stop_def by (rule client_ok_update [OF ok]) (simp add: act_ok_def)
qed

lemma client_ok_handle: "client_ok cl \<Longrightarrow> client_ok (client_handle env ev cl)"
  by (cases ev) (simp_all add: client_handle_def client_ok_dial client_ok_reply client_ok_control client_ok_tun
      client_ok_direct_begin client_ok_direct_result client_ok_direct_lost client_ok_report client_ok_rest)

interpretation client_typed: inductive_invariant client_start "client_trans env" client_ok for env
  by unfold_locales (auto simp: client_start_def client_ok_init elim!: client_trans.cases intro: client_ok_handle)

section \<open>Properties\<close>

lemma client_run_events: "client_run env cl \<Longrightarrow> client_run env (fold (client_handle env) evs cl)"
  by (induction evs arbitrary: cl) (auto intro: reach_step client_trans.intros)

lemma client_run_init: "client_run env (client_init p now)"
  by (rule reach_start) (auto simp: client_start_def)

text \<open>
  An \<open>Error\<close> message on the first connection ends the process, however long the session has run: \<open>first\<close> is
  cleared only when \<open>runConnection\<close> has returned.
\<close>

lemma first_session_error_fatal:
  assumes "cl_pc cl = Connected i" "cl_first cl" "\<not> cl_shuttingDown cl" "c_Type m = MsgError"
  shows "cl_pc (client_control env now (Inr m) cl) = Stopped"
  using assms by (simp add: client_control_def connection_down_def Let_def)

lemma later_session_error_retries:
  assumes "cl_pc cl = Connected i" "\<not> cl_first cl" "\<not> cl_shuttingDown cl" "c_Type m = MsgError"
  shows "cl_pc (client_control env now (Inr m) cl) = Sleeping"
  using assms by (simp add: client_control_def connection_down_def Let_def)

lemma tun_outbound_out:
  "cl_cur cl = Some i \<Longrightarrow> i < length (cl_acts cl) \<Longrightarrow>
    cl_out (tun_outbound env now pkt cl) = cl_out cl @
      (case fst (snd (Send (ce_transport env) now pkt (ac_sess (cl_acts cl ! i)))) of
         None \<Rightarrow> [] | Some (c, d) \<Rightarrow> [SentPacket c d])"
  by (auto simp: tun_outbound_def Let_def split: prod.split option.split)

text \<open>What a session of a well-formed activation hands to the transport.\<close>

lemma act_ok_sends:
  assumes "act_ok a"
  shows "fst (snd (Send tr now pkt (ac_sess a))) = Some (c, d) \<longleftrightarrow>
    fst (Allow_opt now (int (length pkt)) (sp_limiter (ac_sess a))) \<and>
    (if IsDirect (ac_sess a) then ac_direct a = Some (DirectServing c) \<and> d = pkt
     else c = ac_conn a \<and> d = EncodeDatagram (ac_sid a) pkt)"
proof -
  have "fst (snd (Send tr now pkt s)) = Some (c, d) \<longleftrightarrow> Sender (sp_path s) = Some c \<and>
      fst (Allow_opt now (int (length pkt)) (sp_limiter s)) \<and> d = Encode (sp_path s) pkt" for s
    by (auto simp: Send_def Let_def split: option.split prod.split)
  moreover have "Sender (sp_path (ac_sess a)) = Some c \<and> d = Encode (sp_path (ac_sess a)) pkt \<longleftrightarrow>
    (if IsDirect (ac_sess a) then ac_direct a = Some (DirectServing c) \<and> d = pkt
     else c = ac_conn a \<and> d = EncodeDatagram (ac_sid a) pkt)"
  proof (cases "ac_direct a")
    case None
    with assms show ?thesis by (auto simp: act_ok_def path_inv_def IsDirect_def relay_path_def relayEncode_def)
  next
    case (Some pc)
    with assms show ?thesis
      by (cases pc) (auto simp: act_ok_def path_inv_def IsDirect_def relay_path_def relayEncode_def Identity_def)
  qed
  ultimately show ?thesis by blast
qed

text \<open>
  C12: In every run of the client, a packet read from the TUN device is handed to the transport if and only if
  the client is connected and the rate limit lets it through. It then goes out for the session of the
  current connection and of no other: tagged with the session's id on this connection while the session
  is on the relay, bare on the direct connection that the session's own goroutine serves while it is direct. The
  context of every earlier connection is cancelled.
\<close>

theorem client_pump_exact:
  assumes "client_run env cl" and "cl_pc cl \<noteq> Stopped"
  shows "cl_out (tun_outbound env now pkt cl) = cl_out cl @ [SentPacket c d] \<longleftrightarrow>
    (\<exists>i a. cl_pc cl = Connected i \<and> i < length (cl_acts cl) \<and> a = cl_acts cl ! i \<and>
      fst (Allow_opt now (int (length pkt)) (sp_limiter (ac_sess a))) \<and>
      (if IsDirect (ac_sess a) then ac_direct a = Some (DirectServing c) \<and> d = pkt
       else c = ac_conn a \<and> d = EncodeDatagram (ac_sid a) pkt) \<and>
      (\<forall>j < length (cl_acts cl). ac_live (cl_acts cl ! j) \<longleftrightarrow> j = i))"
proof -
  from client_typed.reach_holds [OF assms(1)] have ok: "client_ok cl" .
  show ?thesis
  proof (cases "cl_pc cl")
    case (Connected i)
    with ok have i: "cl_cur cl = Some i" "i < length (cl_acts cl)" "act_ok (cl_acts cl ! i)"
      "\<forall>j < length (cl_acts cl). ac_live (cl_acts cl ! j) \<longleftrightarrow> j = i"
      by (auto simp: client_ok_def list_all_length)
    have "cl_out (tun_outbound env now pkt cl) = cl_out cl @ [SentPacket c d] \<longleftrightarrow>
        fst (snd (Send (ce_transport env) now pkt (ac_sess (cl_acts cl ! i)))) = Some (c, d)"
      using i by (auto simp: tun_outbound_out split: option.split prod.split)
    with i Connected show ?thesis by (simp add: act_ok_sends)
  qed (use ok assms(2) in \<open>auto simp: client_ok_def tun_outbound_def\<close>)
qed

definition demo_cenv :: client_env where
  "demo_cenv = \<lparr>ce_transport = \<lambda>_ _. None, ce_unmarshal = \<lambda>_. None, ce_marshal = \<lambda>_. [], ce_host = ''h'',
     ce_tun = ''tun0'', ce_os = ''linux'', ce_hostStat = (0, 0, 0), ce_default_route = None\<rparr>"

definition demo_params :: run_params where
  "demo_params = \<lparr>rp_brokerAddr = ''b:4242'', rp_region = ''us'', rp_token = ''t'', rp_exitID = '''', rp_name = '''', rp_resumeKey = ''k'',
     rp_full = False, rp_brokerIP = '''', rp_gw = '''', rp_dev = '''', rp_logFile = '''', rp_logType = ''text'',
     rp_direct = False, rp_directMode = ''any'',
     rp_stun = '''', rp_turn = '''', rp_turnUser = '''', rp_turnPass = '''', rp_iceKeepalive = 0, rp_rateBytes = 0,
     rp_reportInterval = 0\<rparr>"

definition demo_ok :: control where
  "demo_ok = (control_of MsgConnectOK)\<lparr>c_SessionID := 7, c_ClientIP := ''10.99.0.2'', c_MTU := 1200\<rparr>"

definition demo_client :: client_st where
  "demo_client = fold (client_handle demo_cenv) [Dialled (Inr 3) None None, Answered_by 5 (Inr demo_ok)]
     (client_init demo_params 0)"

lemma demo_client_run: "client_run demo_cenv demo_client"
  unfolding demo_client_def by (rule client_run_events [OF client_run_init])

lemma demo_client_val:
  "cl_pc demo_client = Connected 0" "length (cl_acts demo_client) = 1"
  "ac_conn (cl_acts demo_client ! 0) = 3" "ac_sid (cl_acts demo_client ! 0) = 7"
  "ac_live (cl_acts demo_client ! 0)" "session_State (ac_sess (cl_acts demo_client ! 0)) = StateRelaying"
  "sp_limiter (ac_sess (cl_acts demo_client ! 0)) = None"
  by (simp_all add: demo_client_def client_handle_def client_init_def client_dial_def client_reply_def
      setup_routes_def demo_params_def demo_ok_def control_of_def StartRelay_New new_activation_def Let_def
      session_State_def) (simp add: session_New_def)

theorem client_pump_exact_witness:
  "cl_pc demo_client \<noteq> Stopped \<and>
   cl_out (tun_outbound demo_cenv 9 [1, 2] demo_client) =
     cl_out demo_client @ [SentPacket 3 (EncodeDatagram 7 [1, 2])]"
proof -
  have "cl_pc demo_client \<noteq> Stopped" by (simp add: demo_client_val)
  moreover note client_pump_exact [OF demo_client_run this, of 9 "[1, 2]" 3 "EncodeDatagram 7 [1, 2]"]
  ultimately show ?thesis
    using demo_client_val by (simp add: IsDirect_def Allow_opt_def)
qed

end
