(* ===== verification/Tunnel.thy ===== *)
theory Tunnel
  imports TunnelInv BrokerSeq ExitProps ClientRuns
begin

text \<open>
  Client, broker and exit together. A connection has one number at both of its ends. A packet is followed
  from one TUN device to the other through the operations of the three programs: what one hands to the transport
  on a connection is given to the program at the other end of that connection.
\<close>

section \<open>The composition\<close>

definition new_out :: "broker \<Rightarrow> broker \<Rightarrow> broker_effect list" where
  "new_out b b' = drop (length (b_out b)) (b_out b')"

definition to_broker :: "broker_env \<Rightarrow> client_effect list \<Rightarrow> broker \<Rightarrow> broker" where
  "to_broker env = fold (\<lambda>e. case e of SentPacket c d \<Rightarrow> relay_datagram env c d | _ \<Rightarrow> id)"

definition to_exit :: "exit_env \<Rightarrow> conn \<Rightarrow> broker_effect list \<Rightarrow> exit_st \<Rightarrow> exit_st" where
  "to_exit env ex = fold (\<lambda>e. case e of SentDatagram c d \<Rightarrow> if c = ex then datagramToTun env d else id | _ \<Rightarrow> id)"

definition from_exit :: "broker_env \<Rightarrow> conn \<Rightarrow> exit_effect list \<Rightarrow> broker \<Rightarrow> broker" where
  "from_exit env ex = fold (\<lambda>e. case e of DatagramSent c d \<Rightarrow> if c = ex then relay_datagram env c d else id | _ \<Rightarrow> id)"

definition to_client :: "conn \<Rightarrow> nat \<Rightarrow> broker_effect list \<Rightarrow> client_st \<Rightarrow> client_st" where
  "to_client c i = fold (\<lambda>e. case e of SentDatagram k d \<Rightarrow> if k = c then relay_inbound i d else id | _ \<Rightarrow> id)"

text \<open>What a packet read from one TUN device makes the program at the other end write to its own.\<close>

definition uplink ::
  "client_env \<Rightarrow> broker_env \<Rightarrow> exit_env \<Rightarrow> gotime \<Rightarrow> conn \<Rightarrow> bytes \<Rightarrow> client_st \<Rightarrow> broker \<Rightarrow> exit_st \<Rightarrow> exit_effect list" where
  "uplink cenv env xenv now ex pkt cl b x =
    (let sent = drop (length (cl_out cl)) (cl_out (tun_outbound cenv now pkt cl));
         b' = to_broker env sent b
     in drop (length (xn_out x)) (xn_out (to_exit xenv ex (new_out b b') x)))"

definition downlink ::
  "broker_env \<Rightarrow> exit_env \<Rightarrow> gotime \<Rightarrow> conn \<Rightarrow> conn \<Rightarrow> nat \<Rightarrow> bytes \<Rightarrow> client_st \<Rightarrow> broker \<Rightarrow> exit_st \<Rightarrow> client_effect list" where
  "downlink env xenv now ex c i pkt cl b x =
    (let sent = drop (length (xn_out x)) (xn_out (tunToDatagram xenv now pkt x));
         b' = from_exit env ex sent b
     in drop (length (cl_out cl)) (cl_out (to_client c i (new_out b b') cl)))"

section \<open>Opening a session\<close>

lemma session_msg_fields [simp]:
  "c_Type (session_msg env ty y b) = ty" "c_SessionID (session_msg env ty y b) = s_id y"
  "c_ClientIP (session_msg env ty y b) = s_clientIP y" "c_MTU (session_msg env ty y b) = int SafeTunnelMTU"
  by (simp_all add: session_msg_def turn_fields_def control_of_def split: prod.split)

lemma client_begin_out: "client_begin env c msg b = (Selected u ex, b') \<Longrightarrow> b_out b' = b_out b"
proof (erule client_begin_Selected)
  fix b1
  assume "client_auth env msg b = (Inr u, b1)" "select_exit env msg b1 = (Inr ex, b')"
  then show ?thesis
    by (auto simp: client_auth_def select_exit_def Let_def split: option.splits prod.splits sum.splits if_splits)
qed

lemma open_session_out: "open_session env c msg u ex b = (Some sid, b') \<Longrightarrow> b_out b' = b_out b"
  by (auto simp: open_session_def lease_def insert_session_def count_session_def active_add_def upd_exit_def
      track_def Let_def split: prod.splits sum.splits option.splits)

text \<open>The two messages of an opened session: first to the exit, then to the client.\<close>

lemma sy_open_messages:
  assumes "sy_open env c msg s = Some t" and "be_writable env c"
  obtains sid ex y b1 b2 where "mget (sy_clients t) c = Some (Serving sid ex)"
    "mget (b_sessions (sy_b t)) sid = Some y" "be_writable env ex"
    "new_out (sy_b s) (sy_b t) =
      [Wrote ex (session_msg env MsgSessionStart y b1), Wrote c (session_msg env MsgConnectOK y b2)]"
proof -
  from assms(1) obtain u ex b1 sid b4 b5 where
    sel: "client_begin env c msg (sy_b s) = (Selected u ex, b1)" and
    op: "open_session env c msg u ex b1 = (Some sid, b4)" and
    st: "run_start env c sid ex b4 = (True, b5)" and
    t: "t = s\<lparr>sy_b := b5, sy_clients := mput (sy_clients s) c (Serving sid ex), sy_seen := c # sy_seen s\<rparr>"
    by (auto simp: sy_open_def split: prod.splits begun.splits option.splits bool.splits)
  have out: "b_out b4 = b_out (sy_b s)" using client_begin_out [OF sel] open_session_out [OF op] by simp
  from st obtain y where y: "mget (b_sessions b4) sid = Some y" and w: "be_writable env ex"
    and b5: "b5 = (let b = cw_write env ex (session_msg env MsgSessionStart y b4) b4;
                      b = cw_write env c (session_msg env MsgConnectOK y b) b
                  in publish ((admin_ev EvSessionStarted (be_now env))\<lparr>e_Session := Some (sessionView env y b)\<rparr>) b)"
    by (auto simp: run_start_def Let_def split: option.splits if_splits)
  show thesis
  proof (rule that)
    show "mget (sy_clients t) c = Some (Serving sid ex)" by (simp add: t)
    show "mget (b_sessions (sy_b t)) sid = Some y" using y by (simp add: t b5 Let_def)
    show "new_out (sy_b s) (sy_b t) = [Wrote ex (session_msg env MsgSessionStart y b4),
        Wrote c (session_msg env MsgConnectOK y (cw_write env ex (session_msg env MsgSessionStart y b4) b4))]"
      using w assms(2) by (simp add: new_out_def t b5 Let_def cw_write_def publish_def out)
  qed (rule w)
qed

section \<open>An established tunnel\<close>

text \<open>The three ends agree on a session: its id, its address, its connections, all on the relay.\<close>

definition tunnel_up :: "client_st \<Rightarrow> nat \<Rightarrow> sys \<Rightarrow> exit_st \<Rightarrow> conn \<Rightarrow> conn \<Rightarrow> u64 \<Rightarrow> u32 \<Rightarrow> bool" where
  "tunnel_up cl i t x c ex sid w \<longleftrightarrow>
    cl_cur cl = Some i \<and> i < length (cl_acts cl) \<and> ac_inbound (cl_acts cl ! i) \<and>
    sp_path (ac_sess (cl_acts cl ! i)) = relay_path c sid \<and> sp_limiter (ac_sess (cl_acts cl ! i)) = None \<and>
    mget (sy_clients t) c = Some (Serving sid ex) \<and>
    (\<exists>es. session_of x sid = Some es \<and> es_clientIP es = string4 w \<and>
      sp_path (es_sess es) = relay_path ex sid \<and> sp_limiter (es_sess es) = None)"

lemma serving_session:
  assumes "run t" and "mget (sy_clients t) c = Some (Serving sid ex)"
  obtains y where "mget (b_sessions (sy_b t)) sid = Some y" "s_clientConn y = c" "s_exitConn y = ex" "c \<noteq> ex" "text_ok y"
proof -
  from broker_ends.reach_holds [OF assms(1)] have st: "struct_ok vpn_addrs t" and ends: "ends_ok t"
    by (simp_all add: sys_ok_def)
  from cli_sess [OF st assms(2)] obtain y where y: "mget (b_sessions (sy_b t)) sid = Some y" "s_clientConn y = c" "s_exitConn y = ex"
    by auto
  have "obj (sy_b t) ex \<noteq> None" by (rule sessD [OF st y(1)]) (simp add: y(3))
  moreover from ends_okD(1) [OF ends assms(2)] have "obj (sy_b t) c = None" .
  ultimately have "c \<noteq> ex" by auto
  with that y ends_okD(2) [OF ends y(1)] show thesis by blast
qed

text \<open>The relay sends to a client only what is tagged with its own session.\<close>

lemma route_to_client:
  assumes "run t" and "mget (sy_clients t) c = Some (Serving sid ex)"
  shows "SentDatagram c d \<in> set (route (b_sessions (sy_b t)) k dg) \<longleftrightarrow>
    k = ex \<and> d = dg \<and> (\<exists>pkt. dg = EncodeDatagram sid pkt)"
proof -
  from broker_ends.reach_holds [OF assms(1)] have st: "struct_ok vpn_addrs t" and ends: "ends_ok t"
    by (simp_all add: sys_ok_def)
  from serving_session [OF assms] obtain y where
    y: "mget (b_sessions (sy_b t)) sid = Some y" "s_clientConn y = c" "s_exitConn y = ex" "c \<noteq> ex" by metis
  have one: "sid' = sid" if "mget (b_sessions (sy_b t)) sid' = Some y'" "s_clientConn y' = c" for sid' y'
    by (rule sessD [OF st that(1)]) (use that(2) assms(2) in auto)
  have not_exit: "s_exitConn y' \<noteq> c" if "mget (b_sessions (sy_b t)) sid' = Some y'" for sid' y'
    by (rule sessD [OF st that]) (use ends_okD(1) [OF ends assms(2)] in auto)
  show ?thesis
  proof (cases "DecodeDatagram dg")
    case (Inl e)
    then have "dg \<noteq> EncodeDatagram sid pkt" for pkt by (metis Decode_Encode Inl_Inr_False)
    with Inl show ?thesis by (simp add: route_def)
  next
    case (Inr sp)
    obtain sid' p where "sp = (sid', p)" by (cases sp)
    with Inr have dg: "dg = EncodeDatagram sid' p" "DecodeDatagram dg = Inr (sid', p)" by (simp_all add: dgram.dec_iff)
    show ?thesis
    proof (cases "mget (b_sessions (sy_b t)) sid'")
      case None
      with y(1) dg show ?thesis by (auto simp: route_def dgram.enc_inject)
    next
      case (Some y')
      show ?thesis
      proof (cases "sid' = sid")
        case True
        with Some y have "y' = y" by simp
        with True Some y dg show ?thesis by (auto simp: route_def dgram.enc_inject)
      next
        case False
        with one [OF Some] not_exit [OF Some] Some dg show ?thesis by (auto simp: route_def dgram.enc_inject)
      qed
    qed
  qed
qed


lemma new_out_relay: "new_out b (relay_datagram env k dg b) = route (b_sessions b) k dg"
  by (simp add: new_out_def relay_datagram_route)

lemma uplink_exact:
  assumes t: "run t" and up: "tunnel_up cl i t x c ex sid w"
  shows "uplink cenv env xenv now ex pkt cl (sy_b t) x = (if ipv4Src pkt = Some (Addr4 w) then [TunWrote pkt] else [])"
proof -
  from up have cl: "cl_cur cl = Some i" "i < length (cl_acts cl)" "sp_path (ac_sess (cl_acts cl ! i)) = relay_path c sid"
    "sp_limiter (ac_sess (cl_acts cl ! i)) = None" and srv: "mget (sy_clients t) c = Some (Serving sid ex)"
    by (simp_all add: tunnel_up_def)
  from up obtain es where es: "session_of x sid = Some es" "es_clientIP es = string4 w" by (auto simp: tunnel_up_def)
  have "fst (snd (Send tr now pkt (ac_sess (cl_acts cl ! i)))) = Some (c, EncodeDatagram sid pkt)" for tr
    using cl by (simp add: Send_hands relay_path_def relayEncode_def Allow_opt_def)
  with cl have sent: "drop (length (cl_out cl)) (cl_out (tun_outbound cenv now pkt cl)) = [SentPacket c (EncodeDatagram sid pkt)]"
    by (simp add: tun_outbound_out)
  from serving_session [OF t srv] obtain y where y: "mget (b_sessions (sy_b t)) sid = Some y" "s_exitConn y = ex" "c \<noteq> ex"
    by metis
  then have route: "new_out (sy_b t) (relay_datagram env c (EncodeDatagram sid pkt) (sy_b t)) = [SentDatagram ex (EncodeDatagram sid pkt)]"
    by (simp add: new_out_relay route_def Decode_Encode)
  have "xn_out (datagramToTun xenv (EncodeDatagram sid pkt) x) = xn_out x @ (if ipv4Src pkt = Some (Addr4 w) then [TunWrote pkt] else [])"
  proof -
    from es obtain r where "mget (xn_sessions x) sid = Some r" "mget (xn_objs x) r = Some es"
      by (auto simp: session_of_def bind_eq_Some_conv)
    with es(2) show ?thesis
      using ipv4_addr4(1) [of pkt]
      by (cases "ipv4Src pkt") (auto simp: datagramToTun_def Decode_Encode writeInbound_out)
  qed
  then show ?thesis by (simp add: uplink_def sent to_broker_def route to_exit_def)
qed

text \<open>A direct path runs over another connection than the one to the broker.\<close>

definition direct_elsewhere :: "conn \<Rightarrow> exit_st \<Rightarrow> bool" where
  "direct_elsewhere ex x =
    (\<forall>sid es. session_of x sid = Some es \<and> IsDirect (es_sess es) \<longrightarrow> Sender (sp_path (es_sess es)) \<noteq> Some ex)"

text \<open>What the exit hands to its broker connection for a packet from its TUN device.\<close>

lemma exit_hands:
  assumes "exit_ok x" "tables_ok x" "tunToDatagram xenv now pkt x = x'"
    and other: "direct_elsewhere ex x"
    and e: "DatagramSent ex d \<in> set (drop (length (xn_out x)) (xn_out x'))"
  obtains sid' es' w' where "ipv4Dst pkt = Some (Addr4 w')" "session_of x sid' = Some es'" "es_clientIP es' = string4 w'"
    "d = EncodeDatagram sid' pkt"
proof -
  let ?owner = "Option.bind (ipv4Dst pkt) (\<lambda>a. Option.bind (mget (xn_byIP x) a) (session_of x))"
  from assms(3) e obtain es' where es': "?owner = Some es'"
    and s: "fst (snd (Send (xe_transport xenv) now pkt (es_sess es'))) = Some (ex, d)"
    by (cases ?owner) (auto simp: tunToDatagram_out split: option.splits prod.splits)
  from es' obtain a sid' where a: "ipv4Dst pkt = Some a" "mget (xn_byIP x) a = Some sid'" "session_of x sid' = Some es'"
    by (auto simp: bind_eq_Some_conv)
  from a(3) obtain r where r: "mget (xn_sessions x) sid' = Some r" "mget (xn_objs x) r = Some es'"
    by (auto simp: session_of_def bind_eq_Some_conv)
  from assms(2) a(2) obtain r' w' where "mget (xn_sessions x) sid' = Some r'" "ip_of x r' = Some (string4 w')" "a = Addr4 w'"
    unfolding tables_ok_def by blast
  with r have w': "es_clientIP es' = string4 w'" "a = Addr4 w'" by (simp_all add: ip_of_def)
  from assms(1) r(1) have "has_obj x r (\<lambda>es. sp_ID (es_sess es) = sid')" unfolding exit_ok_def by blast
  with r(2) have "sp_ID (es_sess es') = sid'" by (simp add: has_obj_def)
  moreover from s other a(3) have "\<not> IsDirect (es_sess es')" by (auto simp: Send_hands direct_elsewhere_def)
  ultimately have "Encode (sp_path (es_sess es')) = relayEncode sid'"
    using exit_ok_obj [OF assms(1) r(2)] by (auto simp: es_ok_def path_inv_def IsDirect_def)
  with s have "d = EncodeDatagram sid' pkt" by (simp add: Send_hands relayEncode_def)
  with that a w' show thesis by blast
qed

lemma exit_sends_one:
  "drop (length (xn_out x)) (xn_out (tunToDatagram xenv now pkt x)) = [] \<or>
   (\<exists>k d. drop (length (xn_out x)) (xn_out (tunToDatagram xenv now pkt x)) = [DatagramSent k d])"
  by (auto simp: tunToDatagram_out split: option.split prod.split)

lemma to_client_none: "(\<And>d. SentDatagram c d \<notin> set es) \<Longrightarrow> to_client c i es cl = cl"
proof (induction es arbitrary: cl)
  case (Cons e es)
  then have "to_client c i es cl = cl" for cl by simp
  moreover have "e \<noteq> SentDatagram c d" for d using Cons.prems [of d] by auto
  ultimately show ?case by (cases e) (auto simp: to_client_def)
qed (simp add: to_client_def)

lemma downlink_exact:
  assumes t: "run t" and up: "tunnel_up cl i t x c ex sid w" and ok: "exit_ok x" "tables_ok x"
    and other: "direct_elsewhere ex x"
  shows "downlink env xenv now ex c i pkt cl (sy_b t) x = (if ipv4Dst pkt = Some (Addr4 w) then [WroteTun pkt] else [])"
proof -
  let ?sent = "drop (length (xn_out x)) (xn_out (tunToDatagram xenv now pkt x))"
  from up have cl: "i < length (cl_acts cl)" "ac_inbound (cl_acts cl ! i)" and srv: "mget (sy_clients t) c = Some (Serving sid ex)"
    by (simp_all add: tunnel_up_def)
  from up obtain es where es: "session_of x sid = Some es" "es_clientIP es = string4 w"
    "sp_path (es_sess es) = relay_path ex sid" "sp_limiter (es_sess es) = None" by (auto simp: tunnel_up_def)
  show ?thesis
  proof (cases "ipv4Dst pkt = Some (Addr4 w)")
    case True
    from es(1) obtain r where r: "mget (xn_sessions x) sid = Some r" "mget (xn_objs x) r = Some es"
      by (auto simp: session_of_def bind_eq_Some_conv)
    with es(2) have "ip_of x r = Some (string4 w)" by (simp add: ip_of_def)
    with ok(2) r(1) have "mget (xn_byIP x) (Addr4 w) = Some sid" unfolding tables_ok_def by blast
    moreover have "fst (snd (Send tr now pkt (es_sess es))) = Some (ex, EncodeDatagram sid pkt)" for tr
      using es by (simp add: Send_hands relay_path_def relayEncode_def Allow_opt_def)
    ultimately have sent: "?sent = [DatagramSent ex (EncodeDatagram sid pkt)]"
      using True es(1) by (simp add: tunToDatagram_out)
    from serving_session [OF t srv] obtain y where y: "mget (b_sessions (sy_b t)) sid = Some y" "s_clientConn y = c" "s_exitConn y = ex"
      by metis
    then have "new_out (sy_b t) (relay_datagram env ex (EncodeDatagram sid pkt) (sy_b t)) = [SentDatagram c (EncodeDatagram sid pkt)]"
      by (simp add: new_out_relay route_def Decode_Encode)
    with True cl show ?thesis
      by (simp add: downlink_def sent from_exit_def to_client_def relay_inbound_def Decode_Encode)
  next
    case False
    have "to_client c i (new_out (sy_b t) (from_exit env ex ?sent (sy_b t))) cl = cl"
    proof (cases "?sent = []")
      case True
      then show ?thesis by (simp add: from_exit_def new_out_def to_client_def)
    next
      case False
      with exit_sends_one obtain k d where s: "?sent = [DatagramSent k d]" by blast
      show ?thesis
      proof (cases "k = ex")
        case True
        with s have "DatagramSent ex d \<in> set ?sent" by simp
        then obtain sid' es' w' where o: "ipv4Dst pkt = Some (Addr4 w')" "session_of x sid' = Some es'"
          "es_clientIP es' = string4 w'" "d = EncodeDatagram sid' pkt"
          by (rule exit_hands [OF ok refl other])
        with \<open>ipv4Dst pkt \<noteq> Some (Addr4 w)\<close> es(1,2) have "sid' \<noteq> sid" by auto
        with o(4) have "SentDatagram c e \<notin> set (route (b_sessions (sy_b t)) ex d)" for e
          by (simp add: route_to_client [OF t srv] dgram.enc_inject)
        then show ?thesis using s True by (simp add: from_exit_def new_out_relay to_client_none)
      qed (use s in \<open>simp add: from_exit_def new_out_def to_client_def\<close>)
    qed
    with False show ?thesis by (simp add: downlink_def Let_def)
  qed
qed

section \<open>From connect to tunnel\<close>

lemma session_addr:
  assumes "run t" and y: "mget (b_sessions (sy_b t)) sid = Some y"
  obtains w where "s_clientAddr y = Addr4 w" "s_clientIP y = string4 w"
proof -
  from broker_ends.reach_holds [OF assms(1)] have st: "struct_ok vpn_addrs t" and ends: "ends_ok t"
    and ok: "lease_ok vpn_addrs (lease_abs t)"
    by (simp_all add: sys_ok_def)
  from y have "y \<in># mvals (b_sessions (sy_b t))" using in_mvals [OF struct_okD(1) [OF st]] by blast
  then have "sess_lease y \<in># held t" by (simp add: held_def)
  with ok have "s_clientAddr y \<in> vpn_addrs" by (force simp: lease_ok_def lease_abs_def sess_lease_def)
  then obtain w where "s_clientAddr y = Addr4 w" by (auto simp: vpn_addrs_range a4_def)
  with ends_okD(2) [OF ends y] that show thesis by (simp add: text_ok_def)
qed

lemma exit_starts:
  assumes "mget (xn_sessions x) (c_SessionID m) = None" "c_Type m = MsgSessionStart" "c_ClientIP m = string4 w"
    and "xn_rateBytes x = 0" "xn_conn x = Some ex"
  shows "\<exists>es. session_of (controlMessage env now m x) (c_SessionID m) = Some es \<and> es_clientIP es = string4 w \<and>
    sp_path (es_sess es) = relay_path ex (c_SessionID m) \<and> sp_limiter (es_sess es) = None"
  using assms by (simp add: controlMessage_def addSession_cases with_session_def session_of_def new_es_def
      relay_path_def new_sess_unlimited)

lemma client_connects:
  assumes "cl_pc cl = Awaiting c" "c_Type m = MsgConnectOK" "rp_rateBytes (cl_params cl) = 0" "ce_default_route env = None"
  shows "\<exists>i. cl_pc (client_reply env now (Inr m) cl) = Connected i \<and> cl_cur (client_reply env now (Inr m) cl) = Some i \<and>
    i < length (cl_acts (client_reply env now (Inr m) cl)) \<and>
    (let a = cl_acts (client_reply env now (Inr m) cl) ! i in
      ac_inbound a \<and> sp_path (ac_sess a) = relay_path c (c_SessionID m) \<and> sp_limiter (ac_sess a) = None) \<and>
    AddrUp (ce_tun env) (c_ClientIP m @ ''/24'') (tunnel_mtu m) \<in> set (cl_out (client_reply env now (Inr m) cl))"
proof -
  let ?up = "c_effect (AddrUp (ce_tun env) (c_ClientIP m @ ''/24'') (tunnel_mtu m)) cl"
  have "\<exists>cl1. setup_routes env ?up = (True, cl1) \<and> AddrUp (ce_tun env) (c_ClientIP m @ ''/24'') (tunnel_mtu m) \<in> set (cl_out cl1)"
    using assms(4) by (simp add: setup_routes_def Let_def)
  then obtain cl1 where r: "setup_routes env ?up = (True, cl1)"
    and out: "AddrUp (ce_tun env) (c_ClientIP m @ ''/24'') (tunnel_mtu m) \<in> set (cl_out cl1)" by blast
  from setup_routes_keeps [OF r] assms(3) have p: "rp_rateBytes (cl_params cl1) = 0" by simp
  have "sp_limiter (session_New sid) = None" for sid by (simp add: session_New_def)
  with assms(1,2) r out p show ?thesis
    by (simp add: client_reply_def StartRelay_New new_activation_def Let_def)
qed

text \<open>
  C1: A client that connects gets a working tunnel that is its own. Take any run of the broker and any state of
  a client that has dialled it; let the broker serve the client's connect message with a new session, and
  let its two messages reach the exit (for which the session and its address are new) and the client. Then
  the client is connected under a VPN address. A packet from the client's TUN device reaches the exit's TUN
  device, unchanged and once, if and only if its source is this address; a packet from the exit's TUN device
  reaches the client's, unchanged and once, if and only if its destination is this address. (No rate limits, every
  datagram delivered.)
\<close>

theorem tunnel_established:
  assumes broker: "reach sys_init sys_step s" "c \<notin> set (sy_seen s)" "b_nextSession (sy_b s) + 1 \<noteq> 0"
      "sy_open env c (connect_msg (cl_params cl)) s = Some t" "be_writable env c"
    and msgs: "new_out (sy_b s) (sy_b t) = [Wrote ex start, Wrote c ok]"
    and client: "cl_pc cl = Awaiting c" "rp_rateBytes (cl_params cl) = 0" "ce_default_route cenv = None"
    and exit: "exit_run xenv (broker_promise xenv) x" "xn_conn x = Some ex" "xn_rateBytes x = 0"
      "mget (xn_sessions x) (c_SessionID start) = None" "broker_promise xenv (FromBroker now start) x"
      "direct_elsewhere ex (exit_handle xenv (FromBroker now start) x)"
    and cl': "cl' = client_handle cenv (Answered_by now (Inr ok)) cl"
    and x': "x' = exit_handle xenv (FromBroker now start) x"
  shows "\<exists>i w. cl_pc cl' = Connected i \<and> AddrUp (ce_tun cenv) (string4 w @ ''/24'') 1200 \<in> set (cl_out cl') \<and>
    (\<forall>pkt now. uplink cenv env xenv now ex pkt cl' (sy_b t) x' =
       (if ipv4Src pkt = Some (Addr4 w) then [TunWrote pkt] else [])) \<and>
    (\<forall>pkt now. downlink env xenv now ex c i pkt cl' (sy_b t) x' =
       (if ipv4Dst pkt = Some (Addr4 w) then [WroteTun pkt] else []))"
proof -
  from broker(1) sy_open_steps [OF broker(4,2,3)] have t: "run t" by (rule run_steps)
  from sy_open_messages [OF broker(4,5)] obtain sid ex' y b1 b2 where srv: "mget (sy_clients t) c = Some (Serving sid ex')"
    and y: "mget (b_sessions (sy_b t)) sid = Some y" and m: "new_out (sy_b s) (sy_b t) =
      [Wrote ex' (session_msg env MsgSessionStart y b1), Wrote c (session_msg env MsgConnectOK y b2)]" by metis
  from m msgs have ex: "ex' = ex" and start: "start = session_msg env MsgSessionStart y b1" and ok: "ok = session_msg env MsgConnectOK y b2"
    by simp_all
  from session_addr [OF t y] obtain w where w: "s_clientIP y = string4 w" by metis
  have id: "s_id y = sid"
    using broker_ends.reach_holds [OF t] by (auto simp: sys_ok_def elim: sessD [OF _ y])
  from exit(4) obtain es where "session_of x' sid = Some es" "es_clientIP es = string4 w"
      "sp_path (es_sess es) = relay_path ex sid" "sp_limiter (es_sess es) = None"
    using exit_starts [of x start w ex xenv now] exit(2,3) w by (auto simp: start id x')
  moreover from client_connects [OF client(1) _ client(2,3), of ok now] client(1) obtain i where
    i: "cl_pc cl' = Connected i" "AddrUp (ce_tun cenv) (string4 w @ ''/24'') 1200 \<in> set (cl_out cl')" and
    "cl_cur cl' = Some i" "i < length (cl_acts cl')" "ac_inbound (cl_acts cl' ! i)"
    "sp_path (ac_sess (cl_acts cl' ! i)) = relay_path c sid" "sp_limiter (ac_sess (cl_acts cl' ! i)) = None"
    by (auto simp: ok id w cl' client_handle_def tunnel_mtu_def SafeTunnelMTU_def Let_def)
  ultimately have up: "tunnel_up cl' i t x' c ex sid w" using srv ex by (auto simp: tunnel_up_def)
  have "exit_run xenv (broker_promise xenv) x'" unfolding x' by (rule exit_run_step [OF exit(1,5)])
  then have "exit_ok x'" "tables_ok x'" by (rule exit_typed.reach_holds, rule exit_tables.reach_holds)
  with uplink_exact [OF t up] downlink_exact [OF t up] exit(6) i show ?thesis by (auto simp: x')
qed

definition tun_client :: client_st where
  "tun_client = client_handle demo_cenv (Dialled (Inr 2) None None)
     (client_init (demo_params\<lparr>rp_region := ''eu'', rp_token := ''tok''\<rparr>) 0)"

definition tun_exit :: exit_st where
  "tun_exit = exit_handle demo_xenv (Served 1) (exit_init 0 demo_xflags)"

lemma tun_client_val:
  "cl_pc tun_client = Awaiting 2" "rp_rateBytes (cl_params tun_client) = 0" "connect_msg (cl_params tun_client) = demo_connect"
  by (simp_all add: tun_client_def client_handle_def client_init_def client_dial_def demo_params_def
      connect_msg_def demo_connect_def control_of_def)

lemma tun_exit_val:
  "xn_conn tun_exit = Some 1" "xn_rateBytes tun_exit = 0" "xn_sessions tun_exit = []" "xn_byIP tun_exit = []"
  by (simp_all add: tun_exit_def serve_begin_def exit_init_def demo_xflags_def)

lemma tun_exit_run: "exit_run demo_xenv (broker_promise demo_xenv) tun_exit"
  unfolding tun_exit_def by (rule exit_run_step [OF exit_run_init]) simp

lemma tun_exit_elsewhere:
  assumes "c_Type m = MsgSessionStart" "c_ClientIP m = string4 w"
  shows "direct_elsewhere 1 (exit_handle demo_xenv (FromBroker now m) tun_exit)"
  using assms by (auto simp: direct_elsewhere_def controlMessage_def addSession_cases with_session_def tun_exit_val
      session_of_def new_es_def IsDirect_def bind_eq_Some_conv split: if_splits)

theorem tunnel_established_witness:
  "\<exists>s t start ok w. demo_exit = Some s \<and> demo_open = Some t \<and> new_out (sy_b s) (sy_b t) = [Wrote 1 start, Wrote 2 ok] \<and>
    uplink demo_cenv demo_env demo_xenv 9 1 (ip_packet w 8 []) (client_handle demo_cenv (Answered_by 5 (Inr ok)) tun_client)
      (sy_b t) (exit_handle demo_xenv (FromBroker 5 start) tun_exit) = [TunWrote (ip_packet w 8 [])]"
proof -
  obtain s where s: "demo_exit = Some s" "run s" "set (sy_seen s) = {1}" "b_nextSession (sy_b s) = 0"
    using demo_exit_run by blast
  obtain t where t: "demo_open = Some t" "run t" "map snd (sy_clients t) = [Serving 1 1]" using demo_open_run by metis
  have op: "sy_open demo_env 2 (connect_msg (cl_params tun_client)) s = Some t"
    using t(1) unfolding demo_open_def s(1) tun_client_val by simp
  have wr: "be_writable demo_env 2" by (simp add: demo_env_def)
  from sy_open_messages [OF op wr] obtain sid ex y b1 b2 where srv: "mget (sy_clients t) 2 = Some (Serving sid ex)"
    and y: "mget (b_sessions (sy_b t)) sid = Some y" and m: "new_out (sy_b s) (sy_b t) =
      [Wrote ex (session_msg demo_env MsgSessionStart y b1), Wrote 2 (session_msg demo_env MsgConnectOK y b2)]" by metis
  let ?start = "session_msg demo_env MsgSessionStart y b1"
  have "Serving sid ex \<in> set (map snd (sy_clients t))" using mget_Some_in [OF srv] by force
  with t(3) have ex: "ex = 1" by simp
  from session_addr [OF t(2) y] obtain w where w: "s_clientIP y = string4 w" by metis
  have "broker_promise demo_xenv (FromBroker 5 ?start) tun_exit" by (simp add: w tun_exit_val)
  note est = tunnel_established [OF s(2) _ _ op wr m [unfolded ex] tun_client_val(1,2) _ tun_exit_run tun_exit_val(1,2) _ this
      tun_exit_elsewhere refl refl, of demo_cenv w]
  have "ce_default_route demo_cenv = None" by (simp add: demo_cenv_def)
  with est s(3,4) w obtain v where "uplink demo_cenv demo_env demo_xenv 9 1 (ip_packet v 8 [])
      (client_handle demo_cenv (Answered_by 5 (Inr (session_msg demo_env MsgConnectOK y b2))) tun_client)
      (sy_b t) (exit_handle demo_xenv (FromBroker 5 ?start) tun_exit) = [TunWrote (ip_packet v 8 [])]"
    by (auto simp: tun_exit_val)
  with s(1) t(1) m ex show ?thesis by blast
qed

end
