(* ===== verification/PwHash.thy ===== *)
theory PwHash
  imports Base64 GoStrings
begin

text \<open>
  \<^verbatim>\<open>internal/pwhash/pwhash.go\<close>: password hashes. The keyed hash of the standard library is an argument,
  \<open>prf password message\<close>, of which the code uses that its results have 32 bytes. The random salt of
  \<open>Hash\<close> is an argument too, and \<open>Hash\<close> fails when none can be read.
\<close>

definition algo :: string where
  "algo = ''pbkdf2_sha256''"

definition iterations :: nat where
  "iterations = 210000"

definition saltLen :: nat where
  "saltLen = 16"

definition keyLen :: nat where
  "keyLen = 32"

definition hashLen :: nat where
  "hashLen = 32"

text \<open>The inner loop of \<open>pbkdf2\<close> on \<open>u\<close> and \<open>t\<close>, for the given number of rounds.\<close>

fun pbkdf2_rounds :: "(bytes \<Rightarrow> bytes) \<Rightarrow> nat \<Rightarrow> bytes \<Rightarrow> bytes \<Rightarrow> bytes" where
  "pbkdf2_rounds prf 0 u t = t"
| "pbkdf2_rounds prf (Suc n) u t = pbkdf2_rounds prf n (prf u) (map2 (XOR) t (prf u))"

definition pbkdf2_block :: "(bytes \<Rightarrow> bytes) \<Rightarrow> bytes \<Rightarrow> nat \<Rightarrow> nat \<Rightarrow> bytes" where
  "pbkdf2_block prf salt iter block =
    (let u = prf (salt @ be_put 4 (of_nat block :: u32)) in pbkdf2_rounds prf (iter - 1) u u)"

definition pbkdf2 :: "(string \<Rightarrow> bytes \<Rightarrow> bytes) \<Rightarrow> string \<Rightarrow> bytes \<Rightarrow> nat \<Rightarrow> nat \<Rightarrow> bytes" where
  "pbkdf2 prf password salt iter len =
    (let numBlocks = (len + hashLen - 1) div hashLen
     in take len (concat (map (pbkdf2_block (prf password) salt iter) [1..<Suc numBlocks])))"

definition pw_Hash :: "(string \<Rightarrow> bytes \<Rightarrow> bytes) \<Rightarrow> bytes option \<Rightarrow> string \<Rightarrow> string option" where
  "pw_Hash prf rand password =
    (case rand of
       None \<Rightarrow> None
     | Some salt \<Rightarrow> Some
         (algo @ ''$'' @ show_nat iterations @ ''$'' @ raw_encode std_alphabet salt @ ''$'' @
          raw_encode std_alphabet (pbkdf2 prf password salt iterations keyLen)))"

definition pw_Verify :: "(string \<Rightarrow> bytes \<Rightarrow> bytes) \<Rightarrow> string \<Rightarrow> string \<Rightarrow> bool" where
  "pw_Verify prf password encoded =
    (case split_at_char (CHR ''$'') encoded of
       [alg, its, salt, key] \<Rightarrow>
         if alg \<noteq> algo then False
         else (case Atoi its of
                 None \<Rightarrow> False
               | Some iter \<Rightarrow>
                   if iter \<le> 0 then False
                   else (case (raw_std_decode salt, raw_std_decode key) of
                           (Some salt, Some want) \<Rightarrow>
                             pbkdf2 prf password salt (nat iter) (length want) = want
                         | _ \<Rightarrow> False))
     | _ \<Rightarrow> False)"

section \<open>The key derivation is the standard's\<close>

text \<open>
  RFC 8018: block \<open>i\<close> is the exclusive or of \<open>U\<^sub>1\<close> to \<open>U\<^sub>c\<close>, where \<open>U\<^sub>1\<close> is the keyed hash of the salt and
  the block number and each further one the keyed hash of the one before.
\<close>

definition rfc_U :: "(bytes \<Rightarrow> bytes) \<Rightarrow> bytes \<Rightarrow> nat \<Rightarrow> nat \<Rightarrow> bytes" where
  "rfc_U prf salt i j = (prf ^^ j) (prf (salt @ be_put 4 (of_nat i :: u32)))"

definition rfc_F :: "(bytes \<Rightarrow> bytes) \<Rightarrow> bytes \<Rightarrow> nat \<Rightarrow> nat \<Rightarrow> bytes" where
  "rfc_F prf salt c i =
    fold (\<lambda>j t. map2 (XOR) t (rfc_U prf salt i j)) [1..<c] (rfc_U prf salt i 0)"

lemma rounds_fold:
  "pbkdf2_rounds prf n ((prf ^^ k) u) t =
    fold (\<lambda>j t. map2 (XOR) t ((prf ^^ j) u)) [Suc k..<Suc k + n] t"
proof (induction n arbitrary: k t)
  case (Suc n)
  have "[Suc k..<Suc k + Suc n] = Suc k # [Suc (Suc k)..<Suc (Suc k) + n]"
    by (simp add: upt_rec)
  with Suc [of "Suc k"] show ?case by simp
qed simp

lemma pbkdf2_block_rfc: "0 < iter \<Longrightarrow> pbkdf2_block prf salt iter i = rfc_F prf salt iter i"
  using rounds_fold [where n = "iter - 1" and k = 0]
  by (simp add: pbkdf2_block_def rfc_F_def rfc_U_def Let_def)

lemma length_rounds:
  "(\<And>m. length (prf m) = hashLen) \<Longrightarrow> length t = hashLen \<Longrightarrow> length (pbkdf2_rounds prf n u t) = hashLen"
  by (induction n arbitrary: u t) simp_all

lemma length_block: "(\<And>m. length (prf m) = hashLen) \<Longrightarrow> length (pbkdf2_block prf salt iter i) = hashLen"
  by (simp add: pbkdf2_block_def Let_def length_rounds)

lemma length_pbkdf2:
  assumes "\<And>m. length (prf password m) = hashLen"
  shows "length (pbkdf2 prf password salt iter len) = len"
proof -
  have "length (concat (map (pbkdf2_block (prf password) salt iter) xs)) = length xs * hashLen" for xs
    by (induction xs) (simp_all add: length_block assms)
  then have "length (concat (map (pbkdf2_block (prf password) salt iter) [1..<Suc ((len + hashLen - 1) div hashLen)]))
      = (len + hashLen - 1) div hashLen * hashLen" by simp
  also have "\<dots> \<ge> len" by (simp add: hashLen_def)
  finally show ?thesis by (simp add: pbkdf2_def Let_def)
qed

section \<open>Verifying what was hashed\<close>

lemma std_no_dollar: "CHR ''$'' \<notin> set (raw_encode std_alphabet bs)"
proof -
  have "CHR ''$'' \<notin> set std_alphabet" by code_simp
  then show ?thesis using std64.encode_chars by blast
qed

text \<open>A password verifies against a hash exactly when it derives the same key.\<close>

lemma Verify_Hash:
  assumes "\<And>p m. length (prf p m) = hashLen" and "pw_Hash prf (Some salt) p = Some h"
  shows "pw_Verify prf q h \<longleftrightarrow> pbkdf2 prf q salt iterations keyLen = pbkdf2 prf p salt iterations keyLen"
proof -
  have h: "h = algo @ CHR ''$'' # show_nat iterations @ CHR ''$'' # raw_encode std_alphabet salt @ CHR ''$'' #
      raw_encode std_alphabet (pbkdf2 prf p salt iterations keyLen)"
    using assms(2) by (simp add: pw_Hash_def)
  have plain: "CHR ''$'' \<notin> set algo" by (simp add: algo_def)
  have "split_at_char (CHR ''$'') h = [algo, show_nat iterations, raw_encode std_alphabet salt,
      raw_encode std_alphabet (pbkdf2 prf p salt iterations keyLen)]"
    unfolding h by (simp add: split_append split_plain std_no_dollar show_nat_plain plain)
  then show ?thesis
    by (simp add: pw_Verify_def Atoi_show_nat raw_std_decode_encode length_pbkdf2 assms(1) iterations_def)
qed

text \<open>A stored hash with an empty key accepts every password.\<close>

lemma Verify_empty_key: "pw_Verify prf q (algo @ ''$1$$'')"
proof -
  have "split_at_char (CHR ''$'') (algo @ ''$1$$'') = [algo, ''1'', [], []]" by code_simp
  moreover have "Atoi ''1'' = Some 1" "raw_std_decode [] = Some []" by code_simp+
  ultimately show ?thesis by (simp add: pw_Verify_def pbkdf2_def)
qed

end
