(* ===== verification/AdminStore.thy ===== *)
theory AdminStore
  imports PwHash
begin

text \<open>
  \<^verbatim>\<open>internal/adminstore/adminstore.go\<close> and \<^verbatim>\<open>sqlite.go\<close>: administrator accounts, in a table with an
  optional file and in SQL. The file is its decoded accounts, and \<open>io_ok\<close> and \<open>db_ok\<close> say whether the
  file system and the database carry an operation out. The random salt of a new hash is an argument.
\<close>

definition RoleAdmin :: string where "RoleAdmin = ''admin''"
definition RoleReadOnly :: string where "RoleReadOnly = ''readonly''"

datatype admin_error = AdminConflict | BadCreds | AdminIo

record admin_acc =
  ad_Username :: string
  ad_Role :: string
  ad_PassHash :: string
  ad_CreatedAt :: gotime

record public_admin =
  pa_Username :: string
  pa_Role :: string

definition public_of :: "admin_acc \<Rightarrow> public_admin" where
  "public_of a = \<lparr>pa_Username = ad_Username a, pa_Role = ad_Role a\<rparr>"

section \<open>The table backend\<close>

record admin_table =
  at_byU :: "(string, admin_acc) gomap"
  at_path :: string
  at_disk :: "admin_acc list option"

definition at_New :: admin_table where
  "at_New = \<lparr>at_byU = [], at_path = '''', at_disk = None\<rparr>"

definition at_load :: "admin_table \<Rightarrow> admin_table" where
  "at_load t =
    (if at_path t = '''' then t
     else case at_disk t of
            None \<Rightarrow> t
          | Some as \<Rightarrow> fold (\<lambda>a t. t\<lparr>at_byU := mput (at_byU t) (ad_Username a) a\<rparr>) as t)"

definition at_NewFile :: "string \<Rightarrow> admin_acc list option \<Rightarrow> admin_table" where
  "at_NewFile path disk = at_load \<lparr>at_byU = [], at_path = path, at_disk = disk\<rparr>"

definition at_flush :: "bool \<Rightarrow> admin_table \<Rightarrow> admin_error option \<times> admin_table" where
  "at_flush io_ok t =
    (if at_path t = '''' then (None, t)
     else if io_ok then (None, t\<lparr>at_disk := Some (map snd (at_byU t))\<rparr>)
     else (Some AdminIo, t))"

definition at_Create ::
  "(string \<Rightarrow> bytes \<Rightarrow> bytes) \<Rightarrow> bytes option \<Rightarrow> bool \<Rightarrow> gotime \<Rightarrow> string \<Rightarrow> string \<Rightarrow> string \<Rightarrow> admin_table \<Rightarrow>
    (admin_error + public_admin) \<times> admin_table" where
  "at_Create prf rand io_ok now username password role t =
    (let role = (if role = '''' then RoleAdmin else role) in
     case pw_Hash prf rand password of
       None \<Rightarrow> (Inl AdminIo, t)
     | Some h \<Rightarrow>
         if mget (at_byU t) username \<noteq> None then (Inl AdminConflict, t)
         else
           let a = \<lparr>ad_Username = username, ad_Role = role, ad_PassHash = h, ad_CreatedAt = now\<rparr>;
               t = t\<lparr>at_byU := mput (at_byU t) username a\<rparr>
           in case at_flush io_ok t of
                (Some e, t) \<Rightarrow> (Inl e, t)
              | (None, t) \<Rightarrow> (Inr (public_of a), t))"

definition at_Verify ::
  "(string \<Rightarrow> bytes \<Rightarrow> bytes) \<Rightarrow> string \<Rightarrow> string \<Rightarrow> admin_table \<Rightarrow> admin_error + public_admin" where
  "at_Verify prf username password t =
    (case mget (at_byU t) username of
       None \<Rightarrow> Inl BadCreds
     | Some a \<Rightarrow> if pw_Verify prf password (ad_PassHash a) then Inr (public_of a) else Inl BadCreds)"

definition at_List :: "admin_table \<Rightarrow> public_admin list" where
  "at_List t = map (public_of \<circ> snd) (at_byU t)"

section \<open>The SQL backend\<close>

record admin_sql =
  aq_rows :: "admin_acc list"

definition aq_Create ::
  "(string \<Rightarrow> bytes \<Rightarrow> bytes) \<Rightarrow> bytes option \<Rightarrow> bool \<Rightarrow> gotime \<Rightarrow> string \<Rightarrow> string \<Rightarrow> string \<Rightarrow> admin_sql \<Rightarrow>
    (admin_error + public_admin) \<times> admin_sql" where
  "aq_Create prf rand db_ok now username password role s =
    (let role = (if role = '''' then RoleAdmin else role) in
     case pw_Hash prf rand password of
       None \<Rightarrow> (Inl AdminIo, s)
     | Some h \<Rightarrow>
         if \<not> db_ok \<or> list_ex (\<lambda>a. ad_Username a = username) (aq_rows s) then (Inl AdminConflict, s)
         else (Inr \<lparr>pa_Username = username, pa_Role = role\<rparr>,
               s\<lparr>aq_rows := aq_rows s @
                   [\<lparr>ad_Username = username, ad_Role = role, ad_PassHash = h, ad_CreatedAt = now\<rparr>]\<rparr>))"

definition aq_Verify ::
  "(string \<Rightarrow> bytes \<Rightarrow> bytes) \<Rightarrow> bool \<Rightarrow> string \<Rightarrow> string \<Rightarrow> admin_sql \<Rightarrow> admin_error + public_admin" where
  "aq_Verify prf db_ok username password s =
    (if \<not> db_ok then Inl AdminIo
     else case find (\<lambda>a. ad_Username a = username) (aq_rows s) of
            None \<Rightarrow> Inl BadCreds
          | Some a \<Rightarrow> if pw_Verify prf password (ad_PassHash a)
                      then Inr \<lparr>pa_Username = username, pa_Role = ad_Role a\<rparr> else Inl BadCreds)"

definition aq_List :: "bool \<Rightarrow> admin_sql \<Rightarrow> public_admin list" where
  "aq_List db_ok s = (if db_ok then map public_of (aq_rows s) else [])"

section \<open>The interface\<close>

datatype admin_store = AdminTable admin_table | AdminSql admin_sql

definition ad_Create ::
  "(string \<Rightarrow> bytes \<Rightarrow> bytes) \<Rightarrow> bytes option \<Rightarrow> bool \<Rightarrow> gotime \<Rightarrow> string \<Rightarrow> string \<Rightarrow> string \<Rightarrow> admin_store \<Rightarrow>
    (admin_error + public_admin) \<times> admin_store" where
  "ad_Create prf rand ok now username password role st =
    (case st of
       AdminTable t \<Rightarrow> map_prod id AdminTable (at_Create prf rand ok now username password role t)
     | AdminSql s \<Rightarrow> map_prod id AdminSql (aq_Create prf rand ok now username password role s))"

definition ad_Verify ::
  "(string \<Rightarrow> bytes \<Rightarrow> bytes) \<Rightarrow> bool \<Rightarrow> string \<Rightarrow> string \<Rightarrow> admin_store \<Rightarrow> admin_error + public_admin" where
  "ad_Verify prf ok username password st =
    (case st of
       AdminTable t \<Rightarrow> at_Verify prf username password t
     | AdminSql s \<Rightarrow> aq_Verify prf ok username password s)"

definition ad_List :: "bool \<Rightarrow> admin_store \<Rightarrow> public_admin list" where
  "ad_List ok st = (case st of AdminTable t \<Rightarrow> at_List t | AdminSql s \<Rightarrow> aq_List ok s)"

text \<open>The start-up of the broker creates the first account; it stops when that fails.\<close>

definition seed_admin ::
  "(string \<Rightarrow> bytes \<Rightarrow> bytes) \<Rightarrow> bytes option \<Rightarrow> bool \<Rightarrow> gotime \<Rightarrow> string \<Rightarrow> string \<Rightarrow> admin_store \<Rightarrow> admin_store option" where
  "seed_admin prf rand ok now adminUser adminPass st =
    (if ad_List ok st = [] \<and> adminUser \<noteq> '''' then
       (case ad_Create prf rand ok now adminUser adminPass RoleAdmin st of
          (Inl _, _) \<Rightarrow> None
        | (Inr _, st) \<Rightarrow> Some st)
     else Some st)"

section \<open>What a backend promises\<close>

text \<open>
  The accounts of a backend by name. An account is created once with the hash of its password and
  never changes; a password is accepted exactly when the account's hash accepts it.
\<close>

locale admin_registry =
  fixes create :: "(string \<Rightarrow> bytes \<Rightarrow> bytes) \<Rightarrow> bytes option \<Rightarrow> bool \<Rightarrow> gotime \<Rightarrow> string \<Rightarrow> string \<Rightarrow> string \<Rightarrow> 's \<Rightarrow>
      (admin_error + public_admin) \<times> 's"
    and verify :: "(string \<Rightarrow> bytes \<Rightarrow> bytes) \<Rightarrow> bool \<Rightarrow> string \<Rightarrow> string \<Rightarrow> 's \<Rightarrow> admin_error + public_admin"
    and account :: "'s \<Rightarrow> string \<Rightarrow> admin_acc option"
  assumes verify_iff: "verify prf True username password s = Inr p \<longleftrightarrow>
      (\<exists>a. account s username = Some a \<and> pw_Verify prf password (ad_PassHash a) \<and>
           p = public_of a)"
    and create_new: "create prf rand ok now username password role s = (Inr p, s') \<Longrightarrow>
      account s username = None \<and>
      (\<exists>h. pw_Hash prf rand password = Some h \<and>
        account s' = (account s)(username \<mapsto> \<lparr>ad_Username = username,
          ad_Role = (if role = '''' then RoleAdmin else role), ad_PassHash = h, ad_CreatedAt = now\<rparr>))"
begin

text \<open>
  The password of a new account logs in, and so does no password that derives another key; every
  other account is untouched.
\<close>

lemma create_verify:
  assumes len: "\<And>p m. length (prf p m) = hashLen"
    and new: "create prf (Some salt) ok now username password role s = (Inr p, s')"
  shows "(\<exists>q. verify prf True username pw s' = Inr q) \<longleftrightarrow>
      pbkdf2 prf pw salt iterations keyLen = pbkdf2 prf password salt iterations keyLen"
    and "other \<noteq> username \<Longrightarrow> verify prf True other pw s' = Inr q \<longleftrightarrow> verify prf True other pw s = Inr q"
proof -
  from create_new [OF new] obtain h where h: "pw_Hash prf (Some salt) password = Some h"
    "account s' = (account s)(username \<mapsto> \<lparr>ad_Username = username,
      ad_Role = (if role = '''' then RoleAdmin else role), ad_PassHash = h, ad_CreatedAt = now\<rparr>)"
    by blast
  show "(\<exists>q. verify prf True username pw s' = Inr q) \<longleftrightarrow>
      pbkdf2 prf pw salt iterations keyLen = pbkdf2 prf password salt iterations keyLen"
    using Verify_Hash [OF len h(1)] by (simp add: verify_iff h(2))
  show "other \<noteq> username \<Longrightarrow> verify prf True other pw s' = Inr q \<longleftrightarrow> verify prf True other pw s = Inr q"
    by (simp add: verify_iff h(2))
qed

end

text \<open>Both backends keep the promise.\<close>

definition ad_account :: "admin_store \<Rightarrow> string \<Rightarrow> admin_acc option" where
  "ad_account st u =
    (case st of
       AdminTable t \<Rightarrow> mget (at_byU t) u
     | AdminSql s \<Rightarrow> find (\<lambda>a. ad_Username a = u) (aq_rows s))"

lemma find_name: "find (\<lambda>a. ad_Username a = u) as = Some a \<Longrightarrow> ad_Username a = u"
  by (induction as) (auto split: if_splits)

lemma find_append: "find P (xs @ ys) = (case find P xs of None \<Rightarrow> find P ys | Some x \<Rightarrow> Some x)"
  by (induction xs) simp_all

lemma find_ex: "find P xs = None \<longleftrightarrow> \<not> list_ex P xs"
  by (induction xs) simp_all

lemma at_Create_Inr:
  assumes "at_Create prf rand ok now username password role t = (Inr p, t')"
  shows "mget (at_byU t) username = None \<and>
    (\<exists>h. pw_Hash prf rand password = Some h \<and>
      at_byU t' = mput (at_byU t) username \<lparr>ad_Username = username,
        ad_Role = (if role = '''' then RoleAdmin else role), ad_PassHash = h, ad_CreatedAt = now\<rparr>)"
  using assms by (auto simp: at_Create_def at_flush_def Let_def split: option.splits if_splits)

lemma aq_Create_Inr:
  assumes "aq_Create prf rand ok now username password role s = (Inr p, s')"
  shows "find (\<lambda>a. ad_Username a = username) (aq_rows s) = None \<and>
    (\<exists>h. pw_Hash prf rand password = Some h \<and>
      aq_rows s' = aq_rows s @ [\<lparr>ad_Username = username,
        ad_Role = (if role = '''' then RoleAdmin else role), ad_PassHash = h, ad_CreatedAt = now\<rparr>])"
  using assms by (auto simp: aq_Create_def Let_def find_ex split: option.splits if_splits)

interpretation admins: admin_registry ad_Create ad_Verify ad_account
proof unfold_locales
  fix keyed username password s p
  show "ad_Verify keyed True username password s = Inr p \<longleftrightarrow>
      (\<exists>a. ad_account s username = Some a \<and> pw_Verify keyed password (ad_PassHash a) \<and> p = public_of a)"
    by (cases s) (auto simp: ad_Verify_def ad_account_def at_Verify_def aq_Verify_def public_of_def
        dest: find_name split: option.splits)
next
  fix keyed rand ok now username password role s p s'
  assume new: "ad_Create keyed rand ok now username password role s = (Inr p, s')"
  let ?a = "\<lambda>h. \<lparr>ad_Username = username, ad_Role = (if role = '''' then RoleAdmin else role),
      ad_PassHash = h, ad_CreatedAt = now\<rparr>"
  show "ad_account s username = None \<and>
      (\<exists>h. pw_Hash keyed rand password = Some h \<and> ad_account s' = (ad_account s)(username \<mapsto> ?a h))"
  proof (cases s)
    case (AdminTable t)
    with new obtain t' where t': "s' = AdminTable t'" "at_Create keyed rand ok now username password role t = (Inr p, t')"
      by (cases "at_Create keyed rand ok now username password role t") (auto simp: ad_Create_def)
    with at_Create_Inr [OF t'(2)] AdminTable show ?thesis by (auto simp: ad_account_def fun_eq_iff)
  next
    case (AdminSql q)
    with new obtain q' where q': "s' = AdminSql q'" "aq_Create keyed rand ok now username password role q = (Inr p, q')"
      by (cases "aq_Create keyed rand ok now username password role q") (auto simp: ad_Create_def)
    with aq_Create_Inr [OF q'(2)] AdminSql show ?thesis
      by (auto simp: ad_account_def find_append fun_eq_iff split: option.split)
  qed
qed

end
