(* ===== verification/AdminServer.thy ===== *)
theory AdminServer
  imports AdminStore Broker
begin

text \<open>
  \<^verbatim>\<open>internal/adminserver/adminserver.go\<close> and \<^verbatim>\<open>internal/auth/auth.go\<close>: the admin API. A request is its
  method, path, headers and query as the HTTP library parses them, with the decoded body; a response is
  its status and the value that is then encoded as JSON. The server acts on the broker, whose user
  store and event bus it shares, and on its own accounts and login sessions. What comes from outside
  (random tokens and ids, the keyed hash, whether the account database answers) is the record
  \<open>admin_env\<close>. The static dashboard is one response.
\<close>

section \<open>Requests and responses\<close>

datatype http_method = GET | HEAD | POST | PATCH | DELETE | OtherMethod

record http_request =
  rq_method :: http_method
  rq_path :: "string list"
  rq_authorization :: string
  rq_query :: "(string, string) gomap"
  rq_login :: "(string \<times> string) option"
  rq_create :: "user_create option"
  rq_update :: "user_update option"
  rq_flusher :: bool

record region_view =
  rg_Code :: string
  rg_Name :: string
  rg_NodeCount :: int
  rg_OnlineNodes :: int
  rg_ActiveUsers :: int

datatype response_body =
  NoBody
| JError string string
| JLogin string string gotime
| JUsers "user list"
| JUser user
| JCreated user string
| JNodes "device_view list"
| JNode device_view
| JSessions "admin_session list"
| JRegions "region_view list"
| JQosExits "exit_stat list"
| JQosSessions "session_stat list"
| JQosHistory "qos_event list"
| EventStream nat admin_event
| Dashboard

type_synonym response = "nat \<times> response_body"

definition writeErr :: "nat \<Rightarrow> string \<Rightarrow> string \<Rightarrow> response" where
  "writeErr code errCode msg = (code, JError errCode msg)"

section \<open>Tokens\<close>

definition BearerToken :: "http_request \<Rightarrow> string" where
  "BearerToken r =
    (case cut_prefix ''Bearer '' (rq_authorization r) of Some v \<Rightarrow> TrimSpace v | None \<Rightarrow> '''')"

definition query :: "http_request \<Rightarrow> string \<Rightarrow> string" where
  "query r k = (case mget (rq_query r) k of Some v \<Rightarrow> v | None \<Rightarrow> '''')"

definition request_token :: "http_request \<Rightarrow> string" where
  "request_token r = (let tok = BearerToken r in if tok = '''' then query r ''access_token'' else tok)"

record session_entry =
  se_role :: string
  se_exp :: gotime

type_synonym session_mgr = "(string, session_entry) gomap"

definition sm_issue :: "gotime \<Rightarrow> string \<Rightarrow> string \<Rightarrow> session_mgr \<Rightarrow> gotime \<times> session_mgr" where
  "sm_issue now tok role sm =
    (let e = now + 8 * hour in (e, mput sm tok \<lparr>se_role = role, se_exp = e\<rparr>))"

definition sm_valid :: "gotime \<Rightarrow> string \<Rightarrow> session_mgr \<Rightarrow> bool \<times> session_mgr" where
  "sm_valid now tok sm =
    (case mget sm tok of
       None \<Rightarrow> (False, sm)
     | Some e \<Rightarrow> if now > se_exp e then (False, mdel sm tok) else (True, sm))"

section \<open>The server\<close>

record admin_server =
  sv_admins :: "admin_store option"
  sv_bootstrap :: string
  sv_sessions :: session_mgr

record admin_env =
  ae_b :: broker_env
  ae_prf :: "string \<Rightarrow> bytes \<Rightarrow> bytes"
  ae_db_ok :: bool
  ae_token :: string
  ae_newID :: string
  ae_read_ok :: bool

definition validate :: "gotime \<Rightarrow> string \<Rightarrow> admin_server \<Rightarrow> bool \<times> admin_server" where
  "validate now tok sv =
    (if sv_bootstrap sv \<noteq> '''' \<and> tok = sv_bootstrap sv then (True, sv)
     else (case sm_valid now tok (sv_sessions sv) of (ok, sm) \<Rightarrow> (ok, sv\<lparr>sv_sessions := sm\<rparr>)))"

definition unauthorized :: response where
  "unauthorized = writeErr 401 ''unauthorized'' ''valid token required''"

definition RequireToken ::
  "gotime \<Rightarrow> (http_request \<Rightarrow> admin_server \<times> broker \<Rightarrow> response \<times> admin_server \<times> broker) \<Rightarrow>
    http_request \<Rightarrow> admin_server \<times> broker \<Rightarrow> response \<times> admin_server \<times> broker" where
  "RequireToken now handler r s =
    (case s of (sv, b) \<Rightarrow>
       (let tok = request_token r in
        if tok = '''' then (unauthorized, sv, b)
        else (case validate now tok sv of
                (False, sv) \<Rightarrow> (unauthorized, sv, b)
              | (True, sv) \<Rightarrow> handler r (sv, b))))"

definition login :: "admin_env \<Rightarrow> http_request \<Rightarrow> admin_server \<Rightarrow> response \<times> admin_server" where
  "login env r sv =
    (case rq_login r of
       None \<Rightarrow> (writeErr 400 ''bad_request'' ''invalid body'', sv)
     | Some (username, password) \<Rightarrow>
         (case sv_admins sv of
            None \<Rightarrow> (writeErr 503 ''unavailable'' ''no admin store configured'', sv)
          | Some st \<Rightarrow>
              (case ad_Verify (ae_prf env) (ae_db_ok env) username password st of
                 Inl _ \<Rightarrow> (writeErr 401 ''unauthorized'' ''bad credentials'', sv)
               | Inr p \<Rightarrow>
                   (case sm_issue (be_now (ae_b env)) (ae_token env) (pa_Role p) (sv_sessions sv) of
                      (e, sm) \<Rightarrow> ((200, JLogin (ae_token env) (pa_Role p) e), sv\<lparr>sv_sessions := sm\<rparr>)))))"

section \<open>The user store behind its interface\<close>

definition st_Get :: "broker_env \<Rightarrow> string \<Rightarrow> user_store \<Rightarrow> user_error + user" where
  "st_Get env i st =
    (case st of TableStore t \<Rightarrow> us_Get i t | SqlStore s \<Rightarrow> sq_Get (be_db_ok env) i s)"

definition st_List :: "broker_env \<Rightarrow> string \<Rightarrow> string \<Rightarrow> user_store \<Rightarrow> user list" where
  "st_List env region status st =
    (case st of TableStore t \<Rightarrow> us_List region status t | SqlStore s \<Rightarrow> sq_List (be_db_ok env) region status s)"

definition st_Update ::
  "broker_env \<Rightarrow> bool \<Rightarrow> string \<Rightarrow> user_update \<Rightarrow> user_store \<Rightarrow> (user_error + user) \<times> user_store" where
  "st_Update env read_ok i inp st =
    (case st of
       TableStore t \<Rightarrow> map_prod id TableStore (us_Update (be_hmac env) (be_db_ok env) (be_now env) i inp t)
     | SqlStore s \<Rightarrow>
         map_prod id SqlStore (sq_Update (be_hmac env) read_ok (be_db_ok env) (be_now env) i inp s))"

definition st_Delete :: "broker_env \<Rightarrow> string \<Rightarrow> user_store \<Rightarrow> user_error option \<times> user_store" where
  "st_Delete env i st =
    (case st of
       TableStore t \<Rightarrow> map_prod id TableStore (us_Delete (be_db_ok env) i t)
     | SqlStore s \<Rightarrow> map_prod id SqlStore (sq_Delete (be_db_ok env) i s))"

section \<open>Handlers\<close>

definition listUsers :: "admin_env \<Rightarrow> http_request \<Rightarrow> broker \<Rightarrow> response" where
  "listUsers env r b = (200, JUsers (st_List (ae_b env) (query r ''region'') (query r ''status'') (b_users b)))"

definition createUser :: "admin_env \<Rightarrow> http_request \<Rightarrow> broker \<Rightarrow> response \<times> broker" where
  "createUser env r b =
    (case rq_create r of
       None \<Rightarrow> (writeErr 422 ''validation_error'' ''invalid body'', b)
     | Some inp \<Rightarrow>
         (let inp = (if uc_Credential inp = '''' then inp\<lparr>uc_Credential := ae_token env\<rparr> else inp) in
          case st_Create (ae_b env) (ae_newID env) inp (b_users b) of
            (Inl e, st) \<Rightarrow>
              ((if e = ErrConflict then writeErr 409 ''conflict'' (user_error_text (ae_b env) e)
                else writeErr 422 ''validation_error'' (user_error_text (ae_b env) e)),
               b\<lparr>b_users := st\<rparr>)
          | (Inr u, st) \<Rightarrow> ((201, JCreated u (uc_Credential inp)), b\<lparr>b_users := st\<rparr>)))"

definition getUser :: "admin_env \<Rightarrow> string \<Rightarrow> broker \<Rightarrow> response" where
  "getUser env i b =
    (case st_Get (ae_b env) i (b_users b) of
       Inl e \<Rightarrow> writeErr 404 ''not_found'' (user_error_text (ae_b env) e)
     | Inr u \<Rightarrow> (200, JUser u))"

definition updateUser :: "admin_env \<Rightarrow> string \<Rightarrow> http_request \<Rightarrow> broker \<Rightarrow> response \<times> broker" where
  "updateUser env i r b =
    (case rq_update r of
       None \<Rightarrow> (writeErr 422 ''validation_error'' ''invalid body'', b)
     | Some inp \<Rightarrow>
         (case st_Update (ae_b env) (ae_read_ok env) i inp (b_users b) of
            (Inl e, st) \<Rightarrow> (writeErr 404 ''not_found'' (user_error_text (ae_b env) e), b\<lparr>b_users := st\<rparr>)
          | (Inr u, st) \<Rightarrow> ((200, JUser u), b\<lparr>b_users := st\<rparr>)))"

definition deleteUser :: "admin_env \<Rightarrow> string \<Rightarrow> broker \<Rightarrow> response \<times> broker" where
  "deleteUser env i b =
    (case st_Delete (ae_b env) i (b_users b) of
       (Some e, st) \<Rightarrow> (writeErr 404 ''not_found'' (user_error_text (ae_b env) e), b\<lparr>b_users := st\<rparr>)
     | (None, st) \<Rightarrow> ((204, NoBody), b\<lparr>b_users := st\<rparr>))"

definition listNodes :: "admin_env \<Rightarrow> http_request \<Rightarrow> broker \<Rightarrow> response" where
  "listNodes env r b =
    (let region = query r ''region''; nodes = ListNodes (ae_b env) b
     in (200, JNodes (if region \<noteq> '''' then filter (\<lambda>n. dv_Region n = region) nodes else nodes)))"

definition getNode :: "admin_env \<Rightarrow> string \<Rightarrow> broker \<Rightarrow> response" where
  "getNode env i b =
    (case find (\<lambda>n. dv_NodeID n = i) (ListNodes (ae_b env) b) of
       Some n \<Rightarrow> (200, JNode n)
     | None \<Rightarrow> writeErr 404 ''not_found'' ''node not found'')"

definition listSessions :: "admin_env \<Rightarrow> broker \<Rightarrow> response" where
  "listSessions env b = (200, JSessions (ListSessions (ae_b env) b))"

text \<open>The limit of a history request: a positive number, or 200.\<close>

definition history_limit :: "http_request \<Rightarrow> int" where
  "history_limit r =
    (case Atoi (query r ''limit'') of Some n \<Rightarrow> if n > 0 then n else 200 | None \<Rightarrow> 200)"

definition qosHistory :: "http_request \<Rightarrow> broker \<Rightarrow> response" where
  "qosHistory r b = (200, JQosHistory (QoSHistory (history_limit r) b))"

text \<open>Online nodes and active users summed up by region.\<close>

definition region_add :: "device_view \<Rightarrow> (string, int \<times> int) gomap \<Rightarrow> (string, int \<times> int) gomap" where
  "region_add n m =
    (let (online, users) = (case mget m (dv_Region n) of None \<Rightarrow> (0, 0) | Some a \<Rightarrow> a)
     in mput m (dv_Region n)
          (if dv_Status n = NodeOnline then online + 1 else online, users + dv_ActiveUsers n))"

definition listRegions :: "admin_env \<Rightarrow> broker \<Rightarrow> response" where
  "listRegions env b =
    (200, JRegions (map (\<lambda>(code, online, users).
        \<lparr>rg_Code = code, rg_Name = code, rg_NodeCount = online, rg_OnlineNodes = online, rg_ActiveUsers = users\<rparr>)
      (fold region_add (ListNodes (ae_b env) b) [])))"

text \<open>A new event stream: its subscription and the snapshot it starts with.\<close>

definition events :: "admin_env \<Rightarrow> http_request \<Rightarrow> broker \<Rightarrow> response \<times> broker" where
  "events env r b =
    (if \<not> rq_flusher r then (writeErr 500 ''internal'' ''streaming unsupported'', b)
     else (case Subscribe (b_bus b) of
             (i, bus) \<Rightarrow>
               (let b = b\<lparr>b_bus := bus\<rparr> in
                ((200, EventStream i ((admin_ev EvSnapshot (be_now (ae_b env)))
                   \<lparr>e_Snapshot := Some \<lparr>sn_Nodes = ListNodes (ae_b env) b,
                                          sn_Sessions = ListSessions (ae_b env) b\<rparr>\<rparr>)), b))))"

section \<open>Routes\<close>

definition api_rest :: "string list \<Rightarrow> string list option" where
  "api_rest p = (if take 2 p = [''api'', ''v1''] then Some (drop 2 p) else None)"

datatype api_route =
  Login | ListUsers | CreateUser | GetUser string | UpdateUser string | DeleteUser string | ListRegions
| ListNodesR | GetNode string | ListSessionsR | QosExitsR | QosSessionsR | QosHistoryR | EventsR
| Static | NotAllowed

text \<open>A GET pattern also serves HEAD. Every path matches the dashboard's, which serves these two only.\<close>

definition route_of :: "http_method \<Rightarrow> string list \<Rightarrow> api_route" where
  "route_of m p =
    (let get = (m = GET \<or> m = HEAD); other = (if m = GET \<or> m = HEAD then Static else NotAllowed) in
     case api_rest p of
       None \<Rightarrow> other
     | Some q \<Rightarrow>
         if m = POST \<and> q = [''admin'', ''login''] then Login
         else if get \<and> q = [''users''] then ListUsers
         else if m = POST \<and> q = [''users''] then CreateUser
         else if get \<and> length q = 2 \<and> hd q = ''users'' then GetUser (q ! 1)
         else if m = PATCH \<and> length q = 2 \<and> hd q = ''users'' then UpdateUser (q ! 1)
         else if m = DELETE \<and> length q = 2 \<and> hd q = ''users'' then DeleteUser (q ! 1)
         else if get \<and> q = [''regions''] then ListRegions
         else if get \<and> q = [''nodes''] then ListNodesR
         else if get \<and> length q = 2 \<and> hd q = ''nodes'' then GetNode (q ! 1)
         else if get \<and> q = [''sessions''] then ListSessionsR
         else if get \<and> q = [''qos'', ''exits''] then QosExitsR
         else if get \<and> q = [''qos'', ''sessions''] then QosSessionsR
         else if get \<and> q = [''qos'', ''history''] then QosHistoryR
         else if get \<and> q = [''events''] then EventsR
         else other)"

text \<open>What the wrapped handlers do once a token has been accepted.\<close>

fun api_handle ::
  "admin_env \<Rightarrow> api_route \<Rightarrow> http_request \<Rightarrow> admin_server \<times> broker \<Rightarrow> response \<times> admin_server \<times> broker" where
  "api_handle env ListUsers r (sv, b) = (listUsers env r b, sv, b)"
| "api_handle env CreateUser r (sv, b) = (case createUser env r b of (x, b) \<Rightarrow> (x, sv, b))"
| "api_handle env (GetUser i) r (sv, b) = (getUser env i b, sv, b)"
| "api_handle env (UpdateUser i) r (sv, b) = (case updateUser env i r b of (x, b) \<Rightarrow> (x, sv, b))"
| "api_handle env (DeleteUser i) r (sv, b) = (case deleteUser env i b of (x, b) \<Rightarrow> (x, sv, b))"
| "api_handle env ListRegions r (sv, b) = (listRegions env b, sv, b)"
| "api_handle env ListNodesR r (sv, b) = (listNodes env r b, sv, b)"
| "api_handle env (GetNode i) r (sv, b) = (getNode env i b, sv, b)"
| "api_handle env ListSessionsR r (sv, b) = (listSessions env b, sv, b)"
| "api_handle env QosExitsR r (sv, b) = ((200, JQosExits (QoSExits b)), sv, b)"
| "api_handle env QosSessionsR r (sv, b) = ((200, JQosSessions (QoSSessions (ae_b env) b)), sv, b)"
| "api_handle env QosHistoryR r (sv, b) = (qosHistory r b, sv, b)"
| "api_handle env EventsR r (sv, b) = (case events env r b of (x, b) \<Rightarrow> (x, sv, b))"
| "api_handle env Login r (sv, b) = (case login env r sv of (x, sv) \<Rightarrow> (x, sv, b))"
| "api_handle env Static r (sv, b) = ((200, Dashboard), sv, b)"
| "api_handle env NotAllowed r (sv, b) = ((405, NoBody), sv, b)"

definition open_route :: "api_route \<Rightarrow> bool" where
  "open_route rt = (rt \<in> {Login, Static, NotAllowed})"

definition Handler ::
  "admin_env \<Rightarrow> http_request \<Rightarrow> admin_server \<times> broker \<Rightarrow> response \<times> admin_server \<times> broker" where
  "Handler env r s =
    (let rt = route_of (rq_method r) (rq_path r) in
     if open_route rt then api_handle env rt r s
     else RequireToken (be_now (ae_b env)) (api_handle env rt) r s)"

end
