(* ===== verification/AdminRuns.thy ===== *)
theory AdminRuns
  imports AdminServer
begin

text \<open>
  Runs of the admin server: requests one after another, with anything happening to the broker in
  between. The log of logins a run has seen determines who is let in afterwards.
\<close>

datatype admin_in = Request admin_env http_request | BrokerMoves broker

fun admin_step :: "admin_in \<Rightarrow> admin_server \<times> broker \<Rightarrow> admin_server \<times> broker" where
  "admin_step (Request env r) s = snd (Handler env r s)"
| "admin_step (BrokerMoves b) s = (fst s, b)"

text \<open>The tokens a run's logins were answered with, with their time of expiry, and the clock readings.\<close>

fun logins :: "admin_in list \<Rightarrow> admin_server \<times> broker \<Rightarrow> (string \<times> gotime) list" where
  "logins [] s = []"
| "logins (ev # evs) s =
    (case ev of
       Request env r \<Rightarrow> (case fst (Handler env r s) of (_, JLogin tok _ e) \<Rightarrow> [(tok, e)] | _ \<Rightarrow> [])
     | BrokerMoves _ \<Rightarrow> []) @ logins evs (admin_step ev s)"

fun clock :: "admin_in list \<Rightarrow> gotime list" where
  "clock [] = []"
| "clock (Request env r # evs) = be_now (ae_b env) # clock evs"
| "clock (BrokerMoves b # evs) = clock evs"

definition protected :: "http_request \<Rightarrow> bool" where
  "protected r = (\<not> open_route (route_of (rq_method r) (rq_path r)))"

section \<open>What a request does to the login sessions\<close>

lemma api_handle_keeps:
  "\<not> open_route rt \<Longrightarrow> fst (snd (api_handle env rt r (sv, b))) = sv"
  "\<not> open_route rt \<Longrightarrow> snd (fst (api_handle env rt r (sv, b))) \<noteq> JLogin t ro e"
  by (cases rt; simp add: open_route_def listUsers_def getUser_def listRegions_def listNodes_def getNode_def
      listSessions_def qosHistory_def createUser_def updateUser_def deleteUser_def events_def writeErr_def
      Let_def split: prod.split option.split sum.split)+

lemma Handler_protected:
  assumes "protected r"
  shows "Handler env r (sv, b) =
    (let tok = request_token r in
     if tok = '''' then (unauthorized, sv, b)
     else (case validate (be_now (ae_b env)) tok sv of
             (False, sv) \<Rightarrow> (unauthorized, sv, b)
           | (True, sv) \<Rightarrow> api_handle env (route_of (rq_method r) (rq_path r)) r (sv, b)))"
  using assms by (simp add: Handler_def protected_def RequireToken_def)

lemma Handler_open:
  assumes "\<not> protected r"
  shows "Handler env r (sv, b) = api_handle env (route_of (rq_method r) (rq_path r)) r (sv, b)"
  using assms by (simp add: Handler_def protected_def)

lemma login_cases:
  "login env r sv = (x, sv') \<Longrightarrow>
    (\<exists>c m. snd x = JError c m) \<and> sv' = sv \<or>
    (\<exists>u pw st p. rq_login r = Some (u, pw) \<and> sv_admins sv = Some st \<and>
      ad_Verify (ae_prf env) (ae_db_ok env) u pw st = Inr p \<and>
      x = (200, JLogin (ae_token env) (pa_Role p) (be_now (ae_b env) + 8 * hour)) \<and>
      sv' = sv\<lparr>sv_sessions := mput (sv_sessions sv) (ae_token env)
        \<lparr>se_role = pa_Role p, se_exp = be_now (ae_b env) + 8 * hour\<rparr>\<rparr>)"
  by (auto simp: login_def sm_issue_def writeErr_def Let_def split: option.splits prod.splits sum.splits)

lemma validate_sessions:
  "validate now tok sv = (ok, sv') \<Longrightarrow>
    sv_sessions sv' = sv_sessions sv \<or>
    (\<exists>e. mget (sv_sessions sv) tok = Some e \<and> se_exp e < now \<and> sv_sessions sv' = mdel (sv_sessions sv) tok)"
  by (auto simp: validate_def sm_valid_def split: if_splits option.splits)

definition log_of :: "response \<Rightarrow> (string \<times> gotime) list" where
  "log_of x = (case x of (_, JLogin tok _ e) \<Rightarrow> [(tok, e)] | _ \<Rightarrow> [])"

text \<open>
  The three things a request can do to the sessions: nothing, a new entry that is also logged, or the
  removal of an entry that has expired.
\<close>

lemma Handler_sessions:
  assumes "Handler env r (sv, b) = (x, sv', b')"
  defines "now \<equiv> be_now (ae_b env)"
  shows "sv_sessions sv' = sv_sessions sv \<and> log_of x = [] \<or>
    (\<exists>tok ro. sv_sessions sv' = mput (sv_sessions sv) tok \<lparr>se_role = ro, se_exp = now + 8 * hour\<rparr> \<and>
      log_of x = [(tok, now + 8 * hour)]) \<or>
    (\<exists>tok e. mget (sv_sessions sv) tok = Some e \<and> se_exp e < now \<and>
      sv_sessions sv' = mdel (sv_sessions sv) tok \<and> log_of x = [])"
proof (cases "protected r")
  case True
  have "log_of (fst (api_handle env (route_of (rq_method r) (rq_path r)) r (sv, b))) = []" for sv
    using api_handle_keeps(2) [of "route_of (rq_method r) (rq_path r)" env r sv b] True
    by (cases "fst (api_handle env (route_of (rq_method r) (rq_path r)) r (sv, b))")
      (auto simp: log_of_def protected_def split: response_body.split)
  moreover have "log_of unauthorized = []" by (simp add: log_of_def unauthorized_def writeErr_def)
  moreover have "fst (snd (api_handle env (route_of (rq_method r) (rq_path r)) r (sv, b))) = sv" for sv
    using api_handle_keeps(1) True by (simp add: protected_def)
  ultimately have "log_of x = [] \<and>
      (sv' = sv \<or> (\<exists>ok. validate now (request_token r) sv = (ok, sv')))"
    using assms(1) unfolding Handler_protected [OF True] now_def Let_def
    by (cases "validate (be_now (ae_b env)) (request_token r) sv")
      (auto split: if_splits bool.splits, (metis fst_conv snd_conv)+)
  then show ?thesis using validate_sessions [of now "request_token r" sv _ sv'] by blast
next
  case False
  then consider "route_of (rq_method r) (rq_path r) = Login" | "route_of (rq_method r) (rq_path r) = Static"
    | "route_of (rq_method r) (rq_path r) = NotAllowed"
    by (auto simp: protected_def open_route_def)
  then show ?thesis
  proof cases
    case 1
    with assms(1) have "login env r sv = (x, sv')"
      by (simp add: Handler_open [OF False] split: prod.splits)
    from login_cases [OF this] show ?thesis
      by (cases x) (auto simp: log_of_def now_def)
  qed (use assms(1) in \<open>auto simp: Handler_open [OF False] log_of_def\<close>)
qed

section \<open>The log determines the sessions\<close>

definition token_log :: "session_entry option \<Rightarrow> gotime set \<Rightarrow> gotime \<Rightarrow> bool" where
  "token_log entry xs now =
    (case entry of Some e \<Rightarrow> se_exp e \<in> xs \<and> (\<forall>x\<in>xs. x \<le> se_exp e) | None \<Rightarrow> \<forall>x\<in>xs. x < now)"

definition expiries :: "(string \<times> gotime) list \<Rightarrow> string \<Rightarrow> gotime set" where
  "expiries lg tok = {x. (tok, x) \<in> set lg}"

definition sessions_log :: "session_mgr \<Rightarrow> (string \<times> gotime) list \<Rightarrow> gotime \<Rightarrow> bool" where
  "sessions_log sm lg now =
    (\<forall>tok. token_log (mget sm tok) (expiries lg tok) now \<and> (\<forall>x\<in>expiries lg tok. x \<le> now + 8 * hour))"

lemma token_log_later: "token_log entry xs t \<Longrightarrow> t \<le> now \<Longrightarrow> token_log entry xs now"
  by (auto simp: token_log_def split: option.splits)

lemma token_log_issue:
  "(\<And>y. y \<in> xs \<Longrightarrow> y \<le> x) \<Longrightarrow> token_log (Some \<lparr>se_role = ro, se_exp = x\<rparr>) (insert x xs) now"
  by (simp add: token_log_def)

lemma token_log_expire: "token_log (Some e) xs now \<Longrightarrow> se_exp e < now \<Longrightarrow> token_log None xs now"
  by (auto simp: token_log_def)

lemma expiries_snoc: "expiries (lg @ [(tok, x)]) t = (if t = tok then insert x (expiries lg t) else expiries lg t)"
  by (auto simp: expiries_def)

lemma sessions_log_later: "sessions_log sm lg t \<Longrightarrow> t \<le> now \<Longrightarrow> sessions_log sm lg now"
  unfolding sessions_log_def by (blast intro: token_log_later order_trans add_right_mono)

lemma sessions_log_step:
  assumes "sessions_log (sv_sessions sv) lg (be_now (ae_b env))" and "Handler env r (sv, b) = (x, sv', b')"
  shows "sessions_log (sv_sessions sv') (lg @ log_of x) (be_now (ae_b env))"
  using Handler_sessions [OF assms(2)]
proof (elim disjE exE conjE)
  fix tok ro
  assume "sv_sessions sv' = mput (sv_sessions sv) tok \<lparr>se_role = ro, se_exp = be_now (ae_b env) + 8 * hour\<rparr>"
    "log_of x = [(tok, be_now (ae_b env) + 8 * hour)]"
  with assms(1) show ?thesis by (auto simp: sessions_log_def expiries_snoc intro!: token_log_issue)
next
  fix tok e
  assume old: "mget (sv_sessions sv) tok = Some e" "se_exp e < be_now (ae_b env)"
    "sv_sessions sv' = mdel (sv_sessions sv) tok" "log_of x = []"
  from assms(1) old(1) have "token_log (Some e) (expiries lg tok) (be_now (ae_b env))"
    unfolding sessions_log_def by metis
  from token_log_expire [OF this old(2)] assms(1) old(3,4) show ?thesis by (simp add: sessions_log_def)
qed (use assms(1) in simp)

lemma logins_Cons:
  "logins (Request env r # evs) s = log_of (fst (Handler env r s)) @ logins evs (admin_step (Request env r) s)"
  by (simp add: log_of_def split: prod.split response_body.split)

lemma sessions_log_run:
  "sessions_log (sv_sessions (fst s)) lg t \<Longrightarrow> sorted (t # clock evs) \<Longrightarrow>
    sessions_log (sv_sessions (fst (fold admin_step evs s))) (lg @ logins evs s) (last (t # clock evs))"
proof (induction evs arbitrary: s lg t)
  case (Cons ev evs)
  show ?case
  proof (cases ev)
    case (Request env r)
    obtain sv b where s: "s = (sv, b)" by (cases s)
    obtain x sv' b' where h: "Handler env r (sv, b) = (x, sv', b')" by (cases "Handler env r (sv, b)")
    let ?now = "be_now (ae_b env)"
    have "sessions_log (sv_sessions sv) lg ?now"
      by (rule sessions_log_later [of _ _ t]) (use Cons.prems Request s in simp_all)
    from sessions_log_step [OF this h]
    have "sessions_log (sv_sessions (fst (sv', b'))) (lg @ log_of x) ?now" by simp
    moreover have "sorted (?now # clock evs)" using Cons.prems(2) Request by simp
    ultimately have "sessions_log (sv_sessions (fst (fold admin_step evs (sv', b'))))
        ((lg @ log_of x) @ logins evs (sv', b')) (last (?now # clock evs))"
      by (rule Cons.IH)
    moreover have "logins (ev # evs) s = log_of x @ logins evs (sv', b')"
      unfolding Request logins_Cons s by (simp add: h)
    ultimately show ?thesis by (simp add: Request s h del: logins.simps)
  next
    case (BrokerMoves b)
    have "sessions_log (sv_sessions (fst (fold admin_step evs (fst s, b))))
        (lg @ logins evs (fst s, b)) (last (t # clock evs))"
      by (rule Cons.IH) (use Cons.prems BrokerMoves in simp_all)
    with BrokerMoves show ?thesis by simp
  qed
qed simp

text \<open>Accounts and the bootstrap token are fixed at start-up.\<close>

lemma Handler_fixed:
  assumes "Handler env r (sv, b) = (x, sv', b')"
  shows "sv_admins sv' = sv_admins sv \<and> sv_bootstrap sv' = sv_bootstrap sv"
proof (cases "protected r")
  case True
  have keep: "fst (snd (api_handle env (route_of (rq_method r) (rq_path r)) r (sv, b))) = sv" for sv
    using api_handle_keeps(1) True by (simp add: protected_def)
  obtain ok sv1 where v: "validate (be_now (ae_b env)) (request_token r) sv = (ok, sv1)"
    by (cases "validate (be_now (ae_b env)) (request_token r) sv")
  then have v1: "sv_admins sv1 = sv_admins sv \<and> sv_bootstrap sv1 = sv_bootstrap sv"
    by (auto simp: validate_def split: if_splits prod.splits)
  from assms v have "sv' = sv \<or> sv' = sv1"
    using keep [of sv1] unfolding Handler_protected [OF True]
    by (auto simp: Let_def split: if_splits bool.splits)
  with v1 show ?thesis by auto
next
  case False
  then consider "route_of (rq_method r) (rq_path r) = Login" | "route_of (rq_method r) (rq_path r) = Static"
    | "route_of (rq_method r) (rq_path r) = NotAllowed"
    by (auto simp: protected_def open_route_def)
  then show ?thesis
  proof cases
    case 1
    with assms have "login env r sv = (x, sv')" by (simp add: Handler_open [OF False] split: prod.splits)
    from login_cases [OF this] show ?thesis by auto
  qed (use assms in \<open>auto simp: Handler_open [OF False]\<close>)
qed

lemma run_fixed:
  "sv_admins (fst (fold admin_step evs s)) = sv_admins (fst s) \<and>
    sv_bootstrap (fst (fold admin_step evs s)) = sv_bootstrap (fst s)"
proof (induction evs arbitrary: s)
  case (Cons ev evs)
  have "sv_admins (fst (admin_step ev s)) = sv_admins (fst s) \<and>
      sv_bootstrap (fst (admin_step ev s)) = sv_bootstrap (fst s)"
  proof (cases ev)
    case (Request env r)
    obtain sv b where s: "s = (sv, b)" by (cases s)
    obtain x sv' b' where h: "Handler env r (sv, b) = (x, sv', b')" by (cases "Handler env r (sv, b)")
    with Handler_fixed [OF h] Request s show ?thesis by simp
  qed simp
  with Cons.IH [of "admin_step ev s"] show ?case by simp
qed simp

lemma validate_iff:
  assumes "sessions_log (sv_sessions sv) lg t" and "t \<le> now"
  shows "fst (validate now tok sv) \<longleftrightarrow>
      sv_bootstrap sv \<noteq> '''' \<and> tok = sv_bootstrap sv \<or> (\<exists>x. (tok, x) \<in> set lg \<and> now \<le> x)"
    and "fst (validate now tok sv) \<Longrightarrow> snd (validate now tok sv) = sv"
proof -
  have "token_log (mget (sv_sessions sv) tok) (expiries lg tok) now"
    using sessions_log_later [OF assms] by (simp add: sessions_log_def)
  then have "fst (sm_valid now tok (sv_sessions sv)) \<longleftrightarrow> (\<exists>x. (tok, x) \<in> set lg \<and> now \<le> x)"
    by (cases "mget (sv_sessions sv) tok") (auto simp: token_log_def sm_valid_def expiries_def)
  then show "fst (validate now tok sv) \<longleftrightarrow>
      sv_bootstrap sv \<noteq> '''' \<and> tok = sv_bootstrap sv \<or> (\<exists>x. (tok, x) \<in> set lg \<and> now \<le> x)"
    by (auto simp: validate_def split: prod.split)
  show "fst (validate now tok sv) \<Longrightarrow> snd (validate now tok sv) = sv"
    by (auto simp: validate_def sm_valid_def split: if_splits prod.splits option.splits)
qed

section \<open>Properties\<close>

text \<open>
  C6: In every run of the admin server with a clock that does not go back, a request to a protected
  endpoint is carried out exactly when it carries the bootstrap token or a token that a login of this
  run was answered with at most eight hours before; otherwise it is answered with 401 and nothing
  happens to the broker. A token that is accepted is accepted for every endpoint: the role of the
  account it was issued to is never looked at.
\<close>

theorem admin_access_exact:
  assumes "sv_sessions sv = []" and "sorted (clock evs @ [be_now (ae_b env)])" and "protected r"
    and "fold admin_step evs (sv, b) = (sv1, b1)"
  shows "if request_token r \<noteq> '''' \<and>
      (request_token r = sv_bootstrap sv \<or>
       (\<exists>x. (request_token r, x) \<in> set (logins evs (sv, b)) \<and> be_now (ae_b env) \<le> x))
    then Handler env r (sv1, b1) = api_handle env (route_of (rq_method r) (rq_path r)) r (sv1, b1)
    else fst (Handler env r (sv1, b1)) = unauthorized \<and> snd (snd (Handler env r (sv1, b1))) = b1"
proof -
  let ?now = "be_now (ae_b env)" and ?tok = "request_token r"
  define t where "t = (case clock evs of [] \<Rightarrow> ?now | c # _ \<Rightarrow> c)"
  have t: "sorted (t # clock evs)" "last (t # clock evs) \<le> ?now"
    using assms(2) by (auto simp: t_def sorted_append split: list.splits)
  have "sessions_log (sv_sessions (fst (sv, b))) [] t"
    using assms(1) by (simp add: sessions_log_def token_log_def expiries_def)
  from sessions_log_run [OF this t(1)] assms(4)
  have lg: "sessions_log (sv_sessions sv1) (logins evs (sv, b)) (last (t # clock evs))" by simp
  have "sv_bootstrap sv1 = sv_bootstrap sv" using run_fixed [of evs "(sv, b)"] assms(4) by simp
  with validate_iff [OF lg t(2), of ?tok]
  have v: "fst (validate ?now ?tok sv1) \<longleftrightarrow> sv_bootstrap sv \<noteq> '''' \<and> ?tok = sv_bootstrap sv \<or>
      (\<exists>x. (?tok, x) \<in> set (logins evs (sv, b)) \<and> ?now \<le> x)"
    "fst (validate ?now ?tok sv1) \<Longrightarrow> snd (validate ?now ?tok sv1) = sv1" by simp_all
  obtain ok sv2 where ok: "validate ?now ?tok sv1 = (ok, sv2)" by (cases "validate ?now ?tok sv1")
  show ?thesis
    using v unfolding Handler_protected [OF assms(3)] Let_def ok
    by (cases ok) auto
qed

text \<open>A fresh server seeded with one account, and requests to it.\<close>

definition toy_prf :: "string \<Rightarrow> bytes \<Rightarrow> bytes" where
  "toy_prf p m = replicate 32 (of_nat (length p))"

definition plain_request :: "http_method \<Rightarrow> string list \<Rightarrow> string \<Rightarrow> http_request" where
  "plain_request m p authz = \<lparr>rq_method = m, rq_path = p, rq_authorization = authz, rq_query = [],
     rq_login = None, rq_create = None, rq_update = None, rq_flusher = True\<rparr>"

definition login_request :: "string \<Rightarrow> string \<Rightarrow> http_request" where
  "login_request u pw = (plain_request POST [''api'', ''v1'', ''admin'', ''login''] '''')\<lparr>rq_login := Some (u, pw)\<rparr>"

lemma login_route: "route_of POST [''api'', ''v1'', ''admin'', ''login''] = Login"
  by (simp add: route_of_def api_rest_def)

definition toy_aenv :: "broker_env \<Rightarrow> admin_env" where
  "toy_aenv benv = \<lparr>ae_b = benv, ae_prf = toy_prf, ae_db_ok = True, ae_token = ''t'', ae_newID = ''id'',
     ae_read_ok = True\<rparr>"

definition toy_server :: "admin_store option \<Rightarrow> admin_server" where
  "toy_server st = \<lparr>sv_admins = st, sv_bootstrap = ''boot'', sv_sessions = []\<rparr>"

definition users_request :: "string \<Rightarrow> http_request" where
  "users_request tok = plain_request GET [''api'', ''v1'', ''users''] (''Bearer '' @ tok)"

lemma users_route: "route_of GET [''api'', ''v1'', ''users''] = ListUsers"
  by (simp add: route_of_def api_rest_def)

lemma users_request_facts:
  "protected (users_request tok)" "request_token (users_request ''boot'') = ''boot''"
  "request_token (users_request ''guess'') = ''guess''"
  by (simp_all add: protected_def users_request_def plain_request_def users_route open_route_def
      request_token_def BearerToken_def trim_def is_space_def)

theorem admin_access_exact_witness:
  "\<forall>benv b. fst (Handler (toy_aenv benv) (users_request ''boot'') (toy_server None, b)) =
      listUsers (toy_aenv benv) (users_request ''boot'') b \<and>
    fst (Handler (toy_aenv benv) (users_request ''guess'') (toy_server None, b)) = unauthorized"
proof (intro allI conjI)
  fix benv b
  show "fst (Handler (toy_aenv benv) (users_request ''boot'') (toy_server None, b)) =
      listUsers (toy_aenv benv) (users_request ''boot'') b"
    using admin_access_exact [of "toy_server None" "[]" "toy_aenv benv" "users_request ''boot''" b "toy_server None" b]
    by (simp add: users_request_facts toy_server_def)
      (simp add: users_request_def plain_request_def users_route)
  show "fst (Handler (toy_aenv benv) (users_request ''guess'') (toy_server None, b)) = unauthorized"
    using admin_access_exact [of "toy_server None" "[]" "toy_aenv benv" "users_request ''guess''" b "toy_server None" b]
    by (simp add: users_request_facts toy_server_def)
qed



end
