(* ===== verification/Socks.thy ===== *)
theory Socks
  imports Proto NetIp
begin

text \<open>
  \<^verbatim>\<open>internal/socks/socks.go\<close>: the SOCKS5 proxy. A client connection is the bytes it sends and the bytes
  written to it. The interface-bound resolver and dialer, the system resolver, the text form of IPv6
  addresses and whether a write succeeds are the record \<open>socks_env\<close>; the two copy loops that follow a
  successful handshake are its outcome \<open>Spliced\<close>, with the bytes the client has still to send.
\<close>

definition ver5 :: u8 where "ver5 = 5"
definition cmdConnect :: u8 where "cmdConnect = 1"
definition atypIPv4 :: u8 where "atypIPv4 = 1"
definition atypDomain :: u8 where "atypDomain = 3"
definition atypIPv6 :: u8 where "atypIPv6 = 4"
definition repSuccess :: u8 where "repSuccess = 0"
definition repGenFailure :: u8 where "repGenFailure = 1"
definition repHostUnreach :: u8 where "repHostUnreach = 4"
definition repCmdNotSupp :: u8 where "repCmdNotSupp = 7"
definition repAddrNotSupp :: u8 where "repAddrNotSupp = 8"
definition methodNoAuth :: u8 where "methodNoAuth = 0"
definition methodNoneMatch :: u8 where "methodNoneMatch = 0xFF"

lemmas socks_consts = ver5_def cmdConnect_def atypIPv4_def atypDomain_def atypIPv6_def

record socks_env =
  sk_parse6 :: "string \<Rightarrow> parse_error + addr"
  sk_show6 :: "bytes \<Rightarrow> string"
  sk_tunnel_lookup :: "string \<Rightarrow> string list option"
  sk_system_lookup :: "string \<Rightarrow> string list option"
  sk_dial :: "string \<Rightarrow> bool"
  sk_write :: "bytes \<Rightarrow> bool"

datatype socks_error = errCmdNotSupported | errAddrNotSupported | BadVersion u8 | ReadErr frame_error

section \<open>Handshake\<close>

text \<open>The bytes written, and what is left to read when a method was agreed on.\<close>

definition negotiateAuth :: "socks_env \<Rightarrow> bytes \<Rightarrow> bytes \<times> bytes option" where
  "negotiateAuth env inp =
    (case ReadFull 2 inp of
       (Inl _, _) \<Rightarrow> ([], None)
     | (Inr head, r) \<Rightarrow>
         if head ! 0 \<noteq> ver5 then ([], None)
         else (case ReadFull (unat (head ! 1)) r of
                 (Inl _, _) \<Rightarrow> ([], None)
               | (Inr methods, r) \<Rightarrow>
                   if methodNoAuth \<in> set methods
                   then ([ver5, methodNoAuth], if sk_write env [ver5, methodNoAuth] then Some r else None)
                   else ([ver5, methodNoneMatch], None)))"

definition bytes_text :: "bytes \<Rightarrow> string" where
  "bytes_text bs = map (\<lambda>b. char_of (unat b)) bs"

text \<open>The host of a request by its address type.\<close>

definition read_host :: "socks_env \<Rightarrow> u8 \<Rightarrow> bytes \<Rightarrow> (socks_error + string) \<times> bytes" where
  "read_host env atyp inp =
    (if atyp = atypIPv4 then
       (case ReadFull 4 inp of
          (Inl e, r) \<Rightarrow> (Inl (ReadErr e), r)
        | (Inr b, r) \<Rightarrow> (Inr (string4 (be_get b)), r))
     else if atyp = atypIPv6 then
       (case ReadFull 16 inp of
          (Inl e, r) \<Rightarrow> (Inl (ReadErr e), r)
        | (Inr b, r) \<Rightarrow> (Inr (sk_show6 env b), r))
     else if atyp = atypDomain then
       (case ReadFull 1 inp of
          (Inl e, r) \<Rightarrow> (Inl (ReadErr e), r)
        | (Inr l, r) \<Rightarrow>
            (case ReadFull (unat (l ! 0)) r of
               (Inl e, r) \<Rightarrow> (Inl (ReadErr e), r)
             | (Inr b, r) \<Rightarrow> (Inr (bytes_text b), r)))
     else (Inl errAddrNotSupported, inp))"

definition readRequest :: "socks_env \<Rightarrow> bytes \<Rightarrow> (socks_error + string \<times> string) \<times> bytes" where
  "readRequest env inp =
    (case ReadFull 4 inp of
       (Inl e, r) \<Rightarrow> (Inl (ReadErr e), r)
     | (Inr head, r) \<Rightarrow>
         if head ! 0 \<noteq> ver5 then (Inl (BadVersion (head ! 0)), r)
         else if head ! 1 \<noteq> cmdConnect then (Inl errCmdNotSupported, r)
         else (case read_host env (head ! 3) r of
                 (Inl e, r) \<Rightarrow> (Inl e, r)
               | (Inr host, r) \<Rightarrow>
                   (case ReadFull 2 r of
                      (Inl e, r) \<Rightarrow> (Inl (ReadErr e), r)
                    | (Inr pb, r) \<Rightarrow> (Inr (host, show_nat (unat (be_get pb :: u16))), r))))"

definition socks_reply :: "u8 \<Rightarrow> bytes" where
  "socks_reply code = [ver5, code, 0, atypIPv4, 0, 0, 0, 0, 0, 0]"

definition error_reply :: "socks_error \<Rightarrow> u8" where
  "error_reply e =
    (case e of errCmdNotSupported \<Rightarrow> repCmdNotSupp | errAddrNotSupported \<Rightarrow> repAddrNotSupp | _ \<Rightarrow> repGenFailure)"

section \<open>The connection\<close>

text \<open>\<open>net.JoinHostPort\<close> and the test \<open>net.ParseIP(host) == nil\<close>.\<close>

definition JoinHostPort :: "string \<Rightarrow> string \<Rightarrow> string" where
  "JoinHostPort host port =
    (if CHR '':'' \<in> set host \<or> CHR ''%'' \<in> set host then ''['' @ host @ '']:'' @ port else host @ '':'' @ port)"

definition is_ip :: "socks_env \<Rightarrow> string \<Rightarrow> bool" where
  "is_ip env host = (CHR ''%'' \<notin> set host \<and> (case ParseAddr (sk_parse6 env) host of Inl _ \<Rightarrow> False | Inr _ \<Rightarrow> True))"

definition socks_resolve :: "socks_env \<Rightarrow> string \<Rightarrow> string option" where
  "socks_resolve env host =
    (case sk_tunnel_lookup env host of
       Some (ip # _) \<Rightarrow> Some ip
     | _ \<Rightarrow> (case sk_system_lookup env host of Some (ip # _) \<Rightarrow> Some ip | _ \<Rightarrow> None))"

datatype socks_outcome = ClientClosed | Spliced string bytes

text \<open>The address \<open>handle\<close> dials for a request.\<close>

definition dial_target :: "socks_env \<Rightarrow> string \<Rightarrow> string \<Rightarrow> string option" where
  "dial_target env host port =
    (if is_ip env host then Some (JoinHostPort host port)
     else map_option (\<lambda>ip. JoinHostPort ip port) (socks_resolve env host))"

definition socks_handle :: "socks_env \<Rightarrow> bytes \<Rightarrow> bytes \<times> socks_outcome" where
  "socks_handle env inp =
    (case negotiateAuth env inp of
       (out, None) \<Rightarrow> (out, ClientClosed)
     | (out, Some r) \<Rightarrow>
         (case readRequest env r of
            (Inl e, _) \<Rightarrow> (out @ socks_reply (error_reply e), ClientClosed)
          | (Inr (host, port), r) \<Rightarrow>
              (case dial_target env host port of
                 None \<Rightarrow> (out @ socks_reply repHostUnreach, ClientClosed)
               | Some target \<Rightarrow>
                   if \<not> sk_dial env target then (out @ socks_reply repHostUnreach, ClientClosed)
                   else (out @ socks_reply repSuccess,
                         if sk_write env (socks_reply repSuccess) then Spliced target r else ClientClosed))))"

section \<open>The requests a client can make\<close>

datatype socks_target = TargetIPv4 u32 | TargetIPv6 bytes | TargetDomain bytes

fun target_ok :: "socks_target \<Rightarrow> bool" where
  "target_ok (TargetIPv4 w) = True"
| "target_ok (TargetIPv6 b) = (length b = 16)"
| "target_ok (TargetDomain b) = (length b < 256)"

fun target_bytes :: "socks_target \<Rightarrow> bytes" where
  "target_bytes (TargetIPv4 w) = atypIPv4 # As4 w"
| "target_bytes (TargetIPv6 b) = atypIPv6 # b"
| "target_bytes (TargetDomain b) = atypDomain # of_nat (length b) # b"

fun target_host :: "socks_env \<Rightarrow> socks_target \<Rightarrow> string" where
  "target_host env (TargetIPv4 w) = string4 w"
| "target_host env (TargetIPv6 b) = sk_show6 env b"
| "target_host env (TargetDomain b) = bytes_text b"

definition greeting :: "bytes \<Rightarrow> bytes" where
  "greeting methods = ver5 # of_nat (length methods) # methods"

definition connect_request :: "u8 \<Rightarrow> socks_target \<Rightarrow> u16 \<Rightarrow> bytes" where
  "connect_request rsv tgt port = ver5 # cmdConnect # rsv # target_bytes tgt @ be_put 2 port"

lemma ReadFull_exact: "ReadFull n inp = (Inr b, r) \<longleftrightarrow> length b = n \<and> inp = b @ r"
  by (auto simp: ReadFull_def min_def)


lemma ReadFull_cases [case_names short read]:
  obtains e r where "ReadFull n inp = (Inl e, r)"
  | b r where "ReadFull n inp = (Inr b, r)" and "length b = n" and "inp = b @ r"
  by (metis ReadFull_exact obj_sumE surj_pair)

lemma list2: "length xs = 2 \<longleftrightarrow> (\<exists>a b. xs = [a, b])"
  by (auto simp: numeral_2_eq_2 length_Suc_conv)

lemma unat_len8: "length xs < 256 \<Longrightarrow> unat (of_nat (length xs) :: u8) = length xs"
  by (simp add: unat_of_nat)

lemma of_nat_unat8: "length xs = unat (l :: u8) \<Longrightarrow> of_nat (length xs) = l \<and> length xs < 256"
  using unsigned_less [of l] by simp

lemma negotiateAuth_iff:
  "negotiateAuth env inp = (out, Some r) \<longleftrightarrow>
    (\<exists>methods. inp = greeting methods @ r \<and> length methods < 256 \<and> methodNoAuth \<in> set methods
      \<and> out = [ver5, methodNoAuth] \<and> sk_write env [ver5, methodNoAuth])" (is "?L \<longleftrightarrow> ?R")
proof
  assume ?L
  then obtain v n ms r1 where "inp = [v, n] @ r1" "v = ver5" "length ms = unat n" "r1 = ms @ r"
    "methodNoAuth \<in> set ms" "out = [ver5, methodNoAuth]" "sk_write env [ver5, methodNoAuth]"
    by (auto simp: negotiateAuth_def ReadFull_exact list2 simp del: ReadFull_Inr
        split: prod.splits sum.splits if_splits)
  then show ?R
    using of_nat_unat8 [of ms n] by (auto simp: greeting_def intro!: exI [of _ ms])
next
  assume ?R
  then show ?L
    by (auto simp: negotiateAuth_def greeting_def ReadFull_def unat_len8)
qed

lemma read_host_iff:
  "read_host env a inp = (Inr h, r) \<longleftrightarrow>
    (\<exists>tgt. target_ok tgt \<and> a # inp = target_bytes tgt @ r \<and> h = target_host env tgt)" (is "?L \<longleftrightarrow> ?R")
proof
  assume L: ?L
  consider (v4) "a = atypIPv4" | (v6) "a = atypIPv6" | (name) "a = atypDomain"
    using L by (auto simp: read_host_def split: if_splits)
  then show ?R
  proof cases
    case v4
    with L obtain b where "length b = 4" "inp = b @ r" "h = string4 (be_get b)"
      by (auto simp: read_host_def ReadFull_exact simp del: ReadFull_Inr split: prod.splits sum.splits)
    with v4 show ?thesis
      using be_put_get [of b, where 'a = 32] by (auto simp: As4_def intro!: exI [of _ "TargetIPv4 (be_get b)"])
  next
    case v6
    with L obtain b where "length b = 16" "inp = b @ r" "h = sk_show6 env b"
      by (auto simp: read_host_def socks_consts ReadFull_exact simp del: ReadFull_Inr split: prod.splits sum.splits)
    with v6 show ?thesis by (auto intro!: exI [of _ "TargetIPv6 b"])
  next
    case name
    with L obtain l b where "inp = l # b @ r" "length b = unat l" "h = bytes_text b"
      by (auto simp: read_host_def socks_consts ReadFull_exact length_Suc_conv simp del: ReadFull_Inr
          split: prod.splits sum.splits)
    with name show ?thesis
      using of_nat_unat8 [of b l] by (auto intro!: exI [of _ "TargetDomain b"])
  qed
next
  assume ?R
  then obtain tgt where "target_ok tgt" "a # inp = target_bytes tgt @ r" "h = target_host env tgt" by blast
  then show ?L
    by (cases tgt) (auto simp: read_host_def socks_consts ReadFull_def As4_def unat_len8)
qed

lemma be_get_put16 [simp]: "be_get (be_put 2 (v :: u16)) = v"
  by (simp add: be_get_put take_bit_word_eq_self)

lemma readRequest_iff:
  "readRequest env inp = (Inr (h, p), r) \<longleftrightarrow>
    (\<exists>rsv tgt port. inp = connect_request rsv tgt port @ r \<and> target_ok tgt \<and> h = target_host env tgt
      \<and> p = show_nat (unat port))" (is "?L \<longleftrightarrow> ?R")
proof
  assume ?L
  then obtain rsv a r1 pb where head: "inp = ver5 # cmdConnect # rsv # a # r1"
    and host: "read_host env a r1 = (Inr h, pb @ r)" and pb: "length pb = 2" "p = show_nat (unat (be_get pb :: u16))"
    by (auto simp: readRequest_def ReadFull_exact numeral_eq_Suc length_Suc_conv simp del: ReadFull_Inr
        split: prod.splits sum.splits if_splits)
  from host obtain tgt where "target_ok tgt" "a # r1 = target_bytes tgt @ pb @ r" "h = target_host env tgt"
    by (auto simp: read_host_iff)
  with head pb show ?R
    using be_put_get [of pb, where 'a = 16]
    by (auto simp: connect_request_def intro!: exI [of _ rsv] exI [of _ tgt] exI [of _ "be_get pb"])
next
  assume ?R
  then obtain rsv tgt port where "inp = connect_request rsv tgt port @ r" "target_ok tgt"
    "h = target_host env tgt" "p = show_nat (unat port)" by blast
  moreover obtain a rest where a: "target_bytes tgt = a # rest" by (cases tgt) auto
  moreover have "read_host env a (rest @ be_put 2 port @ r) = (Inr (target_host env tgt), be_put 2 port @ r)"
    using a \<open>target_ok tgt\<close> by (auto simp: read_host_iff intro!: exI [of _ tgt])
  ultimately show ?L
    by (auto simp: readRequest_def connect_request_def ReadFull_def)
qed

text \<open>
  C20: the proxy splices a connection to a target exactly for the conversations of RFC 1928 it supports: a
  greeting that offers "no authentication", then a CONNECT request for an IPv4 address, an IPv6 address
  or a name, whose address \<open>handle\<close> could derive and dial, with both replies delivered. The bytes after
  the request, and only those, are left for the spliced stream.
\<close>

theorem socks_splice_exact:
  "snd (socks_handle env inp) = Spliced target rest \<longleftrightarrow>
    (\<exists>methods rsv tgt port. inp = greeting methods @ connect_request rsv tgt port @ rest
      \<and> length methods < 256 \<and> methodNoAuth \<in> set methods \<and> target_ok tgt
      \<and> dial_target env (target_host env tgt) (show_nat (unat port)) = Some target \<and> sk_dial env target
      \<and> sk_write env [ver5, methodNoAuth] \<and> sk_write env (socks_reply repSuccess))" (is "?L \<longleftrightarrow> ?R")
proof
  assume ?L
  then obtain out r h p where "negotiateAuth env inp = (out, Some r)" "readRequest env r = (Inr (h, p), rest)"
    "dial_target env h p = Some target" "sk_dial env target" "sk_write env (socks_reply repSuccess)"
    by (auto simp: socks_handle_def split: prod.splits sum.splits option.splits if_splits)
  then show ?R by (auto simp: negotiateAuth_iff readRequest_iff)
next
  assume ?R
  then obtain methods rsv tgt port where inp: "inp = greeting methods @ connect_request rsv tgt port @ rest"
    and ok: "length methods < 256" "methodNoAuth \<in> set methods" "target_ok tgt"
      "sk_write env [ver5, methodNoAuth]"
    and dialled: "dial_target env (target_host env tgt) (show_nat (unat port)) = Some target" "sk_dial env target"
      "sk_write env (socks_reply repSuccess)"
    by blast
  from inp ok have "negotiateAuth env inp = ([ver5, methodNoAuth], Some (connect_request rsv tgt port @ rest))"
    by (auto simp: negotiateAuth_iff)
  moreover from ok have "readRequest env (connect_request rsv tgt port @ rest)
      = (Inr (target_host env tgt, show_nat (unat port)), rest)"
    by (auto simp: readRequest_iff)
  ultimately show ?L using dialled by (simp add: socks_handle_def)
qed

end
