(* ===== verification/Conf.thy ===== *)
theory Conf
  imports GoStrings
begin

text \<open>
  \<^verbatim>\<open>internal/conf/conf.go\<close>: the configuration file. A file is the lines the scanner yields and the error it ends
  with, or does not open. A flag set maps names to flags, and records the names that have been set, as Go's
  \<^verbatim>\<open>flag\<close> package does; which texts a flag accepts is a field of the flag.
\<close>

record flag =
  fg_bool :: bool
  fg_accepts :: "string \<Rightarrow> bool"
  fg_value :: string

record flag_set =
  fs_formal :: "(string, flag) gomap"
  fs_actual :: "string list"

datatype conf_error = NoFile | MissingKey nat | UnknownKey nat string | BadValue nat string | ScanError string

text \<open>\<open>FlagSet.Set\<close> on a known name.\<close>

definition fs_Set :: "string \<Rightarrow> string \<Rightarrow> flag_set \<Rightarrow> flag_set option" where
  "fs_Set key v fs =
    (case mget (fs_formal fs) key of
       None \<Rightarrow> None
     | Some fl \<Rightarrow>
         if fg_accepts fl v
         then Some (fs\<lparr>fs_formal := mput (fs_formal fs) key (fl\<lparr>fg_value := v\<rparr>), fs_actual := key # fs_actual fs\<rparr>)
         else None)"

text \<open>The parts of a line before and after its first \<open>=\<close>, or else its first blank or tab.\<close>

definition splitKV :: "string \<Rightarrow> string \<times> string" where
  "splitKV line =
    (case cut_at (CHR ''='') line of
       Some (k, v) \<Rightarrow> (k, v)
     | None \<Rightarrow>
         (let k = takeWhile (\<lambda>c. c \<noteq> CHR '' '' \<and> c \<noteq> char_of (9 :: nat)) line in
          if length k < length line then (k, drop (Suc (length k)) line) else (line, '''')))"

definition unquote :: "string \<Rightarrow> string" where
  "unquote s =
    (if length s \<ge> 2 \<and> hd s = last s \<and> (hd s = CHR 0x22 \<or> hd s = CHR 0x27) then butlast (tl s) else s)"

definition skip_line :: "string \<Rightarrow> bool" where
  "skip_line line = (line = '''' \<or> hd line = CHR ''#'' \<or> hd line = CHR '';'')"

definition conf_key :: "string \<Rightarrow> string" where
  "conf_key rawKey =
    (let k = TrimSpace rawKey in TrimSpace (case cut_prefix ''-'' k of None \<Rightarrow> k | Some k' \<Rightarrow> k'))"

text \<open>The text a line gives to its flag.\<close>

definition conf_val :: "flag \<Rightarrow> string \<Rightarrow> string" where
  "conf_val fl rawVal =
    (let v = unquote (TrimSpace rawVal) in if v = '''' \<and> fg_bool fl then ''true'' else v)"

text \<open>One round of the loop, for line number \<open>n\<close>; \<open>cli\<close> are the flags of the command line.\<close>

definition apply_line :: "string list \<Rightarrow> nat \<Rightarrow> string \<Rightarrow> flag_set \<Rightarrow> conf_error + flag_set" where
  "apply_line cli n text fs =
    (let line = TrimSpace text in
     if skip_line line then Inr fs
     else
       (let (rawKey, rawVal) = splitKV line; key = conf_key rawKey in
        if key = '''' then Inl (MissingKey n)
        else (case mget (fs_formal fs) key of
                None \<Rightarrow> Inl (UnknownKey n key)
              | Some fl \<Rightarrow>
                  if key \<in> set cli then Inr fs
                  else (case fs_Set key (conf_val fl rawVal) fs of
                          None \<Rightarrow> Inl (BadValue n key)
                        | Some fs \<Rightarrow> Inr fs))))"

fun apply_lines :: "string list \<Rightarrow> nat \<Rightarrow> string list \<Rightarrow> flag_set \<Rightarrow> conf_error + flag_set" where
  "apply_lines cli n [] fs = Inr fs"
| "apply_lines cli n (l # ls) fs =
    (case apply_line cli (Suc n) l fs of Inl e \<Rightarrow> Inl e | Inr fs \<Rightarrow> apply_lines cli (Suc n) ls fs)"

definition ApplyFile :: "(string list \<times> string option) option \<Rightarrow> flag_set \<Rightarrow> conf_error + flag_set" where
  "ApplyFile file fs =
    (case file of
       None \<Rightarrow> Inl NoFile
     | Some (lines, err) \<Rightarrow>
         (case apply_lines (fs_actual fs) 0 lines fs of
            Inl e \<Rightarrow> Inl e
          | Inr fs \<Rightarrow> (case err of None \<Rightarrow> Inr fs | Some e \<Rightarrow> Inl (ScanError e))))"

section \<open>What a file means\<close>

text \<open>The setting a line makes: its key and the text of its value; the reference reading of a file.\<close>

definition setting :: "string \<Rightarrow> (string \<times> string) option" where
  "setting text =
    (let line = TrimSpace text in
     if skip_line line then None else Some (conf_key (fst (splitKV line)), snd (splitKV line)))"

definition last_setting :: "string \<Rightarrow> string list \<Rightarrow> string option" where
  "last_setting key ls = map_of (rev (List.map_filter setting ls)) key"

definition flag_after :: "string list \<Rightarrow> string list \<Rightarrow> string \<Rightarrow> flag \<Rightarrow> flag" where
  "flag_after cli ls key fl =
    (if key \<in> set cli then fl
     else case last_setting key ls of None \<Rightarrow> fl | Some raw \<Rightarrow> fl\<lparr>fg_value := conf_val fl raw\<rparr>)"

lemma conf_val_value [simp]: "conf_val (fl\<lparr>fg_value := v\<rparr>) raw = conf_val fl raw"
  by (simp add: conf_val_def)

lemma last_setting_Cons:
  "last_setting key (l # ls) =
    (case last_setting key ls of
       Some v \<Rightarrow> Some v
     | None \<Rightarrow> (case setting l of None \<Rightarrow> None | Some (k, v) \<Rightarrow> if k = key then Some v else None))"
  by (auto simp: last_setting_def List.map_filter_def map_add_def split: option.split)

lemma apply_line_flags:
  assumes "apply_line cli n l fs = Inr fs'"
  shows "mget (fs_formal fs') key = map_option (flag_after cli [l] key) (mget (fs_formal fs) key)"
proof (cases "setting l")
  case None
  then have "flag_after cli [l] key fl = fl" for fl by (simp add: flag_after_def last_setting_def List.map_filter_def)
  moreover from None assms have "fs' = fs" by (auto simp: apply_line_def setting_def Let_def split: if_splits)
  ultimately show ?thesis by (cases "mget (fs_formal fs) key") simp_all
next
  case (Some kv)
  obtain k v where kv: "kv = (k, v)" by (cases kv)
  from Some kv have s: "\<not> skip_line (TrimSpace l)" "k = conf_key (fst (splitKV (TrimSpace l)))" "v = snd (splitKV (TrimSpace l))"
    by (auto simp: setting_def Let_def split: if_splits)
  have after: "flag_after cli [l] key fl = (if key \<in> set cli \<or> k \<noteq> key then fl else fl\<lparr>fg_value := conf_val fl v\<rparr>)" for fl
    using Some kv by (simp add: flag_after_def last_setting_def List.map_filter_def)
  from assms s obtain fl where fl: "mget (fs_formal fs) k = Some fl"
    and c: "k \<in> set cli \<and> fs' = fs \<or> k \<notin> set cli \<and> fs_Set k (conf_val fl v) fs = Some fs'"
    by (auto simp: apply_line_def Let_def split: if_splits option.splits prod.splits)
  show ?thesis
  proof (cases "k = key")
    case True
    with fl c show ?thesis by (auto simp: after fs_Set_def split: if_splits)
  next
    case False
    with c fl show ?thesis
      by (cases "mget (fs_formal fs) key") (auto simp: after fs_Set_def split: if_splits)
  qed
qed

text \<open>
  A file that applies gives every flag that was not set on the command line the value of the last line that
  names it, and leaves every other flag alone.
\<close>

lemma ApplyFile_exact:
  assumes "ApplyFile (Some (ls, err)) fs = Inr fs'"
  shows "mget (fs_formal fs') key = map_option (flag_after (fs_actual fs) ls key) (mget (fs_formal fs) key)"
proof -
  have "apply_lines cli n ls fs = Inr fs' \<Longrightarrow>
      mget (fs_formal fs') key = map_option (flag_after cli ls key) (mget (fs_formal fs) key)" for cli n fs
  proof (induction ls arbitrary: n fs)
    case Nil
    then show ?case by (cases "mget (fs_formal fs) key") (simp_all add: flag_after_def last_setting_def List.map_filter_def)
  next
    case (Cons l ls)
    then obtain fs1 where 1: "apply_line cli (Suc n) l fs = Inr fs1" "apply_lines cli (Suc n) ls fs1 = Inr fs'"
      by (auto split: sum.splits)
    have "flag_after cli ls key (flag_after cli [l] key fl) = flag_after cli (l # ls) key fl" for fl
      by (auto simp: flag_after_def last_setting_Cons [of key l ls] last_setting_Cons [of key l "[]"] split: option.split)
        (simp_all add: last_setting_def List.map_filter_def)
    with Cons.IH [OF 1(2)] apply_line_flags [OF 1(1), of key] show ?case
      by (cases "mget (fs_formal fs) key") simp_all
  qed
  with assms show ?thesis by (auto simp: ApplyFile_def split: sum.splits option.splits)
qed

end
