(* ===== verification/Shutdown.thy ===== *)
theory Shutdown
  imports Prelude
begin

text \<open>
  \<^verbatim>\<open>internal/shutdown/shutdown.go\<close>: the signal loop. The signals that arrive, each with its time, are a list; the
  loop ends when it calls \<open>onExit\<close>.
\<close>

datatype os_signal = SIGTERM | SIGINT | SIGTSTP

definition shutdown_window :: "duration \<Rightarrow> duration" where
  "shutdown_window window = (if window \<le> 0 then 3 * second else window)"

text \<open>Whether the loop exits on these signals, with the time of the last press.\<close>

fun OnSignals :: "duration \<Rightarrow> gotime \<Rightarrow> (gotime \<times> os_signal) list \<Rightarrow> bool" where
  "OnSignals window prev [] = False"
| "OnSignals window prev ((now, s) # rest) =
    (if s = SIGTERM then True
     else if prev \<noteq> 0 \<and> now - prev \<le> window then True
     else OnSignals window now rest)"

definition confirmed :: "duration \<Rightarrow> gotime \<Rightarrow> (gotime \<times> os_signal) list \<Rightarrow> bool" where
  "confirmed window prev sigs =
    (\<exists>i < length sigs. snd (sigs ! i) = SIGTERM \<or>
       (let before = (if i = 0 then prev else fst (sigs ! (i - 1)))
        in before \<noteq> 0 \<and> fst (sigs ! i) - before \<le> window))"

text \<open>
  The process exits exactly when a \<open>SIGTERM\<close> arrives, or a second key press within the window of the one
  before it: one stray press never ends it.
\<close>

lemma OnSignals_exact: "OnSignals window prev sigs = confirmed window prev sigs"
proof (induction sigs arbitrary: prev)
  case Nil
  show ?case by (simp add: confirmed_def)
next
  case (Cons x rest)
  obtain now s where x: "x = (now, s)" by (cases x)
  let ?hit = "\<lambda>p ss i. snd (ss ! i) = SIGTERM \<or>
    (let before = (if i = 0 then p else fst (ss ! (i - 1))) in before \<noteq> 0 \<and> fst (ss ! i) - before \<le> window)"
  have "?hit prev (x # rest) (Suc i) \<longleftrightarrow> ?hit now rest i" for i
    by (cases i) (simp_all add: x)
  then have "confirmed window prev (x # rest) \<longleftrightarrow> ?hit prev (x # rest) 0 \<or> confirmed window now rest"
    unfolding confirmed_def by (simp only: length_Cons Ex_less_Suc2)
  with Cons show ?case by (simp add: x)
qed

end
