(* ===== verification/SysStat.thy ===== *)
theory SysStat
  imports GoStrings
begin

text \<open>
  \<^verbatim>\<open>internal/sysstat/sysstat_linux.go\<close>: utilization of the host. The contents of \<^verbatim>\<open>/proc/stat\<close> and \<^verbatim>\<open>/proc/meminfo\<close>
  are lists of lines, or absent; the answer of \<open>Statfs\<close> is a pair of block counts and a block size. Counters
  are 64-bit and wrap; the percentages are rationals.
\<close>

record stat =
  st_CPUPct :: float64
  st_MemPct :: float64
  st_DiskPct :: float64

record sampler =
  sa_lastIdle :: u64
  sa_lastTotal :: u64

text \<open>\<open>strings.Fields\<close>.\<close>

fun fields_acc :: "string \<Rightarrow> string \<Rightarrow> string list" where
  "fields_acc cur [] = (if cur = [] then [] else [cur])"
| "fields_acc cur (c # cs) =
    (if is_space c then (if cur = [] then fields_acc [] cs else cur # fields_acc [] cs)
     else fields_acc (cur @ [c]) cs)"

definition Fields :: "string \<Rightarrow> string list" where
  "Fields s = fields_acc [] s"

text \<open>The value \<open>ParseUint\<close> returns beside its error: 0 on bad syntax, the largest value out of range.\<close>

definition ParseUint :: "string \<Rightarrow> u64" where
  "ParseUint s =
    (if s = [] \<or> \<not> list_all is_digit_char s then 0
     else if read_digits s < 2 ^ 64 then of_nat (read_digits s) else - 1)"

definition clamp :: "float64 \<Rightarrow> float64" where
  "clamp v = (if v < 0 then 0 else if v > 100 then 100 else v)"

text \<open>The loop over the fields after \<open>cpu\<close>, from index \<open>i\<close>.\<close>

fun cpu_loop :: "nat \<Rightarrow> string list \<Rightarrow> u64 \<times> u64 \<Rightarrow> u64 \<times> u64" where
  "cpu_loop i [] acc = acc"
| "cpu_loop i (f # fs) (idleAll, tot) =
    (let v = ParseUint f
     in cpu_loop (Suc i) fs (if i = 3 \<or> i = 4 then idleAll + v else idleAll, tot + v))"

definition readCPU :: "string list option \<Rightarrow> (u64 \<times> u64) option" where
  "readCPU procStat =
    (case procStat of
       Some (l # _) \<Rightarrow>
         (let fields = Fields l in
          if length fields < 5 \<or> hd fields \<noteq> ''cpu'' then None else Some (cpu_loop 0 (tl fields) (0, 0)))
     | _ \<Rightarrow> None)"

definition mem_line :: "string \<Rightarrow> u64 \<times> u64 \<Rightarrow> u64 \<times> u64" where
  "mem_line l acc =
    (let fields = Fields l in
     if length fields < 2 then acc
     else let v = ParseUint (fields ! 1) in
       if fields ! 0 = ''MemTotal:'' then (v, snd acc)
       else if fields ! 0 = ''MemAvailable:'' then (fst acc, v) else acc)"

definition u64_float :: "u64 \<Rightarrow> float64" where
  "u64_float w = of_nat (unat w)"

definition readMem :: "string list option \<Rightarrow> float64" where
  "readMem meminfo =
    (case meminfo of
       None \<Rightarrow> 0
     | Some ls \<Rightarrow>
         (let (memTotal, memAvail) = fold mem_line ls (0, 0) in
          if memTotal = 0 then 0 else clamp ((1 - u64_float memAvail / u64_float memTotal) * 100)))"

definition readDisk :: "(u64 \<times> u64 \<times> u64) option \<Rightarrow> float64" where
  "readDisk statfs =
    (case statfs of
       None \<Rightarrow> 0
     | Some (blocks, bavail, bsize) \<Rightarrow>
         (let tot = blocks * bsize; free = bavail * bsize in
          if tot = 0 then 0 else clamp ((1 - u64_float free / u64_float tot) * 100)))"

definition cpu_pct :: "u64 \<Rightarrow> u64 \<Rightarrow> sampler \<Rightarrow> float64" where
  "cpu_pct idle tot s =
    (if sa_lastTotal s \<noteq> 0 \<and> tot > sa_lastTotal s then
       (let dTotal = u64_float (tot - sa_lastTotal s); dIdle = u64_float (idle - sa_lastIdle s) in
        if dTotal > 0 then clamp ((1 - dIdle / dTotal) * 100) else 0)
     else 0)"

definition Sample ::
  "string list option \<Rightarrow> string list option \<Rightarrow> (u64 \<times> u64 \<times> u64) option \<Rightarrow> sampler \<Rightarrow> stat \<times> sampler" where
  "Sample procStat meminfo statfs s =
    (let (cpu, s) = (case readCPU procStat of
           None \<Rightarrow> (0, s)
         | Some (idle, tot) \<Rightarrow> (cpu_pct idle tot s, \<lparr>sa_lastIdle = idle, sa_lastTotal = tot\<rparr>))
     in (\<lparr>st_CPUPct = cpu, st_MemPct = readMem meminfo, st_DiskPct = readDisk statfs\<rparr>, s))"

lemma clamp_bounds [simp]: "0 \<le> clamp v" "clamp v \<le> 100"
  by (simp_all add: clamp_def)

lemma cpu_pct_bounds: "0 \<le> cpu_pct idle tot s \<and> cpu_pct idle tot s \<le> 100"
  by (simp add: cpu_pct_def Let_def)

text \<open>Every reading is a percentage, whatever the files say and however the counters wrap.\<close>

lemma Sample_bounds:
  assumes "Sample procStat meminfo statfs s = (st, s')"
  shows "{st_CPUPct st, st_MemPct st, st_DiskPct st} \<subseteq> {0..100}"
proof -
  have "0 \<le> readMem m \<and> readMem m \<le> 100" "0 \<le> readDisk d \<and> readDisk d \<le> 100" for m d
    by (auto simp: readMem_def readDisk_def Let_def split: option.split prod.split)
  with assms cpu_pct_bounds show ?thesis
    by (auto simp: Sample_def split: option.splits prod.splits)
qed

text \<open>The fields of a text have no blanks in them and are not empty.\<close>

lemma fields_acc_plain:
  "f \<in> set (fields_acc cur s) \<Longrightarrow> list_all (\<lambda>c. \<not> is_space c) cur \<Longrightarrow> f \<noteq> [] \<and> list_all (\<lambda>c. \<not> is_space c) f"
  by (induction cur s rule: fields_acc.induct) (auto split: if_splits)

lemma Fields_plain: "f \<in> set (Fields s) \<Longrightarrow> f \<noteq> [] \<and> list_all (\<lambda>c. \<not> is_space c) f"
  unfolding Fields_def by (erule fields_acc_plain) simp

end
