(* ===== verification/QosSql.thy ===== *)
theory QosSql
  imports QosStore
begin

text \<open>
  \<^verbatim>\<open>internal/qos/sqlite.go\<close>: the SQLite backend of the history. The table is the list of its rows in the order of
  their key, which the database increments; whether the database accepts a statement is an argument. Times and
  text go through their column codecs unchanged.
\<close>

record sqlite_backend =
  qb_rows :: "(nat \<times> qos_event) list"
  qb_seq :: nat
  qb_maxRows :: nat
  qb_inserts :: nat

definition defaultSQLiteMaxRows :: nat where
  "defaultSQLiteMaxRows = 50000"

definition pruneEvery :: nat where
  "pruneEvery = 256"

text \<open>Opening finds the rows and the last key of the table.\<close>

definition NewSQLiteHistory :: "(nat \<times> qos_event) list \<Rightarrow> nat \<Rightarrow> sqlite_backend" where
  "NewSQLiteHistory rows seq = \<lparr>qb_rows = rows, qb_seq = seq, qb_maxRows = defaultSQLiteMaxRows, qb_inserts = 0\<rparr>"

text \<open>\<open>DELETE \<dots> WHERE seq <= (SELECT MAX(seq) \<dots>) - maxRows\<close>.\<close>

definition prune :: "sqlite_backend \<Rightarrow> sqlite_backend" where
  "prune q =
    (let top = Max (fst ` set (qb_rows q)) in
     q\<lparr>qb_rows := filter (\<lambda>(i, _). int i > int top - int (qb_maxRows q)) (qb_rows q)\<rparr>)"

definition qb_write :: "bool \<Rightarrow> qos_event \<Rightarrow> sqlite_backend \<Rightarrow> bool \<times> sqlite_backend" where
  "qb_write db_ok ev q =
    (if \<not> db_ok then (False, q)
     else
       (let q = q\<lparr>qb_rows := qb_rows q @ [(Suc (qb_seq q), ev)], qb_seq := Suc (qb_seq q),
                  qb_inserts := Suc (qb_inserts q)\<rparr>
        in (True, if qb_inserts q mod pruneEvery = 0 then prune q else q)))"

definition qb_load :: "int \<Rightarrow> sqlite_backend \<Rightarrow> qos_event list" where
  "qb_load limit q =
    (let newest = rev (map snd (qb_rows q)) in if limit > 0 then take (nat limit) newest else newest)"

section \<open>Pruning\<close>

text \<open>Keys are the consecutive numbers up to the last one given.\<close>

definition qb_ok :: "sqlite_backend \<Rightarrow> bool" where
  "qb_ok q \<longleftrightarrow> length (qb_rows q) \<le> qb_seq q \<and>
     map fst (qb_rows q) = [Suc (qb_seq q) - length (qb_rows q) ..< Suc (qb_seq q)]"

definition qb_writes :: "qos_event list \<Rightarrow> sqlite_backend \<Rightarrow> sqlite_backend" where
  "qb_writes evs q = fold (\<lambda>ev q. snd (qb_write True ev q)) evs q"

lemma prune_drops:
  assumes ok: "qb_ok q" and ne: "qb_rows q \<noteq> []"
  shows "qb_rows (prune q) = drop (length (qb_rows q) - qb_maxRows q) (qb_rows q)" and "qb_ok (prune q)"
proof -
  let ?n = "length (qb_rows q)" and ?m = "qb_seq q"
  from ok have keys: "map fst (qb_rows q) = [Suc ?m - ?n ..< Suc ?m]" and le: "?n \<le> ?m" by (simp_all add: qb_ok_def)
  from ne le have "?m \<in> set [Suc ?m - ?n ..< Suc ?m]" by (cases "qb_rows q") auto
  moreover have "fst ` set (qb_rows q) = set [Suc ?m - ?n ..< Suc ?m]" by (metis keys set_map)
  ultimately have top: "Max (fst ` set (qb_rows q)) = ?m" by (intro Max_eqI) auto
  have nth: "fst (qb_rows q ! i) = Suc ?m - ?n + i" if "i < ?n" for i
  proof -
    have "fst (qb_rows q ! i) = map fst (qb_rows q) ! i" using that by simp
    also have "\<dots> = Suc ?m - ?n + i" unfolding keys using that le by (simp del: upt_Suc)
    finally show ?thesis .
  qed
  have split: "filter (\<lambda>(i, _). int i > int ?m - int k) (qb_rows q) = drop (?n - k) (qb_rows q)" for k
  proof -
    have "\<not> int a > int ?m - int k" if ab: "(a, b) \<in> set (take (?n - k) (qb_rows q))" for a b
    proof -
      from ab obtain i where i: "i < ?n - k" "qb_rows q ! i = (a, b)" by (auto simp: in_set_conv_nth)
      with nth [of i] have "a = Suc ?m - ?n + i" by simp
      with i(1) le show ?thesis by linarith
    qed
    then have "filter (\<lambda>(i, _). int i > int ?m - int k) (take (?n - k) (qb_rows q)) = []"
      by (auto simp: filter_empty_conv)
    moreover have "int a > int ?m - int k" if ab: "(a, b) \<in> set (drop (?n - k) (qb_rows q))" for a b
    proof -
      from ab obtain i where i: "?n - k + i < ?n" "qb_rows q ! (?n - k + i) = (a, b)"
        by (auto simp: in_set_conv_nth less_diff_conv add.commute)
      with nth [of "?n - k + i"] have "a = Suc ?m - ?n + (?n - k + i)" by simp
      with i(1) le show ?thesis by linarith
    qed
    then have "filter (\<lambda>(i, _). int i > int ?m - int k) (drop (?n - k) (qb_rows q)) = drop (?n - k) (qb_rows q)"
      by (auto simp: filter_id_conv)
    moreover have "qb_rows q = take (?n - k) (qb_rows q) @ drop (?n - k) (qb_rows q)" by simp
    ultimately show ?thesis by (metis append_Nil filter_append)
  qed
  show rows: "qb_rows (prune q) = drop (?n - qb_maxRows q) (qb_rows q)"
    by (simp add: prune_def top split Let_def)
  show "qb_ok (prune q)"
  proof -
    have "qb_seq (prune q) = ?m" by (simp add: prune_def Let_def)
    then show ?thesis
      unfolding qb_ok_def rows drop_map [symmetric] keys using le by (simp del: upt_Suc add: min_def)
  qed
qed

lemma qb_write_ok:
  assumes "qb_ok q"
  shows "qb_ok (snd (qb_write db_ok ev q))"
proof -
  let ?q = "q\<lparr>qb_rows := qb_rows q @ [(Suc (qb_seq q), ev)], qb_seq := Suc (qb_seq q), qb_inserts := Suc (qb_inserts q)\<rparr>"
  from assms have "qb_ok ?q" by (simp add: qb_ok_def)
  with assms show ?thesis by (auto simp: qb_write_def Let_def prune_drops(2))
qed

text \<open>What a write leaves: the newest events of the table and the new one, never fewer than the limit allows.\<close>

lemma qb_write_rows:
  assumes "qb_ok q"
  shows "\<exists>k. map snd (qb_rows (snd (qb_write True ev q))) = drop k (map snd (qb_rows q) @ [ev]) \<and>
    (k = 0 \<or> qb_maxRows q \<le> length (qb_rows (snd (qb_write True ev q))))"
proof -
  let ?q = "q\<lparr>qb_rows := qb_rows q @ [(Suc (qb_seq q), ev)], qb_seq := Suc (qb_seq q), qb_inserts := Suc (qb_inserts q)\<rparr>"
  from assms have "qb_ok ?q" by (simp add: qb_ok_def)
  then have p: "qb_rows (prune ?q) = drop (length (qb_rows ?q) - qb_maxRows q) (qb_rows ?q)"
    using prune_drops(1) [of ?q] by simp
  show ?thesis
  proof (cases "Suc (qb_inserts q) mod pruneEvery = 0")
    case True
    with p show ?thesis
      by (intro exI [of _ "length (qb_rows ?q) - qb_maxRows q"], cases "qb_maxRows q")
        (auto simp: qb_write_def Let_def drop_map)
  next
    case False
    then show ?thesis by (intro exI [of _ 0]) (simp add: qb_write_def Let_def)
  qed
qed

lemma qb_write_bound:
  assumes "qb_ok q" and "length (qb_rows q) \<le> qb_maxRows q + qb_inserts q mod pruneEvery"
  shows "length (qb_rows (snd (qb_write db_ok ev q))) \<le>
    qb_maxRows (snd (qb_write db_ok ev q)) + qb_inserts (snd (qb_write db_ok ev q)) mod pruneEvery"
proof -
  let ?q = "q\<lparr>qb_rows := qb_rows q @ [(Suc (qb_seq q), ev)], qb_seq := Suc (qb_seq q), qb_inserts := Suc (qb_inserts q)\<rparr>"
  from assms(1) have "qb_ok ?q" by (simp add: qb_ok_def)
  then have p: "length (qb_rows (prune ?q)) \<le> qb_maxRows q" using prune_drops(1) [of ?q] by simp
  have "qb_maxRows (prune q) = qb_maxRows q" for q by (simp add: prune_def Let_def)
  then show ?thesis using assms(2) p by (auto simp: qb_write_def Let_def mod_Suc)
qed

text \<open>
  Starting from a table within its limit, the table never holds more than 255 rows over it in one process, and
  a load of at most the limit returns the newest events of all those ever written, newest first.
\<close>

lemma qb_writes_bounded:
  assumes "qb_ok q" "qb_inserts q = 0" "length (qb_rows q) \<le> qb_maxRows q"
  shows "length (qb_rows (qb_writes evs q)) < qb_maxRows (qb_writes evs q) + pruneEvery"
proof -
  have "qb_ok q \<Longrightarrow> length (qb_rows q) \<le> qb_maxRows q + qb_inserts q mod pruneEvery \<Longrightarrow>
      length (qb_rows (qb_writes evs q)) \<le> qb_maxRows (qb_writes evs q) + qb_inserts (qb_writes evs q) mod pruneEvery" for q
    by (induction evs arbitrary: q) (simp_all add: qb_writes_def qb_write_ok qb_write_bound)
  with assms have "length (qb_rows (qb_writes evs q)) \<le>
      qb_maxRows (qb_writes evs q) + qb_inserts (qb_writes evs q) mod pruneEvery" by simp
  moreover have "qb_inserts (qb_writes evs q) mod pruneEvery < pruneEvery" by (simp add: pruneEvery_def)
  ultimately show ?thesis by linarith
qed

lemma drop_snoc: "k \<le> length xs \<Longrightarrow> drop j (drop k xs @ [e]) = drop (j + k) (xs @ [e])"
proof -
  assume "k \<le> length xs"
  then have "drop k xs @ [e] = drop k (xs @ [e])" by simp
  then show ?thesis by (simp only: drop_drop)
qed

lemma take_rev_drop: "k = 0 \<or> n \<le> length xs - k \<Longrightarrow> take n (rev (drop k xs)) = take n (rev xs)"
  by (auto simp: rev_drop min_def)

lemma qb_writes_suffix:
  assumes "qb_ok q"
  shows "\<exists>k. map snd (qb_rows (qb_writes evs q)) = drop k (map snd (qb_rows q) @ evs) \<and>
    (k = 0 \<or> qb_maxRows q \<le> length (qb_rows (qb_writes evs q)))"
  using assms
proof (induction evs rule: rev_induct)
  case Nil
  show ?case by (intro exI [of _ 0]) (simp add: qb_writes_def)
next
  case (snoc ev evs)
  let ?q = "qb_writes evs q" and ?q' = "qb_writes (evs @ [ev]) q"
  have q': "?q' = snd (qb_write True ev ?q)" by (simp add: qb_writes_def)
  have ok: "qb_ok ?q" using snoc.prems by (induction evs arbitrary: q) (simp_all add: qb_writes_def qb_write_ok)
  have max: "qb_maxRows ?q = qb_maxRows q"
    by (induction evs arbitrary: q) (simp_all add: qb_writes_def qb_write_def prune_def Let_def)
  from snoc obtain k where k: "map snd (qb_rows ?q) = drop k (map snd (qb_rows q) @ evs)"
    "k = 0 \<or> qb_maxRows q \<le> length (qb_rows ?q)" by auto
  from qb_write_rows [OF ok, of ev] obtain j where j: "map snd (qb_rows ?q') = drop j (map snd (qb_rows ?q) @ [ev])"
    "j = 0 \<or> qb_maxRows q \<le> length (qb_rows ?q')" by (auto simp: q' max)
  have len: "length (qb_rows ?q) = length (map snd (qb_rows q) @ evs) - k" using arg_cong [OF k(1), of length] by simp
  have len': "length (qb_rows ?q') = length (qb_rows ?q) + 1 - j" using arg_cong [OF j(1), of length] by simp
  show ?case
  proof (cases "k \<le> length (map snd (qb_rows q) @ evs)")
    case True
    then have "map snd (qb_rows ?q') = drop (j + k) (map snd (qb_rows q) @ evs @ [ev])"
      unfolding j(1) k(1) by (subst drop_snoc) simp_all
    moreover have "j + k = 0 \<or> qb_maxRows q \<le> length (qb_rows ?q')" using j(2) k(2) len' by auto
    ultimately show ?thesis by blast
  next
    case False
    then have "qb_rows ?q = []" using len by simp
    with k(2) False have "qb_maxRows q = 0" by auto
    moreover have "map snd (qb_rows ?q') = drop j [ev]" using j(1) \<open>qb_rows ?q = []\<close> by simp
    then have "map snd (qb_rows ?q') = drop (length (map snd (qb_rows q) @ evs) + j) (map snd (qb_rows q) @ evs @ [ev])"
      by simp
    ultimately show ?thesis by (metis zero_le)
  qed
qed

lemma qb_load_recent:
  assumes "qb_ok q" "0 < limit" "limit \<le> int (qb_maxRows q)"
  shows "qb_load limit (qb_writes evs q) = take (nat limit) (rev (map snd (qb_rows q) @ evs))"
proof -
  from qb_writes_suffix [OF assms(1), of evs] obtain k where
    k: "map snd (qb_rows (qb_writes evs q)) = drop k (map snd (qb_rows q) @ evs)"
    "k = 0 \<or> qb_maxRows q \<le> length (qb_rows (qb_writes evs q))" by blast
  let ?all = "map snd (qb_rows q) @ evs"
  have "length (qb_rows (qb_writes evs q)) = length ?all - k" using arg_cong [OF k(1), of length] by simp
  with k(2) assms(2,3) have "k = 0 \<or> nat limit \<le> length ?all - k" by auto
  then have "take (nat limit) (rev (drop k ?all)) = take (nat limit) (rev ?all)"
    by (rule take_rev_drop)
  with k(1) assms(2) show ?thesis by (simp add: qb_load_def)
qed

end
