(* ===== verification/Flags.thy ===== *)
theory Flags
  imports Conf
begin

text \<open>
  The command line: Go's \<^verbatim>\<open>flag\<close> package as the programs use it, over the flag sets of \<open>Conf\<close>. A flag set parses an
  argument vector up to the first argument that is not a flag.
\<close>

datatype flag_error = BadSyntax string | NotDefined string | NeedsArgument string | InvalidValue string string

text \<open>The name and value of \<open>name=value\<close>; an equals sign in the first place belongs to the name.\<close>

definition cut_value :: "string \<Rightarrow> string \<times> string option" where
  "cut_value name =
    (case name of
       [] \<Rightarrow> ([], None)
     | c # cs \<Rightarrow> (case cut_at (CHR ''='') cs of None \<Rightarrow> (name, None) | Some (a, b) \<Rightarrow> (c # a, Some b)))"

definition set_flag :: "string \<Rightarrow> string \<Rightarrow> flag_set \<Rightarrow> flag_error + flag_set" where
  "set_flag name v fs = (case fs_Set name v fs of None \<Rightarrow> Inl (InvalidValue name v) | Some fs \<Rightarrow> Inr fs)"

text \<open>Is the argument a flag, and its text after the hyphens.\<close>

definition flag_text :: "string \<Rightarrow> string option" where
  "flag_text s =
    (if length s < 2 \<or> hd s \<noteq> CHR ''-'' then None
     else if s ! 1 = CHR ''-'' then (if length s = 2 then None else Some (drop 2 s))
     else Some (drop 1 s))"

fun flag_Parse :: "string list \<Rightarrow> flag_set \<Rightarrow> flag_error + flag_set" where
  "flag_Parse [] fs = Inr fs"
| "flag_Parse (s # rest) fs =
    (case flag_text s of
       None \<Rightarrow> Inr fs
     | Some name \<Rightarrow>
         if name = [] \<or> hd name = CHR ''-'' \<or> hd name = CHR ''='' then Inl (BadSyntax s)
         else
           (case cut_value name of
              (name, v) \<Rightarrow>
                (case mget (fs_formal fs) name of
                   None \<Rightarrow> Inl (NotDefined name)
                 | Some fl \<Rightarrow>
                     (case v of
                        Some v \<Rightarrow> (case set_flag name v fs of Inl e \<Rightarrow> Inl e | Inr fs \<Rightarrow> flag_Parse rest fs)
                      | None \<Rightarrow>
                          if fg_bool fl then
                            (case set_flag name ''true'' fs of Inl e \<Rightarrow> Inl e | Inr fs \<Rightarrow> flag_Parse rest fs)
                          else
                            (case rest of
                               [] \<Rightarrow> Inl (NeedsArgument name)
                             | v # rest \<Rightarrow> (case set_flag name v fs of Inl e \<Rightarrow> Inl e | Inr fs \<Rightarrow> flag_Parse rest fs))))))"

text \<open>\<open>strconv.ParseBool\<close>.\<close>

definition ParseBool :: "string \<Rightarrow> bool option" where
  "ParseBool s =
    (if s \<in> {''1'', ''t'', ''T'', ''true'', ''TRUE'', ''True''} then Some True
     else if s \<in> {''0'', ''f'', ''F'', ''false'', ''FALSE'', ''False''} then Some False else None)"

definition show_bool :: "bool \<Rightarrow> string" where
  "show_bool b = (if b then ''true'' else ''false'')"

definition flag_Value :: "flag_set \<Rightarrow> string \<Rightarrow> string" where
  "flag_Value fs name = (case mget (fs_formal fs) name of None \<Rightarrow> '''' | Some fl \<Rightarrow> fg_value fl)"

definition flag_Bool :: "flag_set \<Rightarrow> string \<Rightarrow> bool" where
  "flag_Bool fs name = (ParseBool (flag_Value fs name) = Some True)"

definition string_flag :: "string \<Rightarrow> flag" where
  "string_flag dflt = \<lparr>fg_bool = False, fg_accepts = \<lambda>_. True, fg_value = dflt\<rparr>"

definition bool_flag :: "bool \<Rightarrow> flag" where
  "bool_flag dflt = \<lparr>fg_bool = True, fg_accepts = \<lambda>s. ParseBool s \<noteq> None, fg_value = show_bool dflt\<rparr>"

text \<open>A flag of another type, whose texts are those \<open>ok\<close> accepts.\<close>

definition value_flag :: "(string \<Rightarrow> bool) \<Rightarrow> string \<Rightarrow> flag" where
  "value_flag ok dflt = \<lparr>fg_bool = False, fg_accepts = ok, fg_value = dflt\<rparr>"

section \<open>Lemmas\<close>

lemma ParseBool_show [simp]: "ParseBool (show_bool b) = Some b"
  by (simp add: ParseBool_def show_bool_def)

lemma flag_Value_set:
  "fs_Set key v fs = Some fs' \<Longrightarrow> flag_Value fs' name = (if name = key then v else flag_Value fs name)"
  by (auto simp: fs_Set_def flag_Value_def split: option.splits if_splits)

text \<open>A plain flag name with its value as the next argument, whatever the value looks like.\<close>

definition plain_name :: "string \<Rightarrow> bool" where
  "plain_name name = (name \<noteq> [] \<and> hd name \<noteq> CHR ''-'' \<and> hd name \<noteq> CHR ''='' \<and> CHR ''='' \<notin> set name)"

lemma cut_at_None: "c \<notin> set s \<Longrightarrow> cut_at c s = None"
  by (induction s) auto

lemma cut_at_Some: "c \<notin> set s \<Longrightarrow> cut_at c (s @ c # t) = Some (s, t)"
  by (induction s) auto

lemma flag_text_plain: "plain_name name \<Longrightarrow> flag_text (CHR ''-'' # name @ t) = Some (name @ t)"
  by (cases name) (auto simp: flag_text_def plain_name_def)

lemma flag_Parse_string:
  assumes "plain_name name" "mget (fs_formal fs) name = Some (string_flag d)"
  shows "flag_Parse ((CHR ''-'' # name) # v # rest) fs =
    flag_Parse rest (fs\<lparr>fs_formal := mput (fs_formal fs) name (string_flag v), fs_actual := name # fs_actual fs\<rparr>)"
proof -
  have "cut_value name = (name, None)" using assms(1) by (cases name) (auto simp: cut_value_def plain_name_def cut_at_None)
  moreover have "flag_text (CHR ''-'' # name) = Some name" using flag_text_plain [OF assms(1), of "[]"] by simp
  ultimately show ?thesis
    using assms by (simp add: plain_name_def set_flag_def fs_Set_def string_flag_def)
qed

lemma flag_Parse_bool:
  assumes "plain_name name" "mget (fs_formal fs) name = Some (bool_flag d)"
  shows "flag_Parse ((CHR ''-'' # name @ ''='' @ show_bool b) # rest) fs =
    flag_Parse rest (fs\<lparr>fs_formal := mput (fs_formal fs) name (bool_flag b), fs_actual := name # fs_actual fs\<rparr>)"
    "flag_Parse ((CHR ''-'' # name) # rest) fs =
    flag_Parse rest (fs\<lparr>fs_formal := mput (fs_formal fs) name (bool_flag True), fs_actual := name # fs_actual fs\<rparr>)"
proof -
  obtain c cs where n: "name = c # cs" "CHR ''='' \<notin> set cs" using assms(1) by (cases name) (auto simp: plain_name_def)
  have "cut_value (name @ ''='' @ show_bool b) = (name, Some (show_bool b))" "cut_value name = (name, None)"
    using n by (simp_all add: cut_value_def cut_at_Some cut_at_None)
  moreover have "ParseBool ''true'' = Some True" "show_bool True = ''true''" by (simp_all add: ParseBool_def show_bool_def)
  ultimately show "flag_Parse ((CHR ''-'' # name @ ''='' @ show_bool b) # rest) fs =
      flag_Parse rest (fs\<lparr>fs_formal := mput (fs_formal fs) name (bool_flag b), fs_actual := name # fs_actual fs\<rparr>)"
    "flag_Parse ((CHR ''-'' # name) # rest) fs =
      flag_Parse rest (fs\<lparr>fs_formal := mput (fs_formal fs) name (bool_flag True), fs_actual := name # fs_actual fs\<rparr>)"
    using assms flag_text_plain [OF assms(1), of "''='' @ show_bool b"] flag_text_plain [OF assms(1), of "[]"]
    by (auto simp: plain_name_def set_flag_def fs_Set_def bool_flag_def)
qed

end
