(* ===== verification/Logx.thy ===== *)
theory Logx
  imports GoStrings
begin

text \<open>
  \<^verbatim>\<open>internal/logx/logx.go\<close>: where the log goes and in which form. \<open>opens\<close> is the operating system's answer to
  opening a file for appending; a JSON text is encoded by the argument \<open>enc\<close>.
\<close>

datatype log_dest = Stderr | LogFile string

datatype log_form = LogText | LogJson string

record logger =
  lg_out :: log_dest
  lg_form :: log_form

definition logx_Setup :: "(string \<Rightarrow> string option) \<Rightarrow> (string \<Rightarrow> string) \<Rightarrow> string \<Rightarrow> string \<Rightarrow> string \<Rightarrow> string + logger" where
  "logx_Setup opens quote component file format =
    (case (if file = '''' then Inr Stderr
           else (case opens file of
                   Some err \<Rightarrow> Inl (''open log file '' @ quote file @ '': '' @ err)
                 | None \<Rightarrow> Inr (LogFile file))) of
       Inl err \<Rightarrow> Inl err
     | Inr out \<Rightarrow>
         (let f = map to_lower (trim is_space format) in
          if f = '''' \<or> f = ''text'' then Inr \<lparr>lg_out = out, lg_form = LogText\<rparr>
          else if f = ''json'' then Inr \<lparr>lg_out = out, lg_form = LogJson component\<rparr>
          else Inl (''unknown log type '' @ quote format @ '' (want text|json)'')))"

text \<open>One message of the standard logger as a JSON object, keys in order, on a line of its own.\<close>

definition newline :: char where
  "newline = CHR 0x0A"

definition trim_newlines :: "string \<Rightarrow> string" where
  "trim_newlines s = rev (dropWhile (\<lambda>c. c = newline) (rev s))"

definition json_record :: "(string \<Rightarrow> string) \<Rightarrow> (string \<times> string) list \<Rightarrow> string" where
  "json_record enc kvs =
    ''{'' @ concat (map (\<lambda>(i, k, v). (if i = 0 then '''' else '','') @ enc k @ '':'' @ enc v)
                     (zip [0 ..< length kvs] kvs)) @ ''}''"

definition jsonWriter_Write ::
  "(string \<Rightarrow> string) \<Rightarrow> (string \<Rightarrow> string option) \<Rightarrow> string \<Rightarrow> string \<Rightarrow> string \<Rightarrow> string + nat \<times> string" where
  "jsonWriter_Write enc writes time component p =
    (let line = json_record enc [(''component'', component), (''msg'', trim_newlines p), (''time'', time)] @ [newline] in
     case writes line of Some err \<Rightarrow> Inl err | None \<Rightarrow> Inr (length p, line))"

text \<open>
  If no encoded text holds a line break, as in JSON, a message is exactly one line, and the logger is told that
  all of its bytes were taken.
\<close>

lemma jsonWriter_one_line:
  assumes "\<And>s. newline \<notin> set (enc s)" and "jsonWriter_Write enc writes time component p = Inr (n, line)"
  shows "n = length p \<and> (\<exists>l. line = l @ [newline] \<and> newline \<notin> set l)"
  using assms by (auto simp: jsonWriter_Write_def json_record_def Let_def newline_def split: option.splits)

lemma logx_Setup_iff:
  "(\<exists>lg. logx_Setup opens quote component file format = Inr lg) \<longleftrightarrow>
    (file = '''' \<or> opens file = None) \<and> map to_lower (trim is_space format) \<in> {'''', ''text'', ''json''}"
  by (auto simp: logx_Setup_def Let_def split: option.splits)

end
