(* ===== verification/Pki.thy ===== *)
theory Pki
  imports NetIp GoStrings
begin

text \<open>
  \<^verbatim>\<open>internal/pki/pki.go\<close> and \<^verbatim>\<open>cmd/revquic-certgen/main.go\<close>: the certificate authority, and what of Go's
  \<^verbatim>\<open>crypto/x509\<close> the program uses: creating a certificate, checking a host name, and verifying a chain.

  Cryptography is ideal: a key pair is a number, a certificate carries the number \<open>ct_key\<close> of its own key and
  the number \<open>ct_signer\<close> of the key it was signed with, and a signature checks under exactly that key. A PEM
  file is its blocks. Randomness (keys and serial numbers) and the clock are arguments.
\<close>

section \<open>Certificates\<close>

datatype ext_key_usage = ServerAuth | ClientAuth

datatype key_usage = DigitalSignature | CertSign | CRLSign

record dist_name =
  dn_CommonName :: string
  dn_Organization :: "string list"

record certificate =
  ct_SerialNumber :: nat
  ct_Subject :: dist_name
  ct_Issuer :: dist_name
  ct_NotBefore :: gotime
  ct_NotAfter :: gotime
  ct_KeyUsage :: "key_usage list"
  ct_ExtKeyUsage :: "ext_key_usage list"
  ct_IsCA :: bool
  ct_MaxPathLen :: "nat option"
  ct_DNSNames :: "string list"
  ct_IPAddresses :: "addr list"
  ct_key :: nat
  ct_signer :: nat

datatype pem_block = PemCert certificate | PemKey nat | PemOther

type_synonym pem = "pem_block list"

text \<open>Certificates carry whole seconds.\<close>

definition asn1_time :: "gotime \<Rightarrow> gotime" where
  "asn1_time t = t div second * second"

text \<open>
  \<open>x509.CreateCertificate\<close>: the template under the parent's name with a public key, signed with a private key,
  which must be the parent's own if the parent has one (a self-signed template has none yet).
\<close>

definition CreateCertificate :: "certificate \<Rightarrow> certificate \<Rightarrow> nat option \<Rightarrow> nat \<Rightarrow> nat \<Rightarrow> string + certificate" where
  "CreateCertificate tmpl parent parentKey pub priv =
    (if parentKey \<noteq> None \<and> parentKey \<noteq> Some priv
     then Inl ''x509: provided PrivateKey doesn't match parent's PublicKey''
     else Inr (tmpl\<lparr>ct_Issuer := ct_Subject parent, ct_NotBefore := asn1_time (ct_NotBefore tmpl),
            ct_NotAfter := asn1_time (ct_NotAfter tmpl), ct_key := pub, ct_signer := priv\<rparr>))"

definition blank_certificate :: "nat \<Rightarrow> dist_name \<Rightarrow> certificate" where
  "blank_certificate sn subject =
    \<lparr>ct_SerialNumber = sn, ct_Subject = subject, ct_Issuer = subject, ct_NotBefore = 0, ct_NotAfter = 0,
     ct_KeyUsage = [], ct_ExtKeyUsage = [], ct_IsCA = False, ct_MaxPathLen = None, ct_DNSNames = [],
     ct_IPAddresses = [], ct_key = 0, ct_signer = 0\<rparr>"

section \<open>The authority\<close>

definition revquic_name :: "string \<Rightarrow> dist_name" where
  "revquic_name commonName = \<lparr>dn_CommonName = commonName, dn_Organization = [''Revquic'']\<rparr>"

definition ca_template :: "gotime \<Rightarrow> nat \<Rightarrow> string \<Rightarrow> duration \<Rightarrow> certificate" where
  "ca_template now sn commonName validFor =
    (blank_certificate sn (revquic_name commonName))\<lparr>ct_NotBefore := now - 60 * second, ct_NotAfter := now + validFor,
       ct_KeyUsage := [CertSign, CRLSign, DigitalSignature], ct_IsCA := True, ct_MaxPathLen := Some 0\<rparr>"

text \<open>A draw of randomness: a fresh key and a serial number, or a failing source.\<close>

type_synonym draw = "string + nat \<times> nat"

definition GenerateCA :: "gotime \<Rightarrow> draw \<Rightarrow> string \<Rightarrow> duration \<Rightarrow> string + pem \<times> pem" where
  "GenerateCA now rnd commonName validFor =
    (case rnd of
       Inl err \<Rightarrow> Inl err
     | Inr (key, sn) \<Rightarrow>
         (let tmpl = ca_template now sn commonName validFor in
          case CreateCertificate tmpl tmpl None key key of
            Inl err \<Rightarrow> Inl err
          | Inr der \<Rightarrow> Inr ([PemCert der], [PemKey key])))"

definition parseCA :: "pem \<Rightarrow> pem \<Rightarrow> string + certificate \<times> nat" where
  "parseCA caCertPEM caKeyPEM =
    (case caCertPEM of
       [] \<Rightarrow> Inl ''pki: bad CA cert PEM''
     | PemCert cert # _ \<Rightarrow>
         (case caKeyPEM of
            [] \<Rightarrow> Inl ''pki: bad CA key PEM''
          | PemKey key # _ \<Rightarrow> Inr (cert, key)
          | _ \<Rightarrow> Inl ''x509: failed to parse private key'')
     | _ \<Rightarrow> Inl ''x509: malformed certificate'')"

definition leaf_eku :: "bool \<Rightarrow> bool \<Rightarrow> ext_key_usage list" where
  "leaf_eku server client = (if server then [ServerAuth] else []) @ (if client then [ClientAuth] else [])"

definition leaf_template ::
  "gotime \<Rightarrow> nat \<Rightarrow> string \<Rightarrow> string list \<Rightarrow> addr list \<Rightarrow> bool \<Rightarrow> bool \<Rightarrow> duration \<Rightarrow> certificate" where
  "leaf_template now sn commonName dnsNames ipSANs server client validFor =
    (blank_certificate sn (revquic_name commonName))\<lparr>ct_NotBefore := now - 60 * second, ct_NotAfter := now + validFor,
       ct_KeyUsage := [DigitalSignature], ct_ExtKeyUsage := leaf_eku server client, ct_DNSNames := dnsNames,
       ct_IPAddresses := ipSANs\<rparr>"

definition IssueLeaf ::
  "gotime \<Rightarrow> draw \<Rightarrow> pem \<Rightarrow> pem \<Rightarrow> string \<Rightarrow> string list \<Rightarrow> addr list \<Rightarrow> bool \<Rightarrow> bool \<Rightarrow> duration \<Rightarrow> string + pem \<times> pem" where
  "IssueLeaf now rnd caCertPEM caKeyPEM commonName dnsNames ipSANs server client validFor =
    (case parseCA caCertPEM caKeyPEM of
       Inl err \<Rightarrow> Inl err
     | Inr (caCert, caKey) \<Rightarrow>
         (case rnd of
            Inl err \<Rightarrow> Inl err
          | Inr (key, sn) \<Rightarrow>
              (case CreateCertificate (leaf_template now sn commonName dnsNames ipSANs server client validFor)
                      caCert (Some (ct_key caCert)) key caKey of
                 Inl err \<Rightarrow> Inl err
               | Inr der \<Rightarrow> Inr ([PemCert der], [PemKey key]))))"

section \<open>The command\<close>

text \<open>The list of names of a comma-separated text, without blanks and empty parts.\<close>

definition certgen_splitCSV :: "string \<Rightarrow> string list" where
  "certgen_splitCSV s = filter (\<lambda>p. p \<noteq> '''') (map (trim is_space) (split_at_char (CHR '','') s))"

text \<open>\<open>time.Duration(days) * 24 * time.Hour\<close> in 64 bits.\<close>

definition cert_validity :: "int \<Rightarrow> duration" where
  "cert_validity days = sint (of_int days * 24 * of_int hour :: 64 word)"

text \<open>
  What \<open>main\<close> writes: the files in order, and the error it ends with, if any. The clock and the random draws are
  those of the four certificates; \<open>writes\<close> is the answer of each write.
\<close>

fun write_files :: "(string \<Rightarrow> string option) \<Rightarrow> (string \<times> pem) list \<Rightarrow> (string \<times> pem) list \<Rightarrow> (string \<times> pem) list \<times> string option" where
  "write_files writes [] written = (written, None)"
| "write_files writes ((name, data) # fs) written =
    (case writes name of
       Some err \<Rightarrow> (written, Some (''write '' @ name @ '': '' @ err))
     | None \<Rightarrow> write_files writes fs (written @ [(name, data)]))"

definition and_files ::
  "(string \<times> pem) list \<times> string option \<Rightarrow> ((string \<times> pem) list \<Rightarrow> (string \<times> pem) list \<times> string option) \<Rightarrow> (string \<times> pem) list \<times> string option" where
  "and_files r k = (case r of (fs, None) \<Rightarrow> k fs | (fs, Some err) \<Rightarrow> (fs, Some err))"

fun issue_specs ::
  "(string \<Rightarrow> string option) \<Rightarrow> pem \<Rightarrow> pem \<Rightarrow> duration \<Rightarrow> (gotime \<times> draw \<times> string \<times> bool \<times> bool) list \<Rightarrow>
    (string \<times> pem) list \<Rightarrow> (string \<times> pem) list \<times> string option" where
  "issue_specs writes caCert caKey valid [] files = (files, None)"
| "issue_specs writes caCert caKey valid ((now, rnd, who, server, client) # specs) files =
    (case IssueLeaf now rnd caCert caKey who [] [] server client valid of
       Inl err \<Rightarrow> (files, Some (who @ '' leaf: '' @ err))
     | Inr (c, k) \<Rightarrow>
         and_files (write_files writes [(who @ ''-cert.pem'', c), (who @ ''-key.pem'', k)] files)
           (issue_specs writes caCert caKey valid specs))"

definition certgen ::
  "(string \<Rightarrow> string option) \<Rightarrow> (nat \<Rightarrow> gotime) \<Rightarrow> (nat \<Rightarrow> draw) \<Rightarrow> string option \<Rightarrow> string \<Rightarrow> int \<Rightarrow>
    (string \<times> pem) list \<times> string option" where
  "certgen writes clock rnd mkdir brokerSANs validDays =
    (case mkdir of
       Some err \<Rightarrow> ([], Some (''mkdir: '' @ err))
     | None \<Rightarrow>
         (let valid = cert_validity validDays in
          case GenerateCA (clock 0) (rnd 0) ''Revquic CA'' valid of
            Inl err \<Rightarrow> ([], Some (''ca: '' @ err))
          | Inr (caCert, caKey) \<Rightarrow>
              and_files (write_files writes [(''ca.pem'', caCert), (''ca-key.pem'', caKey)] []) (\<lambda>files.
              case IssueLeaf (clock 1) (rnd 1) caCert caKey ''broker'' (certgen_splitCSV brokerSANs)
                     [Addr4 0x7F000001] True False valid of
                Inl err \<Rightarrow> (files, Some (''broker leaf: '' @ err))
              | Inr (c, k) \<Rightarrow>
                  and_files (write_files writes [(''broker-cert.pem'', c), (''broker-key.pem'', k)] files)
                    (issue_specs writes caCert caKey valid
                       [(clock 2, rnd 2, ''node'', True, True), (clock 3, rnd 3, ''client'', False, True)]))))"

section \<open>Host names\<close>

definition lower :: "string \<Rightarrow> string" where
  "lower s = map to_lower s"

definition trim_dot :: "string \<Rightarrow> string" where
  "trim_dot s = (if s \<noteq> [] \<and> last s = CHR ''.'' then butlast s else s)"

definition label_char :: "nat \<Rightarrow> char \<Rightarrow> bool" where
  "label_char j c =
    (let n = (of_char c :: nat) in
     97 \<le> n \<and> n \<le> 122 \<or> 48 \<le> n \<and> n \<le> 57 \<or> 65 \<le> n \<and> n \<le> 90 \<or> c = CHR ''-'' \<and> j \<noteq> 0 \<or> c = CHR ''_'')"

definition valid_label :: "string \<Rightarrow> bool" where
  "valid_label part = (part \<noteq> [] \<and> (\<forall>j < length part. label_char j (part ! j)))"

definition validHostname :: "bool \<Rightarrow> string \<Rightarrow> bool" where
  "validHostname isPattern host =
    (let host = (if isPattern then host else trim_dot host);
         parts = split_at_char (CHR ''.'') host
     in host \<noteq> [] \<and> host \<noteq> ''*'' \<and>
        (isPattern \<and> hd parts = ''*'' \<or> valid_label (hd parts)) \<and> list_all valid_label (tl parts))"

definition matchExactly :: "string \<Rightarrow> string \<Rightarrow> bool" where
  "matchExactly a b = (a \<notin> {'''', ''.''} \<and> b \<notin> {'''', ''.''} \<and> lower a = lower b)"

definition matchHostnames :: "string \<Rightarrow> string \<Rightarrow> bool" where
  "matchHostnames pattern host =
    (let pattern = lower pattern; host = lower (trim_dot host);
         ps = split_at_char (CHR ''.'') pattern; hs = split_at_char (CHR ''.'') host
     in pattern \<noteq> [] \<and> host \<noteq> [] \<and> length ps = length hs \<and>
        (hd ps = ''*'' \<or> hd ps = hd hs) \<and> tl ps = tl hs)"

definition candidate_ip :: "string \<Rightarrow> string" where
  "candidate_ip h = (if length h \<ge> 3 \<and> hd h = CHR ''['' \<and> last h = CHR '']'' then butlast (tl h) else h)"

definition VerifyHostname :: "(string \<Rightarrow> parse_error + addr) \<Rightarrow> certificate \<Rightarrow> string \<Rightarrow> bool" where
  "VerifyHostname parse6 c h =
    (case ParseAddr parse6 (candidate_ip h) of
       Inr ip \<Rightarrow> ip \<in> set (ct_IPAddresses c)
     | Inl _ \<Rightarrow>
         (let name = lower h in
          \<exists>m \<in> set (ct_DNSNames c).
            if validHostname False name \<and> validHostname True m then matchHostnames m name else matchExactly m name))"

section \<open>Chains\<close>

definition in_validity :: "gotime \<Rightarrow> certificate \<Rightarrow> bool" where
  "in_validity now c = (ct_NotBefore c \<le> now \<and> now \<le> ct_NotAfter c)"

text \<open>
  May \<open>p\<close> follow the chain built so far, whose last certificate is \<open>c\<close>: it is the named issuer and an authority,
  its key verifies the signature, it is in its validity, and the intermediates before it are not too many.
\<close>

definition may_sign :: "gotime \<Rightarrow> certificate list \<Rightarrow> certificate \<Rightarrow> certificate \<Rightarrow> bool" where
  "may_sign now chain c p =
    (ct_Subject p = ct_Issuer c \<and> ct_IsCA p \<and> (ct_KeyUsage p = [] \<or> CertSign \<in> set (ct_KeyUsage p)) \<and> ct_signer c = ct_key p \<and>
     in_validity now p \<and> (case ct_MaxPathLen p of None \<Rightarrow> True | Some n \<Rightarrow> length chain - 1 \<le> n))"

text \<open>The chains from \<open>c\<close>, the last of \<open>chain\<close>; every intermediate is used at most once.\<close>

fun buildChains ::
  "nat \<Rightarrow> gotime \<Rightarrow> certificate list \<Rightarrow> certificate list \<Rightarrow> certificate list \<Rightarrow> certificate \<Rightarrow> certificate list list" where
  "buildChains 0 now roots inters chain c = []"
| "buildChains (Suc n) now roots inters chain c =
    map (\<lambda>p. chain @ [p]) (filter (\<lambda>p. p \<notin> set chain \<and> may_sign now chain c p) roots) @
    concat (map (\<lambda>p. buildChains n now roots inters (chain @ [p]) p)
      (filter (\<lambda>p. p \<notin> set chain \<and> may_sign now chain c p) inters))"

definition usage_ok :: "ext_key_usage \<Rightarrow> certificate \<Rightarrow> bool" where
  "usage_ok eku c = (ct_ExtKeyUsage c = [] \<or> eku \<in> set (ct_ExtKeyUsage c))"

text \<open>\<open>Certificate.Verify\<close> without and with a host name.\<close>

definition x509_Verify ::
  "gotime \<Rightarrow> certificate list \<Rightarrow> certificate list \<Rightarrow> ext_key_usage \<Rightarrow> certificate \<Rightarrow> bool" where
  "x509_Verify now roots inters eku c =
    (in_validity now c \<and>
     (\<exists>chain \<in> set (if c \<in> set roots then [[c]] else buildChains (Suc (length inters)) now roots inters [c] c).
        list_all (usage_ok eku) chain))"

text \<open>
  The validity of \<open>certgen\<close> is the number of days up to 106751; one day more wraps around to a negative
  duration, and the certificates have expired when they are written.
\<close>

lemma cert_validity_exact: "0 \<le> days \<Longrightarrow> days \<le> 106751 \<Longrightarrow> cert_validity days = days * 24 * hour"
proof -
  assume d: "0 \<le> days" "days \<le> 106751"
  have "cert_validity days = sint (of_int (days * 24 * hour) :: 64 word)"
    unfolding cert_validity_def by simp
  also have "\<dots> = signed_take_bit 63 (days * 24 * hour)" by (subst sint_sbintrunc') simp
  also have "\<dots> = days * 24 * hour" using d by (intro signed_take_bit_int_eq_self) simp_all
  finally show ?thesis .
qed

lemma cert_validity_wraps: "cert_validity 106752 < 0"
  by (simp add: cert_validity_def)

end
