(* ===== verification/Quicx.thy ===== *)
theory Quicx
  imports Pki Proto
begin

text \<open>
  \<^verbatim>\<open>internal/quicx/quicx.go\<close>: the configurations of TLS and QUIC. A configuration is the record \<open>tls_config\<close>, with
  the fields of Go's \<^verbatim>\<open>tls.Config\<close> that the program sets; \<open>tls_handshake\<close> is what \<^verbatim>\<open>crypto/tls\<close> makes of a
  client's and a server's configuration. A file is the blocks of its PEM text, or cannot be read.
\<close>

section \<open>Configurations\<close>

record key_pair =
  kp_chain :: "certificate list"
  kp_key :: nat

record tls_config =
  tc_Certificates :: "key_pair list"
  tc_RootCAs :: "certificate list option"
  tc_ClientCAs :: "certificate list"
  tc_RequireClientCert :: bool
  tc_ServerName :: string
  tc_InsecureSkipVerify :: bool
  tc_VerifyPeer :: "(certificate list \<times> ext_key_usage) option"
  tc_NextProtos :: "string list"
  tc_MinVersion :: u16

datatype tls_error = ErrBadCA | ErrNoPeerCert | TlsFailure string

definition base_config :: tls_config where
  "base_config = \<lparr>tc_Certificates = [], tc_RootCAs = None, tc_ClientCAs = [], tc_RequireClientCert = False,
     tc_ServerName = '''', tc_InsecureSkipVerify = False, tc_VerifyPeer = None, tc_NextProtos = [ALPN],
     tc_MinVersion = 0x0304\<rparr>"

text \<open>The certificates of a PEM text; \<open>tls.X509KeyPair\<close>; and the pool of \<open>AppendCertsFromPEM\<close>, if not empty.\<close>

definition pem_certs :: "pem \<Rightarrow> certificate list" where
  "pem_certs p = List.map_filter (\<lambda>b. case b of PemCert c \<Rightarrow> Some c | _ \<Rightarrow> None) p"

definition pem_keys :: "pem \<Rightarrow> nat list" where
  "pem_keys p = List.map_filter (\<lambda>b. case b of PemKey k \<Rightarrow> Some k | _ \<Rightarrow> None) p"

definition X509KeyPair :: "pem \<Rightarrow> pem \<Rightarrow> tls_error + key_pair" where
  "X509KeyPair certPEM keyPEM =
    (case (pem_certs certPEM, pem_keys keyPEM) of
       ([], _) \<Rightarrow> Inl (TlsFailure ''tls: failed to find any PEM data in certificate input'')
     | (_, []) \<Rightarrow> Inl (TlsFailure ''tls: failed to find any PEM data in key input'')
     | (c # cs, k # _) \<Rightarrow>
         if ct_key c = k then Inr \<lparr>kp_chain = c # cs, kp_key = k\<rparr>
         else Inl (TlsFailure ''tls: private key does not match public key''))"

text \<open>The leaf and the pool of authorities that the three mutual configurations start from.\<close>

definition load_leaf_and_pool :: "pem \<Rightarrow> pem \<Rightarrow> pem \<Rightarrow> tls_error + key_pair \<times> certificate list" where
  "load_leaf_and_pool caPEM certPEM keyPEM =
    (case X509KeyPair certPEM keyPEM of
       Inl err \<Rightarrow> Inl err
     | Inr leaf \<Rightarrow> if pem_certs caPEM = [] then Inl ErrBadCA else Inr (leaf, pem_certs caPEM))"

definition ServerMTLS :: "pem \<Rightarrow> pem \<Rightarrow> pem \<Rightarrow> tls_error + tls_config" where
  "ServerMTLS caPEM certPEM keyPEM =
    (case load_leaf_and_pool caPEM certPEM keyPEM of
       Inl err \<Rightarrow> Inl err
     | Inr (leaf, pool) \<Rightarrow>
         Inr (base_config\<lparr>tc_Certificates := [leaf], tc_ClientCAs := pool, tc_RequireClientCert := True\<rparr>))"

definition ClientMTLS :: "pem \<Rightarrow> pem \<Rightarrow> pem \<Rightarrow> string \<Rightarrow> tls_error + tls_config" where
  "ClientMTLS caPEM certPEM keyPEM serverName =
    (case load_leaf_and_pool caPEM certPEM keyPEM of
       Inl err \<Rightarrow> Inl err
     | Inr (leaf, pool) \<Rightarrow>
         Inr (base_config\<lparr>tc_Certificates := [leaf], tc_RootCAs := Some pool, tc_ServerName := serverName\<rparr>))"

definition ClientMTLSNoSNI :: "pem \<Rightarrow> pem \<Rightarrow> pem \<Rightarrow> tls_error + tls_config" where
  "ClientMTLSNoSNI caPEM certPEM keyPEM =
    (case load_leaf_and_pool caPEM certPEM keyPEM of
       Inl err \<Rightarrow> Inl err
     | Inr (leaf, pool) \<Rightarrow>
         Inr (base_config\<lparr>tc_Certificates := [leaf], tc_InsecureSkipVerify := True,
                tc_VerifyPeer := Some (pool, ServerAuth)\<rparr>))"

text \<open>Reading the three files, the first one that fails giving the error.\<close>

type_synonym files = "string \<Rightarrow> string + pem"

definition read_three :: "files \<Rightarrow> string \<Rightarrow> string \<Rightarrow> string \<Rightarrow> (pem \<Rightarrow> pem \<Rightarrow> pem \<Rightarrow> tls_error + 'a) \<Rightarrow> tls_error + 'a" where
  "read_three fs caPath certPath keyPath k =
    (case fs caPath of
       Inl err \<Rightarrow> Inl (TlsFailure err)
     | Inr ca \<Rightarrow>
         (case fs certPath of
            Inl err \<Rightarrow> Inl (TlsFailure err)
          | Inr cert \<Rightarrow>
              (case fs keyPath of Inl err \<Rightarrow> Inl (TlsFailure err) | Inr key \<Rightarrow> k ca cert key)))"

definition ServerMTLSFromFiles :: "files \<Rightarrow> string \<Rightarrow> string \<Rightarrow> string \<Rightarrow> tls_error + tls_config" where
  "ServerMTLSFromFiles fs caPath certPath keyPath = read_three fs caPath certPath keyPath ServerMTLS"

definition ClientMTLSFromFiles :: "files \<Rightarrow> string \<Rightarrow> string \<Rightarrow> string \<Rightarrow> string \<Rightarrow> tls_error + tls_config" where
  "ClientMTLSFromFiles fs caPath certPath keyPath serverName =
    read_three fs caPath certPath keyPath (\<lambda>ca cert key. ClientMTLS ca cert key serverName)"

definition ClientMTLSNoSNIFromFiles :: "files \<Rightarrow> string \<Rightarrow> string \<Rightarrow> string \<Rightarrow> tls_error + tls_config" where
  "ClientMTLSNoSNIFromFiles fs caPath certPath keyPath = read_three fs caPath certPath keyPath ClientMTLSNoSNI"

text \<open>The self-signed certificate, with the authority bit that it does not encode for lack of basic constraints.\<close>

definition selfSigned :: "gotime \<Rightarrow> string + nat \<Rightarrow> tls_error + key_pair" where
  "selfSigned now rnd =
    (case rnd of
       Inl err \<Rightarrow> Inl (TlsFailure err)
     | Inr key \<Rightarrow>
         (let tmpl = (blank_certificate 1 \<lparr>dn_CommonName = ''revquic-spike'', dn_Organization = []\<rparr>)
                \<lparr>ct_NotBefore := now - hour, ct_NotAfter := now + 24 * hour, ct_KeyUsage := [DigitalSignature, CertSign],
                 ct_ExtKeyUsage := [ServerAuth, ClientAuth], ct_DNSNames := [''localhost'']\<rparr>
          in case CreateCertificate tmpl tmpl None key key of
               Inl err \<Rightarrow> Inl (TlsFailure err)
             | Inr der \<Rightarrow> Inr \<lparr>kp_chain = [der], kp_key = key\<rparr>))"

definition ServerTLS :: "gotime \<Rightarrow> string + nat \<Rightarrow> tls_error + tls_config" where
  "ServerTLS now rnd =
    (case selfSigned now rnd of
       Inl err \<Rightarrow> Inl err
     | Inr cert \<Rightarrow> Inr (base_config\<lparr>tc_Certificates := [cert]\<rparr>))"

definition ClientTLS :: tls_config where
  "ClientTLS = base_config\<lparr>tc_InsecureSkipVerify := True\<rparr>"

record quic_config =
  qc_EnableDatagrams :: bool
  qc_KeepAlivePeriod :: duration
  qc_MaxIdleTimeout :: duration

definition quicx_Config :: quic_config where
  "quicx_Config = \<lparr>qc_EnableDatagrams = True, qc_KeepAlivePeriod = 5 * second, qc_MaxIdleTimeout = 20 * second\<rparr>"

text \<open>
  The environment variable that silences a warning of the QUIC library: whether it has been done, and the
  variable's value.
\<close>

definition quietDatagramBufWarning :: "bool \<times> string \<Rightarrow> bool \<times> string" where
  "quietDatagramBufWarning st =
    (case st of (True, v) \<Rightarrow> (True, v) | (False, v) \<Rightarrow> (True, if v = '''' then ''true'' else v))"

section \<open>Handshake\<close>

definition verifyChain :: "gotime \<Rightarrow> certificate list \<Rightarrow> ext_key_usage \<Rightarrow> certificate list \<Rightarrow> tls_error option" where
  "verifyChain now roots eku certs =
    (case certs of
       [] \<Rightarrow> Some ErrNoPeerCert
     | c # inters \<Rightarrow>
         if x509_Verify now roots inters eku c then None else Some (TlsFailure ''x509: certificate not valid''))"

text \<open>What a client makes of the server's chain.\<close>

definition client_accepts :: "(string \<Rightarrow> parse_error + addr) \<Rightarrow> gotime \<Rightarrow> tls_config \<Rightarrow> certificate list \<Rightarrow> bool" where
  "client_accepts parse6 now cc chain =
    (chain \<noteq> [] \<and>
     (tc_InsecureSkipVerify cc \<or>
      x509_Verify now (case tc_RootCAs cc of None \<Rightarrow> [] | Some pool \<Rightarrow> pool) (tl chain) ServerAuth (hd chain) \<and>
      VerifyHostname parse6 (hd chain) (tc_ServerName cc)) \<and>
     (case tc_VerifyPeer cc of None \<Rightarrow> True | Some (roots, eku) \<Rightarrow> verifyChain now roots eku chain = None))"

text \<open>
  The chain a client sends: its own if one of its issuers is an authority that the server names; and what a
  server makes of it.
\<close>

definition client_offers :: "tls_config \<Rightarrow> tls_config \<Rightarrow> key_pair option" where
  "client_offers sc cc =
    (case tc_Certificates cc of
       [] \<Rightarrow> None
     | kp # _ \<Rightarrow>
         if tc_ClientCAs sc = [] \<or> (\<exists>c \<in> set (kp_chain kp). ct_Issuer c \<in> ct_Subject ` set (tc_ClientCAs sc))
         then Some kp else None)"

definition server_accepts :: "gotime \<Rightarrow> tls_config \<Rightarrow> key_pair option \<Rightarrow> bool" where
  "server_accepts now sc offer =
    (if tc_RequireClientCert sc then
       (case offer of
          None \<Rightarrow> False
        | Some kp \<Rightarrow>
            kp_chain kp \<noteq> [] \<and> ct_key (hd (kp_chain kp)) = kp_key kp \<and>
            x509_Verify now (tc_ClientCAs sc) (tl (kp_chain kp)) ClientAuth (hd (kp_chain kp)))
     else True)"

text \<open>
  A handshake succeeds if the protocols meet, the server shows a chain it has the key of and the client accepts
  it, and the server accepts the client's.
\<close>

definition tls_handshake ::
  "(string \<Rightarrow> parse_error + addr) \<Rightarrow> gotime \<Rightarrow> tls_config \<Rightarrow> tls_config \<Rightarrow> bool" where
  "tls_handshake parse6 now sc cc =
    (set (tc_NextProtos sc) \<inter> set (tc_NextProtos cc) \<noteq> {} \<and>
     (case tc_Certificates sc of
        [] \<Rightarrow> False
      | kp # _ \<Rightarrow>
          kp_chain kp \<noteq> [] \<and> ct_key (hd (kp_chain kp)) = kp_key kp \<and> client_accepts parse6 now cc (kp_chain kp)) \<and>
     server_accepts now sc (client_offers sc cc))"

section \<open>Chains to an authority that allows no intermediates\<close>

lemma buildChains_long:
  assumes "ct_MaxPathLen ca = Some 0" "2 \<le> length chain"
  shows "buildChains n now [ca] inters chain c = []"
  using assms(2)
proof (induction n arbitrary: chain c)
  case (Suc n)
  have "\<not> may_sign now chain c ca" using Suc.prems assms(1) by (simp add: may_sign_def)
  moreover have "buildChains n now [ca] inters (chain @ [p]) p = []" for p using Suc by simp
  ultimately show ?case by simp
qed simp

lemma x509_Verify_ca:
  assumes ca: "ct_MaxPathLen ca = Some 0" "ct_IsCA ca" "CertSign \<in> set (ct_KeyUsage ca)" "ct_ExtKeyUsage ca = []"
  shows "x509_Verify now [ca] inters eku c \<longleftrightarrow> in_validity now c \<and> usage_ok eku c \<and>
    (c = ca \<or> in_validity now ca \<and> ct_signer c = ct_key ca \<and> ct_Issuer c = ct_Subject ca)"
proof -
  have "buildChains n now [ca] inters [c, p] p = []" for n p
    by (simp add: buildChains_long [OF ca(1)])
  then have "buildChains (Suc n) now [ca] inters [c] c =
      (if c \<noteq> ca \<and> may_sign now [c] c ca then [[c, ca]] else [])" for n
    by auto
  then show ?thesis
    using ca by (auto simp: x509_Verify_def may_sign_def usage_ok_def)
qed

section \<open>The files of \<open>certgen\<close>\<close>

text \<open>Reading back from the output directory, and the four certificates.\<close>

definition dir_files :: "(string \<times> pem) list \<Rightarrow> files" where
  "dir_files fs path = (case map_of fs path of None \<Rightarrow> Inl ''no such file'' | Some p \<Rightarrow> Inr p)"

definition ca_cert :: "gotime \<Rightarrow> nat \<times> nat \<Rightarrow> int \<Rightarrow> certificate" where
  "ca_cert now r days = projr (CreateCertificate (ca_template now (snd r) ''Revquic CA'' (cert_validity days))
     (ca_template now (snd r) ''Revquic CA'' (cert_validity days)) None (fst r) (fst r))"

definition leaf_cert ::
  "certificate \<Rightarrow> gotime \<Rightarrow> nat \<times> nat \<Rightarrow> string \<Rightarrow> string list \<Rightarrow> addr list \<Rightarrow> bool \<Rightarrow> bool \<Rightarrow> int \<Rightarrow> certificate" where
  "leaf_cert ca now r who dns ips server client days =
    projr (CreateCertificate (leaf_template now (snd r) who dns ips server client (cert_validity days)) ca
      (Some (ct_key ca)) (fst r) (ct_key ca))"

record cert_set =
  cs_ca :: certificate
  cs_broker :: certificate
  cs_node :: certificate
  cs_client :: certificate

definition certgen_set :: "(nat \<Rightarrow> gotime) \<Rightarrow> (nat \<Rightarrow> nat \<times> nat) \<Rightarrow> string \<Rightarrow> int \<Rightarrow> cert_set" where
  "certgen_set clock r sans days =
    (let ca = ca_cert (clock 0) (r 0) days in
     \<lparr>cs_ca = ca,
      cs_broker = leaf_cert ca (clock 1) (r 1) ''broker'' (certgen_splitCSV sans) [Addr4 0x7F000001] True False days,
      cs_node = leaf_cert ca (clock 2) (r 2) ''node'' [] [] True True days,
      cs_client = leaf_cert ca (clock 3) (r 3) ''client'' [] [] False True days\<rparr>)"

definition cert_files :: "cert_set \<Rightarrow> (string \<times> pem) list" where
  "cert_files cs =
    [(''ca.pem'', [PemCert (cs_ca cs)]), (''ca-key.pem'', [PemKey (ct_key (cs_ca cs))]),
     (''broker-cert.pem'', [PemCert (cs_broker cs)]), (''broker-key.pem'', [PemKey (ct_key (cs_broker cs))]),
     (''node-cert.pem'', [PemCert (cs_node cs)]), (''node-key.pem'', [PemKey (ct_key (cs_node cs))]),
     (''client-cert.pem'', [PemCert (cs_client cs)]), (''client-key.pem'', [PemKey (ct_key (cs_client cs))])]"

lemma write_files_ok: "write_files w fs old = (out, None) \<longleftrightarrow> out = old @ fs \<and> (\<forall>f \<in> set fs. w (fst f) = None)"
  by (induction w fs old rule: write_files.induct) (auto split: option.split)

lemma ca_cert_key [simp]: "ct_key (ca_cert now r days) = fst r" "ct_signer (ca_cert now r days) = fst r"
  by (simp_all add: ca_cert_def CreateCertificate_def)

lemma GenerateCA_cert:
  "GenerateCA now (Inr r) ''Revquic CA'' (cert_validity days) = Inr ([PemCert (ca_cert now r days)], [PemKey (fst r)])"
  by (simp add: GenerateCA_def ca_cert_def CreateCertificate_def Let_def split: prod.split)

lemma IssueLeaf_cert:
  "IssueLeaf now (Inr r) [PemCert ca] [PemKey (ct_key ca)] who dns ips sv cl (cert_validity days) =
    Inr ([PemCert (leaf_cert ca now r who dns ips sv cl days)], [PemKey (fst r)])"
  by (simp add: IssueLeaf_def parseCA_def leaf_cert_def CreateCertificate_def split: prod.split)

lemma leaf_cert_fields [simp]:
  "ct_key (leaf_cert ca now r who dns ips sv cl days) = fst r"
  "ct_signer (leaf_cert ca now r who dns ips sv cl days) = ct_key ca"
  "ct_Issuer (leaf_cert ca now r who dns ips sv cl days) = ct_Subject ca"
  "ct_IsCA (leaf_cert ca now r who dns ips sv cl days) = False"
  "ct_ExtKeyUsage (leaf_cert ca now r who dns ips sv cl days) = leaf_eku sv cl"
  "ct_DNSNames (leaf_cert ca now r who dns ips sv cl days) = dns"
  "ct_IPAddresses (leaf_cert ca now r who dns ips sv cl days) = ips"
  by (simp_all add: leaf_cert_def CreateCertificate_def leaf_template_def blank_certificate_def)

text \<open>A run of the command that ends without an error wrote exactly these files.\<close>

lemma certgen_files:
  assumes "certgen writes clock (\<lambda>i. Inr (r i)) mkdir sans days = (files, None)"
  shows "files = cert_files (certgen_set clock r sans days)"
proof -
  let ?ca = "ca_cert (clock 0) (r 0) days"
  have "IssueLeaf now (Inr q) [PemCert ?ca] [PemKey (fst (r 0))] who dns ips sv cl (cert_validity days) =
    Inr ([PemCert (leaf_cert ?ca now q who dns ips sv cl days)], [PemKey (fst q)])" for now q who dns ips sv cl
    using IssueLeaf_cert [of now q ?ca] by simp
  with assms show ?thesis
    by (auto simp: certgen_def GenerateCA_cert and_files_def write_files_ok certgen_set_def cert_files_def Let_def
        split: option.splits prod.splits)
qed

section \<open>Who can take part\<close>

lemma cert_set_fields [simp]:
  "ct_key (cs_ca (certgen_set clock r sans days)) = fst (r 0)"
  "ct_key (cs_broker (certgen_set clock r sans days)) = fst (r 1)"
  "ct_key (cs_node (certgen_set clock r sans days)) = fst (r 2)"
  "ct_key (cs_client (certgen_set clock r sans days)) = fst (r 3)"
  by (simp_all add: certgen_set_def Let_def)

definition cert_list :: "cert_set \<Rightarrow> certificate list" where
  "cert_list cs = [cs_ca cs, cs_broker cs, cs_node cs, cs_client cs]"

lemma asn1_time_bounds: "asn1_time t \<le> t" "t < asn1_time t + second"
proof -
  have "t = second * (t div second) + t mod second" "0 \<le> t mod second" "t mod second < second" by simp_all
  then show "asn1_time t \<le> t" "t < asn1_time t + second" unfolding asn1_time_def by linarith+
qed

lemma certs_in_validity:
  assumes "\<And>i. i < 4 \<Longrightarrow> clock i \<le> now \<and> now + second \<le> clock i + cert_validity days"
    and "c \<in> set (cert_list (certgen_set clock r sans days))"
  shows "in_validity now c"
proof -
  have valid: "asn1_time (clock i - 60 * second) \<le> now \<and> now \<le> asn1_time (clock i + cert_validity days)" if "i < 4" for i
    using assms(1) [OF that] asn1_time_bounds [of "clock i - 60 * second"]
      asn1_time_bounds [of "clock i + cert_validity days"] by linarith
  show ?thesis
    using assms(2) valid [of 0] valid [of 1] valid [of 2] valid [of 3]
    by (auto simp: cert_list_def certgen_set_def Let_def in_validity_def ca_cert_def leaf_cert_def CreateCertificate_def
        ca_template_def leaf_template_def)
qed

text \<open>
  What the authority of a run of \<open>certgen\<close> vouches for: one of the four certificates, in the role its key usages
  allow; the authority's own certificate names no usage and so passes for every one.
\<close>

definition role_of :: "cert_set \<Rightarrow> ext_key_usage \<Rightarrow> certificate list" where
  "role_of cs eku = filter (usage_ok eku) (cert_list cs)"

lemma role_members [simp]:
  "role_of (certgen_set clock r sans days) ServerAuth =
    (let cs = certgen_set clock r sans days in [cs_ca cs, cs_broker cs, cs_node cs])"
  "role_of (certgen_set clock r sans days) ClientAuth =
    (let cs = certgen_set clock r sans days in [cs_ca cs, cs_node cs, cs_client cs])"
  by (simp_all add: role_of_def cert_list_def certgen_set_def Let_def usage_ok_def leaf_eku_def ca_cert_def
      CreateCertificate_def ca_template_def blank_certificate_def)

lemma Verify_certgen:
  assumes valid: "\<And>i. i < 4 \<Longrightarrow> clock i \<le> now \<and> now + second \<le> clock i + cert_validity days"
    and cs: "cs = certgen_set clock r sans days"
    and unforged: "ct_signer c = ct_key (cs_ca cs) \<Longrightarrow> c \<in> set (cert_list cs)"
  shows "x509_Verify now [cs_ca cs] inters eku c \<longleftrightarrow> c \<in> set (role_of cs eku)"
proof -
  have ca: "ct_MaxPathLen (cs_ca cs) = Some 0" "ct_IsCA (cs_ca cs)" "CertSign \<in> set (ct_KeyUsage (cs_ca cs))"
    "ct_ExtKeyUsage (cs_ca cs) = []"
    by (simp_all add: cs certgen_set_def Let_def ca_cert_def CreateCertificate_def ca_template_def blank_certificate_def)
  have issued: "c = cs_ca cs \<or> ct_signer c = ct_key (cs_ca cs) \<and> ct_Issuer c = ct_Subject (cs_ca cs)"
    if "c \<in> set (cert_list cs)" using that by (auto simp: cert_list_def cs certgen_set_def Let_def)
  show ?thesis
    unfolding x509_Verify_ca [OF ca] role_of_def
    using issued unforged certs_in_validity [of clock now days _ r sans, folded cs] valid
    by (auto simp: cert_list_def)
qed

lemma no_names: "ct_DNSNames c = [] \<Longrightarrow> ct_IPAddresses c = [] \<Longrightarrow> \<not> VerifyHostname parse6 c h"
  by (simp add: VerifyHostname_def Let_def split: sum.split)

lemma certgen_names [simp]:
  "\<not> VerifyHostname parse6 (cs_ca (certgen_set clock r sans days)) h"
  "\<not> VerifyHostname parse6 (cs_node (certgen_set clock r sans days)) h"
  by (simp_all add: no_names certgen_set_def Let_def ca_cert_def CreateCertificate_def ca_template_def blank_certificate_def)

text \<open>The configurations made from the files.\<close>

lemma read_certgen:
  "read_three (dir_files (cert_files cs)) ''ca.pem'' ''broker-cert.pem'' ''broker-key.pem'' k =
    k [PemCert (cs_ca cs)] [PemCert (cs_broker cs)] [PemKey (ct_key (cs_broker cs))]"
  "read_three (dir_files (cert_files cs)) ''ca.pem'' ''node-cert.pem'' ''node-key.pem'' k =
    k [PemCert (cs_ca cs)] [PemCert (cs_node cs)] [PemKey (ct_key (cs_node cs))]"
  "read_three (dir_files (cert_files cs)) ''ca.pem'' ''client-cert.pem'' ''client-key.pem'' k =
    k [PemCert (cs_ca cs)] [PemCert (cs_client cs)] [PemKey (ct_key (cs_client cs))]"
  by (simp_all add: read_three_def dir_files_def cert_files_def)

lemma load_one [simp]:
  "load_leaf_and_pool [PemCert ca] [PemCert c] [PemKey (ct_key c)] = Inr (\<lparr>kp_chain = [c], kp_key = ct_key c\<rparr>, [ca])"
  by (simp add: load_leaf_and_pool_def X509KeyPair_def pem_certs_def pem_keys_def List.map_filter_def)

text \<open>The authority's key has signed no certificate of a configuration but those that \<open>certgen\<close> wrote.\<close>

definition unforged :: "cert_set \<Rightarrow> tls_config \<Rightarrow> bool" where
  "unforged cs cfg \<longleftrightarrow> (\<forall>kp \<in> set (tc_Certificates cfg). \<forall>c \<in> set (kp_chain kp).
     ct_signer c = ct_key (cs_ca cs) \<longrightarrow> c \<in> set (cert_list cs))"

text \<open>
  What the two kinds of client make of a server, and the mutual-TLS server of a client, over the authority of a
  run of \<open>certgen\<close>.
\<close>

lemma accepts_certgen:
  assumes valid: "\<And>i. i < 4 \<Longrightarrow> clock i \<le> now \<and> now + second \<le> clock i + cert_validity days"
    and cs: "cs = certgen_set clock r sans days"
    and unforged: "chain \<noteq> [] \<Longrightarrow> ct_signer (hd chain) = ct_key (cs_ca cs) \<Longrightarrow> hd chain \<in> set (cert_list cs)"
  shows "client_accepts parse6 now (base_config\<lparr>tc_Certificates := kps, tc_RootCAs := Some [cs_ca cs], tc_ServerName := h\<rparr>) chain \<longleftrightarrow>
      chain \<noteq> [] \<and> hd chain = cs_broker cs \<and> VerifyHostname parse6 (cs_broker cs) h"
    and "client_accepts parse6 now (base_config\<lparr>tc_Certificates := kps, tc_InsecureSkipVerify := True,
        tc_VerifyPeer := Some ([cs_ca cs], ServerAuth)\<rparr>) chain \<longleftrightarrow>
      chain \<noteq> [] \<and> hd chain \<in> {cs_ca cs, cs_broker cs, cs_node cs}"
    and "server_accepts now (base_config\<lparr>tc_Certificates := kps, tc_ClientCAs := [cs_ca cs], tc_RequireClientCert := True\<rparr>)
        (Some \<lparr>kp_chain = chain, kp_key = k\<rparr>) \<longleftrightarrow>
      chain \<noteq> [] \<and> ct_key (hd chain) = k \<and> hd chain \<in> {cs_ca cs, cs_node cs, cs_client cs}"
proof -
  have verify: "x509_Verify now [cs_ca cs] inters eku (hd chain) \<longleftrightarrow> hd chain \<in> set (role_of cs eku)" if "chain \<noteq> []" for inters eku
    using Verify_certgen [OF valid cs unforged] that by blast
  show "client_accepts parse6 now (base_config\<lparr>tc_Certificates := kps, tc_RootCAs := Some [cs_ca cs], tc_ServerName := h\<rparr>) chain \<longleftrightarrow>
      chain \<noteq> [] \<and> hd chain = cs_broker cs \<and> VerifyHostname parse6 (cs_broker cs) h"
    using verify by (auto simp: client_accepts_def base_config_def cs Let_def)
  show "client_accepts parse6 now (base_config\<lparr>tc_Certificates := kps, tc_InsecureSkipVerify := True,
        tc_VerifyPeer := Some ([cs_ca cs], ServerAuth)\<rparr>) chain \<longleftrightarrow>
      chain \<noteq> [] \<and> hd chain \<in> {cs_ca cs, cs_broker cs, cs_node cs}"
    using verify by (cases chain) (simp_all add: client_accepts_def verifyChain_def base_config_def cs Let_def)
  show "server_accepts now (base_config\<lparr>tc_Certificates := kps, tc_ClientCAs := [cs_ca cs], tc_RequireClientCert := True\<rparr>)
        (Some \<lparr>kp_chain = chain, kp_key = k\<rparr>) \<longleftrightarrow>
      chain \<noteq> [] \<and> ct_key (hd chain) = k \<and> hd chain \<in> {cs_ca cs, cs_node cs, cs_client cs}"
    using verify by (auto simp: server_accepts_def base_config_def cs Let_def)
qed

text \<open>
  C11: With the certificates of one run of \<open>certgen\<close>, in their validity, exactly the intended parties can talk. The
  client and the exit each complete a handshake with the broker if and only if the server name they expect is one
  of the broker's, and the client with the exit on the direct path. Nobody else can take a part, as long as the authority's
  key signs nothing more: a server that the client or the exit takes for the broker has the broker's key; a server
  that the client takes for an exit has the key of the exit, the broker or the authority; and whoever the broker or
  the exit accepts has the key of a client, an exit or the authority.
\<close>

theorem mtls_roles:
  assumes gen: "certgen writes clock (\<lambda>i. Inr (r i)) mkdir sans days = (files, None)"
    and cs: "cs = certgen_set clock r sans days"
    and broker: "ServerMTLSFromFiles (dir_files files) ''ca.pem'' ''broker-cert.pem'' ''broker-key.pem'' = Inr broker"
    and client: "ClientMTLSFromFiles (dir_files files) ''ca.pem'' ''client-cert.pem'' ''client-key.pem'' h = Inr client"
    and node: "ClientMTLSFromFiles (dir_files files) ''ca.pem'' ''node-cert.pem'' ''node-key.pem'' h = Inr node"
    and direct: "ClientMTLSNoSNIFromFiles (dir_files files) ''ca.pem'' ''client-cert.pem'' ''client-key.pem'' = Inr direct"
    and exit: "ServerMTLSFromFiles (dir_files files) ''ca.pem'' ''node-cert.pem'' ''node-key.pem'' = Inr exit"
    and valid: "\<And>i. i < 4 \<Longrightarrow> clock i \<le> now \<and> now + second \<le> clock i + cert_validity days"
    and unforged: "unforged cs srv" "unforged cs peer"
  shows "(tls_handshake parse6 now broker client \<longleftrightarrow> VerifyHostname parse6 (cs_broker cs) h) \<and>
    (tls_handshake parse6 now broker node \<longleftrightarrow> VerifyHostname parse6 (cs_broker cs) h) \<and>
    tls_handshake parse6 now exit direct \<and>
    (tls_handshake parse6 now srv client \<or> tls_handshake parse6 now srv node \<longrightarrow>
       kp_key (hd (tc_Certificates srv)) = fst (r 1)) \<and>
    (tls_handshake parse6 now srv direct \<longrightarrow> kp_key (hd (tc_Certificates srv)) \<in> {fst (r 0), fst (r 1), fst (r 2)}) \<and>
    (tls_handshake parse6 now broker peer \<or> tls_handshake parse6 now exit peer \<longrightarrow>
       kp_key (hd (tc_Certificates peer)) \<in> {fst (r 0), fst (r 2), fst (r 3)})"
proof -
  note files = certgen_files [OF gen, folded cs]
  let ?kp = "\<lambda>c. \<lparr>kp_chain = [c], kp_key = ct_key c\<rparr>"
  let ?server = "\<lambda>c. base_config\<lparr>tc_Certificates := [?kp c], tc_ClientCAs := [cs_ca cs], tc_RequireClientCert := True\<rparr>"
  let ?client = "\<lambda>c. base_config\<lparr>tc_Certificates := [?kp c], tc_RootCAs := Some [cs_ca cs], tc_ServerName := h\<rparr>"
  have cfg: "broker = ?server (cs_broker cs)" "exit = ?server (cs_node cs)" "client = ?client (cs_client cs)"
    "node = ?client (cs_node cs)"
    "direct = base_config\<lparr>tc_Certificates := [?kp (cs_client cs)], tc_InsecureSkipVerify := True,
       tc_VerifyPeer := Some ([cs_ca cs], ServerAuth)\<rparr>"
    using broker client node direct exit
    by (simp_all add: files ServerMTLSFromFiles_def ClientMTLSFromFiles_def ClientMTLSNoSNIFromFiles_def read_certgen
        ServerMTLS_def ClientMTLS_def ClientMTLSNoSNI_def)
  note acc = accepts_certgen [OF valid cs]
  have leaf: "ct_Issuer c = ct_Subject (cs_ca cs)" "c \<in> set (cert_list cs)" if "c \<in> {cs_broker cs, cs_node cs, cs_client cs}" for c
    using that by (auto simp: cs certgen_set_def Let_def cert_list_def)
  have mutual: "tls_handshake parse6 now (?server c) (?client d) \<longleftrightarrow> c = cs_broker cs \<and> VerifyHostname parse6 c h"
    "tls_handshake parse6 now (?server c) direct \<longleftrightarrow> c \<in> {cs_broker cs, cs_node cs}"
    if "c \<in> {cs_broker cs, cs_node cs}" "d \<in> {cs_node cs, cs_client cs}" for c d
    using that leaf [of c] leaf [of d] leaf [of "cs_client cs"] acc(1,2) [of "[c]"] acc(3) [of "[d]"] acc(3) [of "[cs_client cs]"]
    by (auto simp: tls_handshake_def client_offers_def cfg(5)) (simp_all add: base_config_def)
  have shown: "\<exists>chain. chain \<noteq> [] \<and> kp_key (hd (tc_Certificates srv)) = ct_key (hd chain) \<and> client_accepts parse6 now cc chain \<and>
      (ct_signer (hd chain) = ct_key (cs_ca cs) \<longrightarrow> hd chain \<in> set (cert_list cs))"
    if "tls_handshake parse6 now srv cc" for cc
    using that unforged(1) unfolding tls_handshake_def unforged_def
    by (cases "tc_Certificates srv") (auto intro!: exI [of _ "kp_chain (hd (tc_Certificates srv))"])
  have sent: "kp_key (hd (tc_Certificates peer)) \<in> ct_key ` {cs_ca cs, cs_node cs, cs_client cs}"
    if "tls_handshake parse6 now (?server c) peer" for c
  proof -
    from that obtain kp where kp: "client_offers (?server c) peer = Some kp" "server_accepts now (?server c) (Some kp)"
      by (auto simp: tls_handshake_def server_accepts_def base_config_def split: option.splits)
    from kp(1) have "tc_Certificates peer \<noteq> []" "kp = hd (tc_Certificates peer)"
      by (auto simp: client_offers_def split: list.splits if_splits)
    then have "hd (kp_chain kp) \<in> set (cert_list cs)"
      if "kp_chain kp \<noteq> []" "ct_signer (hd (kp_chain kp)) = ct_key (cs_ca cs)"
      using that unforged(2) unfolding unforged_def by (metis hd_in_set)
    moreover have "\<lparr>kp_chain = kp_chain kp, kp_key = kp_key kp\<rparr> = kp" by simp
    ultimately have "ct_key (hd (kp_chain kp)) = kp_key kp" "hd (kp_chain kp) \<in> {cs_ca cs, cs_node cs, cs_client cs}"
      using kp(2) acc(3) [of "kp_chain kp" "[?kp c]" "kp_key kp"] by metis+
    with \<open>kp = _\<close> show ?thesis by (metis imageI)
  qed
  show ?thesis
    using mutual [of "cs_broker cs" "cs_client cs"] mutual [of "cs_broker cs" "cs_node cs"] mutual [of "cs_node cs" "cs_client cs"]
      shown [of client] shown [of node] shown [of direct] acc(1,2) sent [of "cs_broker cs"] sent [of "cs_node cs"]
    unfolding cfg by (auto simp: cs)
qed

lemma certgen_total:
  "certgen (\<lambda>_. None) clock (\<lambda>i. Inr (r i)) None sans days = (cert_files (certgen_set clock r sans days), None)"
proof -
  let ?ca = "ca_cert (clock 0) (r 0) days"
  have "IssueLeaf now (Inr q) [PemCert ?ca] [PemKey (fst (r 0))] who dns ips sv cl (cert_validity days) =
    Inr ([PemCert (leaf_cert ?ca now q who dns ips sv cl days)], [PemKey (fst q)])" for now q who dns ips sv cl
    using IssueLeaf_cert [of now q ?ca] by simp
  then show ?thesis
    by (simp add: certgen_def GenerateCA_cert and_files_def certgen_set_def cert_files_def Let_def)
qed

definition demo_certs :: cert_set where
  "demo_certs = certgen_set (\<lambda>_. 0) (\<lambda>i. (i, i)) ''broker, localhost'' 365"

definition demo_parse6 :: "string \<Rightarrow> parse_error + addr" where
  "demo_parse6 s = Inl (OtherParse s)"

lemma demo_sans: "certgen_splitCSV ''broker, localhost'' = [''broker'', ''localhost'']"
  by code_simp

lemma demo_name: "VerifyHostname demo_parse6 (cs_broker demo_certs) ''broker''"
proof -
  have "ct_DNSNames (cs_broker demo_certs) = [''broker'', ''localhost'']"
    by (simp add: demo_certs_def certgen_set_def Let_def demo_sans)
  moreover have "ParseAddr demo_parse6 (candidate_ip ''broker'') = Inl (OtherParse ''unable to parse IP'')" by code_simp
  moreover have "validHostname False (lower ''broker'')" "validHostname True ''broker''"
    "matchHostnames ''broker'' (lower ''broker'')" by code_simp+
  ultimately show ?thesis by (simp add: VerifyHostname_def Let_def)
qed

theorem mtls_roles_witness:
  "\<exists>broker client node direct exit.
     tls_handshake demo_parse6 60000000000 broker client \<and> tls_handshake demo_parse6 60000000000 broker node \<and>
     tls_handshake demo_parse6 60000000000 exit direct \<and> \<not> tls_handshake demo_parse6 60000000000 exit client"
proof -
  let ?fs = "dir_files (cert_files demo_certs)"
  obtain broker client node direct exit where
    c: "ServerMTLSFromFiles ?fs ''ca.pem'' ''broker-cert.pem'' ''broker-key.pem'' = Inr broker"
    "ClientMTLSFromFiles ?fs ''ca.pem'' ''client-cert.pem'' ''client-key.pem'' ''broker'' = Inr client"
    "ClientMTLSFromFiles ?fs ''ca.pem'' ''node-cert.pem'' ''node-key.pem'' ''broker'' = Inr node"
    "ClientMTLSNoSNIFromFiles ?fs ''ca.pem'' ''client-cert.pem'' ''client-key.pem'' = Inr direct"
    "ServerMTLSFromFiles ?fs ''ca.pem'' ''node-cert.pem'' ''node-key.pem'' = Inr exit"
    and e: "tc_Certificates exit = [\<lparr>kp_chain = [cs_node demo_certs], kp_key = ct_key (cs_node demo_certs)\<rparr>]"
    by (simp add: ServerMTLSFromFiles_def ClientMTLSFromFiles_def ClientMTLSNoSNIFromFiles_def read_certgen
        ServerMTLS_def ClientMTLS_def ClientMTLSNoSNI_def)
  have "cert_validity 365 = 31536000000000000" by (simp add: cert_validity_def)
  moreover have "unforged demo_certs exit" using e by (simp add: unforged_def cert_list_def)
  ultimately have "tls_handshake demo_parse6 60000000000 broker client \<and> tls_handshake demo_parse6 60000000000 broker node \<and>
     tls_handshake demo_parse6 60000000000 exit direct \<and>
     (tls_handshake demo_parse6 60000000000 exit client \<longrightarrow> kp_key (hd (tc_Certificates exit)) = 1)"
    using mtls_roles [OF certgen_total demo_certs_def c [unfolded demo_certs_def], of 60000000000 exit exit demo_parse6,
      folded demo_certs_def] demo_name by simp
  moreover have "kp_key (hd (tc_Certificates exit)) = 2" using e by (simp add: demo_certs_def)
  ultimately show ?thesis by auto
qed

end
