(* ===== verification/ClientMain.thy ===== *)
theory ClientMain
  imports Flags Logx Quicx Client
begin

text \<open>
  \<^verbatim>\<open>cmd/revquic-client/main.go\<close> before the reconnect loop: the flags, what \<open>main\<close> decides from them, the listing
  of exits, and the resume key. The answers of the operating system, of the files and of the parsers of durations
  and floating-point numbers are the record \<open>main_env\<close>.
\<close>

record main_env =
  me_dur :: "string \<Rightarrow> duration option"
  me_float :: "string \<Rightarrow> float64 option"
  me_config :: "string \<Rightarrow> (string list \<times> string option) option"
  me_log_open :: "string \<Rightarrow> string option"
  me_quote :: "string \<Rightarrow> string"
  me_files :: files
  me_tun :: "string + string"
  me_socks :: "string \<Rightarrow> string \<Rightarrow> string option"
  me_rand :: "bytes option"

section \<open>Flags\<close>

definition client_flags :: "main_env \<Rightarrow> flag_set" where
  "client_flags me =
    \<lparr>fs_formal =
      [(''broker'', string_flag ''localhost:4242''), (''region'', string_flag ''us-west''), (''full'', bool_flag False),
       (''broker-ip'', string_flag ''''), (''gw'', string_flag ''''), (''gw-dev'', string_flag ''''),
       (''token'', string_flag ''alice-token''), (''direct'', bool_flag False), (''exit'', string_flag ''''),
       (''name'', string_flag ''''), (''socks'', string_flag ''''), (''list-exits'', bool_flag False),
       (''direct-mode'', string_flag ''any''), (''ice-keepalive'', value_flag (\<lambda>s. me_dur me s \<noteq> None) ''1s''),
       (''stun'', string_flag ''''), (''turn'', string_flag ''''), (''turn-user'', string_flag ''''),
       (''turn-pass'', string_flag ''''), (''supervise'', bool_flag False), (''clean-if'', string_flag ''''),
       (''tls-ca'', string_flag ''''), (''tls-cert'', string_flag ''''), (''tls-key'', string_flag ''''),
       (''tls-server-name'', string_flag ''broker''), (''rate-bytes'', value_flag (\<lambda>s. me_float me s \<noteq> None) ''0''),
       (''report-interval'', value_flag (\<lambda>s. me_dur me s \<noteq> None) ''5s''), (''config'', string_flag ''''),
       (''log-file'', string_flag ''''), (''log-type'', string_flag ''text'')],
     fs_actual = []\<rparr>"

definition flag_Duration :: "main_env \<Rightarrow> flag_set \<Rightarrow> string \<Rightarrow> duration" where
  "flag_Duration me fs name = (case me_dur me (flag_Value fs name) of None \<Rightarrow> 0 | Some d \<Rightarrow> d)"

definition flag_Float64 :: "main_env \<Rightarrow> flag_set \<Rightarrow> string \<Rightarrow> float64" where
  "flag_Float64 me fs name = (case me_float me (flag_Value fs name) of None \<Rightarrow> 0 | Some d \<Rightarrow> d)"

section \<open>Resume key\<close>

definition hex_digit :: "nat \<Rightarrow> char" where
  "hex_digit d = (if d < 10 then digit_char d else char_of (87 + d))"

definition hex_byte :: "u8 \<Rightarrow> string" where
  "hex_byte b = [hex_digit (unat b div 16), hex_digit (unat b mod 16)]"

definition newResumeKey :: "bytes option \<Rightarrow> string" where
  "newResumeKey rnd = (case rnd of None \<Rightarrow> '''' | Some b \<Rightarrow> concat (map hex_byte b))"

section \<open>What \<open>main\<close> does\<close>

datatype client_action =
  FlagError flag_error
| ClientFatal string
| Supervise string string string string bool
| ListRegionExits tls_config string string string
| RunClient run_params tls_config tls_config "string option"

text \<open>The two configurations of TLS: mutual when all three files are named, unverified otherwise.\<close>

definition client_tls :: "main_env \<Rightarrow> flag_set \<Rightarrow> string + tls_config \<times> tls_config" where
  "client_tls me fs =
    (let ca = flag_Value fs ''tls-ca''; cert = flag_Value fs ''tls-cert''; key = flag_Value fs ''tls-key'' in
     if ca \<noteq> '''' \<and> cert \<noteq> '''' \<and> key \<noteq> '''' then
       (case ClientMTLSFromFiles (me_files me) ca cert key (flag_Value fs ''tls-server-name'') of
          Inl _ \<Rightarrow> Inl ''mTLS''
        | Inr mtls \<Rightarrow>
            (case ClientMTLSNoSNIFromFiles (me_files me) ca cert key of
               Inl _ \<Rightarrow> Inl ''direct mTLS''
             | Inr dt \<Rightarrow> Inr (mtls, dt)))
     else Inr (ClientTLS, ClientTLS))"

definition client_params :: "main_env \<Rightarrow> flag_set \<Rightarrow> run_params" where
  "client_params me fs =
    \<lparr>rp_brokerAddr = flag_Value fs ''broker'', rp_region = flag_Value fs ''region'', rp_token = flag_Value fs ''token'',
     rp_exitID = flag_Value fs ''exit'', rp_name = flag_Value fs ''name'', rp_resumeKey = newResumeKey (me_rand me),
     rp_full = flag_Bool fs ''full'', rp_brokerIP = flag_Value fs ''broker-ip'', rp_gw = flag_Value fs ''gw'',
     rp_dev = flag_Value fs ''gw-dev'', rp_logFile = flag_Value fs ''log-file'', rp_logType = flag_Value fs ''log-type'',
     rp_direct = flag_Bool fs ''direct'', rp_directMode = flag_Value fs ''direct-mode'', rp_stun = flag_Value fs ''stun'',
     rp_turn = flag_Value fs ''turn'', rp_turnUser = flag_Value fs ''turn-user'', rp_turnPass = flag_Value fs ''turn-pass'',
     rp_iceKeepalive = flag_Duration me fs ''ice-keepalive'', rp_rateBytes = flag_Float64 me fs ''rate-bytes'',
     rp_reportInterval = flag_Duration me fs ''report-interval''\<rparr>"

text \<open>\<open>main\<close> from the parsed flags on; the proxy is its last part.\<close>

definition client_proxy :: "main_env \<Rightarrow> flag_set \<Rightarrow> string \<Rightarrow> tls_config \<Rightarrow> tls_config \<Rightarrow> client_action" where
  "client_proxy me fs tun brokerTLS directTLS =
    (let socksAddr = flag_Value fs ''socks'' in
     if socksAddr = '''' then RunClient (client_params me fs) brokerTLS directTLS None
     else (case me_socks me socksAddr tun of
             Some err \<Rightarrow> ClientFatal (''socks: '' @ err)
           | None \<Rightarrow> RunClient (client_params me fs) brokerTLS directTLS (Some socksAddr)))"

definition client_start_up :: "main_env \<Rightarrow> flag_set \<Rightarrow> client_action" where
  "client_start_up me fs =
    (case logx_Setup (me_log_open me) (me_quote me) ''client'' (flag_Value fs ''log-file'') (flag_Value fs ''log-type'') of
       Inl err \<Rightarrow> ClientFatal (''log: '' @ err)
     | Inr _ \<Rightarrow>
         if flag_Bool fs ''full'' \<and> flag_Value fs ''socks'' \<noteq> '''' then ClientFatal ''-full and -socks are mutually exclusive''
         else if flag_Bool fs ''supervise'' then
           Supervise (flag_Value fs ''clean-if'') (flag_Value fs ''broker-ip'') (flag_Value fs ''gw'')
             (flag_Value fs ''gw-dev'') (flag_Bool fs ''full'')
         else
           (case client_tls me fs of
              Inl err \<Rightarrow> ClientFatal err
            | Inr (brokerTLS, directTLS) \<Rightarrow>
                if flag_Bool fs ''list-exits'' then
                  ListRegionExits brokerTLS (flag_Value fs ''broker'') (flag_Value fs ''region'') (flag_Value fs ''token'')
                else
                  (case me_tun me of
                     Inl err \<Rightarrow> ClientFatal (''tun: '' @ err)
                   | Inr tun \<Rightarrow>
                       client_proxy me fs tun brokerTLS directTLS)))"

definition client_main :: "main_env \<Rightarrow> string list \<Rightarrow> client_action" where
  "client_main me args =
    (case flag_Parse args (client_flags me) of
       Inl err \<Rightarrow> FlagError err
     | Inr fs \<Rightarrow>
         (let path = flag_Value fs ''config'' in
          if path = '''' then client_start_up me fs
          else (case ApplyFile (me_config me path) fs of
                  Inl _ \<Rightarrow> ClientFatal ''config''
                | Inr fs \<Rightarrow> client_start_up me fs)))"

section \<open>Listing the exits\<close>

definition list_msg :: "string \<Rightarrow> string \<Rightarrow> control" where
  "list_msg region token =
    (control_of MsgConnect)\<lparr>c_RequestedRegion := region, c_Token := token, c_ListExits := True\<rparr>"

definition pad_right :: "nat \<Rightarrow> string \<Rightarrow> string" where
  "pad_right n s = s @ replicate (n - length s) (CHR '' '')"

definition exit_line :: "exit_info \<Rightarrow> string" where
  "exit_line e =
    (let label = (if ei_Name e \<noteq> '''' then ei_Name e @ '' ('' @ ei_NodeID e @ '')'' else ei_NodeID e) in
     ''  '' @ pad_right 30 label @ ''  users='' @ show_int (ei_ActiveUsers e) @ ''/'' @ show_int (ei_Capacity e) @
     ''  system='' @ ei_System e)"

text \<open>The lines it prints, or the error it ends with, from the answers to its four calls.\<close>

definition listRegionExits ::
  "(string \<Rightarrow> string) \<Rightarrow> string option \<Rightarrow> string option \<Rightarrow> string option \<Rightarrow> string + control \<Rightarrow> string \<Rightarrow> string + string list" where
  "listRegionExits quote dialled opened written answer region =
    (case dialled of
       Some err \<Rightarrow> Inl (''dial broker: '' @ err)
     | None \<Rightarrow>
         (case opened of
            Some err \<Rightarrow> Inl (''open control: '' @ err)
          | None \<Rightarrow>
              (case written of
                 Some err \<Rightarrow> Inl (''list-exits: '' @ err)
               | None \<Rightarrow>
                   (case answer of
                      Inl err \<Rightarrow> Inl (''list-exits resp: '' @ err)
                    | Inr resp \<Rightarrow>
                        if c_Type resp \<noteq> MsgConnectOK then Inl (''broker: '' @ c_Error resp)
                        else if c_ExitList resp = [] then Inr [''no exits available in region '' @ quote region]
                        else Inr ([''exits in region '' @ quote region @ '':''] @ map exit_line (c_ExitList resp) @
                               [''select one with: -exit <nodeId>   (omit -exit for automatic load-balancing)''])))))"

section \<open>Lemmas\<close>

text \<open>A full tunnel and the proxy are never combined.\<close>

lemma full_excludes_socks:
  "client_start_up me fs = RunClient p b d sk \<Longrightarrow> \<not> (rp_full p \<and> sk \<noteq> None)"
  by (auto simp: client_start_up_def client_proxy_def client_params_def Let_def split: sum.splits if_splits option.splits)

text \<open>
  The client verifies the broker only when all three files are named: otherwise it takes any server for the broker.
\<close>

lemma ClientTLS_accepts_any: "chain \<noteq> [] \<Longrightarrow> client_accepts parse6 now ClientTLS chain"
  by (simp add: client_accepts_def ClientTLS_def base_config_def)

lemma client_tls_unverified:
  assumes "client_tls me fs = Inr (b, d)"
    and "flag_Value fs ''tls-ca'' = '''' \<or> flag_Value fs ''tls-cert'' = '''' \<or> flag_Value fs ''tls-key'' = ''''"
  shows "b = ClientTLS \<and> d = ClientTLS"
  using assms by (auto simp: client_tls_def Let_def split: if_splits)

text \<open>Different random bytes give different keys, and only a failing source gives the empty key.\<close>

lemma hex_digit_inject: "a < 16 \<Longrightarrow> b < 16 \<Longrightarrow> hex_digit a = hex_digit b \<longleftrightarrow> a = b"
  by (auto simp: hex_digit_def digit_char_def dest: arg_cong [where f = "of_char :: char \<Rightarrow> nat"])

lemma hex_byte_inject: "hex_byte a = hex_byte b \<longleftrightarrow> a = b"
proof
  assume "hex_byte a = hex_byte b"
  moreover have "unat a < 256" "unat b < 256" by (rule octet_bound)+
  ultimately have "unat a div 16 = unat b div 16" "unat a mod 16 = unat b mod 16"
    by (simp_all add: hex_byte_def hex_digit_inject)
  then show "a = b" by (metis div_mult_mod_eq word_unat_eq_iff)
qed simp

lemma length_hex_byte [simp]: "length (hex_byte b) = 2" "hex_byte b \<noteq> []"
  by (simp_all add: hex_byte_def)

lemma newResumeKey_inject: "newResumeKey (Some a) = newResumeKey (Some b) \<Longrightarrow> a = b"
proof (induction a arbitrary: b)
  case (Cons x a)
  then show ?case by (cases b) (auto simp: newResumeKey_def hex_byte_inject)
qed (auto simp: newResumeKey_def)

end
