(* ===== verification/NetCfg.thy ===== *)
theory NetCfg
  imports NetIp
begin

text \<open>
  \<^verbatim>\<open>internal/netcfg/netcfg_linux.go\<close>: addresses, routes and the packet filter on Linux. The programs that are
  run (\<open>ip\<close>, \<open>iptables\<close>, \<open>sysctl\<close>) are the argument \<open>ex\<close>: it maps an argument vector and the state \<open>'w\<close> of
  the host to an optional error with its output, and the new state. What the programs' manuals promise, as far as
  the theorems need it, are the predicates \<open>iptables_doc\<close> and \<open>iproute_doc\<close>.
\<close>

type_synonym 'w exec = "string list \<Rightarrow> 'w \<Rightarrow> (string \<times> string) option \<times> 'w"

text \<open>Go's \<open>%v\<close> of a list of strings.\<close>

fun join_sp :: "string list \<Rightarrow> string" where
  "join_sp [] = ''''"
| "join_sp [s] = s"
| "join_sp (s # ss) = s @ '' '' @ join_sp ss"

definition run :: "'w exec \<Rightarrow> string \<Rightarrow> string list \<Rightarrow> 'w \<Rightarrow> string option \<times> 'w" where
  "run ex name args w =
    (case ex (name # args) w of
       (None, w) \<Rightarrow> (None, w)
     | (Some (err, out), w) \<Rightarrow> (Some (name @ '' ['' @ join_sp args @ '']: '' @ err @ '': '' @ out), w))"

text \<open>The statement \<open>if err := f; err != nil { return err }\<close> before the rest \<open>k\<close>.\<close>

definition or_return :: "string option \<times> 'w \<Rightarrow> ('w \<Rightarrow> string option \<times> 'w) \<Rightarrow> string option \<times> 'w" where
  "or_return r k = (case r of (Some err, w) \<Rightarrow> (Some err, w) | (None, w) \<Rightarrow> k w)"

section \<open>Operations\<close>

definition linux_AddrUp :: "'w exec \<Rightarrow> string \<Rightarrow> string \<Rightarrow> int \<Rightarrow> 'w \<Rightarrow> string option \<times> 'w" where
  "linux_AddrUp ex ifName cidr mtu w =
    or_return (run ex ''ip'' [''addr'', ''add'', cidr, ''dev'', ifName] w) (\<lambda>w.
    or_return (run ex ''ip'' [''link'', ''set'', ''dev'', ifName, ''mtu'', show_int mtu] w) (\<lambda>w.
    run ex ''ip'' [''link'', ''set'', ''dev'', ifName, ''up''] w))"

definition linux_AddHostRoute :: "'w exec \<Rightarrow> string \<Rightarrow> string \<Rightarrow> string \<Rightarrow> 'w \<Rightarrow> string option \<times> 'w" where
  "linux_AddHostRoute ex brokerIP viaGateway devName =
    run ex ''ip'' [''route'', ''add'', brokerIP @ ''/32'', ''via'', viaGateway, ''dev'', devName]"

definition linux_SetDefaultRoute :: "'w exec \<Rightarrow> string \<Rightarrow> 'w \<Rightarrow> string option \<times> 'w" where
  "linux_SetDefaultRoute ex ifName = run ex ''ip'' [''route'', ''replace'', ''default'', ''dev'', ifName]"

definition linux_Cleanup :: "'w exec \<Rightarrow> string \<Rightarrow> string \<Rightarrow> string \<Rightarrow> string \<Rightarrow> bool \<Rightarrow> 'w \<Rightarrow> 'w" where
  "linux_Cleanup ex ifName brokerIP gw gwDev full w =
    (let w = (if brokerIP \<noteq> '''' then snd (run ex ''ip'' [''route'', ''del'', brokerIP @ ''/32''] w) else w) in
     if full then
       (if gw \<noteq> '''' \<and> gwDev \<noteq> ''''
        then snd (run ex ''ip'' [''route'', ''replace'', ''default'', ''via'', gw, ''dev'', gwDev] w)
        else snd (run ex ''ip'' [''route'', ''del'', ''default'', ''dev'', ifName] w))
     else w)"

text \<open>\<open>proc\<close> is the content of \<open>/proc/sys/net/ipv4/ip_forward\<close> without surrounding space, if it can be read.\<close>

definition linux_EnableForwarding :: "'w exec \<Rightarrow> string option \<Rightarrow> 'w \<Rightarrow> string option \<times> 'w" where
  "linux_EnableForwarding ex proc w =
    (if proc = Some ''1'' then (None, w) else run ex ''sysctl'' [''-w'', ''net.ipv4.ip_forward=1''] w)"

definition linux_Masquerade :: "'w exec \<Rightarrow> string \<Rightarrow> string \<Rightarrow> 'w \<Rightarrow> string option \<times> 'w" where
  "linux_Masquerade ex srcCIDR uplinkIface w =
    or_return (run ex ''iptables'' [''-t'', ''nat'', ''-A'', ''POSTROUTING'', ''-s'', srcCIDR, ''-o'', uplinkIface,
                 ''-j'', ''MASQUERADE''] w) (\<lambda>w.
    or_return (run ex ''iptables'' [''-A'', ''FORWARD'', ''-o'', uplinkIface, ''-j'', ''ACCEPT''] w) (\<lambda>w.
    run ex ''iptables'' [''-A'', ''FORWARD'', ''-i'', uplinkIface, ''-m'', ''state'', ''--state'',
      ''RELATED,ESTABLISHED'', ''-j'', ''ACCEPT''] w))"

definition private_ranges :: "string list" where
  "private_ranges = [''10.0.0.0/8'', ''172.16.0.0/12'', ''192.168.0.0/16'', ''169.254.0.0/16'']"

definition drop_between :: "'w exec \<Rightarrow> string \<Rightarrow> string \<Rightarrow> 'w \<Rightarrow> string option \<times> 'w" where
  "drop_between ex src dst = run ex ''iptables'' [''-I'', ''FORWARD'', ''-s'', src, ''-d'', dst, ''-j'', ''DROP'']"

fun isolate_loop :: "'w exec \<Rightarrow> string \<Rightarrow> string list \<Rightarrow> 'w \<Rightarrow> string option \<times> 'w" where
  "isolate_loop ex vpnCIDR [] w = (None, w)"
| "isolate_loop ex vpnCIDR (cidr # cidrs) w =
    or_return (drop_between ex vpnCIDR cidr w) (isolate_loop ex vpnCIDR cidrs)"

definition linux_Isolate :: "'w exec \<Rightarrow> string \<Rightarrow> 'w \<Rightarrow> string option \<times> 'w" where
  "linux_Isolate ex vpnCIDR w =
    or_return (drop_between ex vpnCIDR vpnCIDR w) (isolate_loop ex vpnCIDR private_ranges)"

section \<open>What the programs promise\<close>

text \<open>
  The FORWARD chain as \<open>iptables(8)\<close> describes it. \<open>fwd w p\<close> is the decision of the chain's rules on the
  forwarded packet \<open>p\<close>, with \<open>None\<close> when the chain's policy decides: a rule inserted with \<open>-I\<close> comes before
  all others, a rule appended with \<open>-A\<close> after them, and the first rule that matches decides. Rules of the nat
  table, \<open>ip\<close> and \<open>sysctl\<close> do not touch the chain.
\<close>

record fwd_packet =
  fp_src :: u32
  fp_dst :: u32
  fp_in :: string
  fp_out :: string
  fp_established :: bool

datatype verdict = ACCEPT | DROP

definition in_cidr :: "string \<Rightarrow> u32 \<Rightarrow> bool" where
  "in_cidr cidr a =
    (case ParsePrefix (\<lambda>_. Inl (OtherParse '''')) cidr of Inl _ \<Rightarrow> False | Inr p \<Rightarrow> prefix_contains p (Addr4 a))"

definition iptables_doc :: "'w exec \<Rightarrow> ('w \<Rightarrow> fwd_packet \<Rightarrow> verdict option) \<Rightarrow> bool" where
  "iptables_doc ex fwd \<longleftrightarrow>
    (\<forall>s d w w' p. ex [''iptables'', ''-I'', ''FORWARD'', ''-s'', s, ''-d'', d, ''-j'', ''DROP''] w = (None, w') \<longrightarrow>
       fwd w' p = (if in_cidr s (fp_src p) \<and> in_cidr d (fp_dst p) then Some DROP else fwd w p)) \<and>
    (\<forall>u w w' p. ex [''iptables'', ''-A'', ''FORWARD'', ''-o'', u, ''-j'', ''ACCEPT''] w = (None, w') \<longrightarrow>
       fwd w' p = (case fwd w p of Some v \<Rightarrow> Some v | None \<Rightarrow> if fp_out p = u then Some ACCEPT else None)) \<and>
    (\<forall>u w w' p. ex [''iptables'', ''-A'', ''FORWARD'', ''-i'', u, ''-m'', ''state'', ''--state'',
         ''RELATED,ESTABLISHED'', ''-j'', ''ACCEPT''] w = (None, w') \<longrightarrow>
       fwd w' p = (case fwd w p of Some v \<Rightarrow> Some v
         | None \<Rightarrow> if fp_in p = u \<and> fp_established p then Some ACCEPT else None)) \<and>
    (\<forall>rule w. fwd (snd (ex ([''iptables'', ''-t'', ''nat''] @ rule) w)) = fwd w) \<and>
    (\<forall>args w. fwd (snd (ex (''ip'' # args) w)) = fwd w \<and> fwd (snd (ex (''sysctl'' # args) w)) = fwd w)"

text \<open>
  The routes of metric 0 in the main table as \<open>ip-route(8)\<close> describes them: \<open>rt w dst\<close> is the gateway, if any,
  and the device of the route to \<open>dst\<close>. A route that exists cannot be added, \<open>replace\<close> sets it either way, and
  \<open>del\<close> with a device deletes only a route through it. Addresses and link settings touch neither the default
  route nor a host route. \<open>gone d\<close> is the removal of the device \<open>d\<close>, which takes its routes with it.
\<close>

type_synonym route = "string option \<times> string"

definition iproute_doc :: "'w exec \<Rightarrow> (string \<Rightarrow> 'w \<Rightarrow> 'w) \<Rightarrow> ('w \<Rightarrow> string \<Rightarrow> route option) \<Rightarrow> bool" where
  "iproute_doc ex gone rt \<longleftrightarrow>
    (\<forall>d g i w w'. ex [''ip'', ''route'', ''add'', d, ''via'', g, ''dev'', i] w = (None, w') \<longrightarrow>
       rt w d = None \<and> rt w' = (rt w)(d \<mapsto> (Some g, i))) \<and>
    (\<forall>d g i w e w'. ex [''ip'', ''route'', ''add'', d, ''via'', g, ''dev'', i] w = (Some e, w') \<longrightarrow> rt w' = rt w) \<and>
    (\<forall>i w w'. ex [''ip'', ''route'', ''replace'', ''default'', ''dev'', i] w = (None, w') \<longrightarrow>
       rt w' = (rt w)(''default'' \<mapsto> (None, i))) \<and>
    (\<forall>g i w w'. ex [''ip'', ''route'', ''replace'', ''default'', ''via'', g, ''dev'', i] w = (None, w') \<longrightarrow>
       rt w' = (rt w)(''default'' \<mapsto> (Some g, i))) \<and>
    (\<forall>d w. rt (snd (ex [''ip'', ''route'', ''del'', d] w)) = (rt w)(d := None)) \<and>
    (\<forall>i w. rt (snd (ex [''ip'', ''route'', ''del'', ''default'', ''dev'', i] w)) =
       (if \<exists>g. rt w ''default'' = Some (g, i) then (rt w)(''default'' := None) else rt w)) \<and>
    (\<forall>op args d w. op \<in> {''addr'', ''link''} \<longrightarrow> d = ''default'' \<or> (\<exists>a. d = a @ ''/32'') \<longrightarrow>
       rt (snd (ex (''ip'' # op # args) w)) d = rt w d) \<and>
    (\<forall>i w d. rt (gone i w) d = (case rt w d of Some (g, j) \<Rightarrow> if j = i then None else Some (g, j) | None \<Rightarrow> None))"

section \<open>Isolation\<close>

named_theorems netcfg \<open>definitions of the command sequences\<close>

declare or_return_def [netcfg] drop_between_def [netcfg] run_def [netcfg]

lemma drop_between_fwd:
  assumes doc: "iptables_doc ex fwd" and ok: "drop_between ex s d w = (None, w')"
  shows "fwd w' p = (if in_cidr s (fp_src p) \<and> in_cidr d (fp_dst p) then Some DROP else fwd w p)"
proof -
  from ok have "ex [''iptables'', ''-I'', ''FORWARD'', ''-s'', s, ''-d'', d, ''-j'', ''DROP''] w = (None, w')"
    by (auto simp: netcfg split: prod.splits option.splits)
  with doc show ?thesis unfolding iptables_doc_def by blast
qed

lemma isolate_loop_fwd:
  assumes "iptables_doc ex fwd" and "isolate_loop ex s cidrs w = (None, w')"
  shows "fwd w' p = (if in_cidr s (fp_src p) \<and> (\<exists>d \<in> set cidrs. in_cidr d (fp_dst p)) then Some DROP else fwd w p)"
  using assms(2)
proof (induction cidrs arbitrary: w)
  case (Cons d cidrs)
  then obtain w1 where "drop_between ex s d w = (None, w1)" "isolate_loop ex s cidrs w1 = (None, w')"
    by (auto simp: or_return_def split: prod.splits option.splits)
  with Cons.IH drop_between_fwd [OF assms(1)] show ?case by auto
qed simp

lemma Isolate_fwd:
  assumes "iptables_doc ex fwd" and "linux_Isolate ex s w = (None, w')"
  shows "fwd w' p =
    (if in_cidr s (fp_src p) \<and> (\<exists>d \<in> set (s # private_ranges). in_cidr d (fp_dst p)) then Some DROP else fwd w p)"
proof -
  from assms(2) obtain w1 where "drop_between ex s s w = (None, w1)" "isolate_loop ex s private_ranges w1 = (None, w')"
    by (auto simp: linux_Isolate_def or_return_def split: prod.splits option.splits)
  with drop_between_fwd [OF assms(1)] isolate_loop_fwd [OF assms(1)] show ?thesis by auto
qed

lemma Masquerade_fwd:
  assumes doc: "iptables_doc ex fwd" and ok: "linux_Masquerade ex s u w = (None, w')"
  shows "fwd w' p = (case fwd w p of Some v \<Rightarrow> Some v
    | None \<Rightarrow> if fp_out p = u \<or> fp_in p = u \<and> fp_established p then Some ACCEPT else None)"
proof -
  from ok obtain w1 w2 where
    "ex ([''iptables'', ''-t'', ''nat''] @ [''-A'', ''POSTROUTING'', ''-s'', s, ''-o'', u, ''-j'', ''MASQUERADE'']) w = (None, w1)"
    and 2: "ex [''iptables'', ''-A'', ''FORWARD'', ''-o'', u, ''-j'', ''ACCEPT''] w1 = (None, w2)"
    and 3: "ex [''iptables'', ''-A'', ''FORWARD'', ''-i'', u, ''-m'', ''state'', ''--state'', ''RELATED,ESTABLISHED'',
      ''-j'', ''ACCEPT''] w2 = (None, w')"
    by (auto simp: linux_Masquerade_def netcfg split: prod.splits option.splits)
  then have "fwd w1 = fwd w" using doc unfolding iptables_doc_def by (metis snd_conv)
  moreover have "fwd w2 p = (case fwd w1 p of Some v \<Rightarrow> Some v | None \<Rightarrow> if fp_out p = u then Some ACCEPT else None)"
    using doc 2 unfolding iptables_doc_def by blast
  moreover have "fwd w' p = (case fwd w2 p of Some v \<Rightarrow> Some v
      | None \<Rightarrow> if fp_in p = u \<and> fp_established p then Some ACCEPT else None)"
    using doc 3 unfolding iptables_doc_def by blast
  ultimately show ?thesis by (simp split: option.splits)
qed

text \<open>Commands of \<open>ip\<close> and \<open>sysctl\<close> leave the filter alone.\<close>

lemma or_return_frame: "(\<And>w. f (snd (k w)) = f w) \<Longrightarrow> f (snd (or_return r k)) = f (snd r)"
  by (simp add: or_return_def split: prod.split option.split)

lemma snd_run [simp]: "snd (run ex name args w) = snd (ex (name # args) w)"
  by (simp add: run_def split: prod.split option.split)

lemma run_fwd:
  assumes "iptables_doc ex fwd"
  shows "fwd (snd (ex (''ip'' # args) w)) = fwd w" "fwd (snd (ex (''sysctl'' # args) w)) = fwd w"
  using assms unfolding iptables_doc_def by blast+

lemma AddrUp_fwd: "iptables_doc ex fwd \<Longrightarrow> fwd (snd (linux_AddrUp ex i c m w)) = fwd w"
  by (simp add: linux_AddrUp_def or_return_frame run_fwd)

lemma EnableForwarding_fwd: "iptables_doc ex fwd \<Longrightarrow> fwd (snd (linux_EnableForwarding ex proc w)) = fwd w"
  by (simp add: linux_EnableForwarding_def run_fwd)

section \<open>Routes\<close>

lemma iproute_laws:
  assumes "iproute_doc ex gone rt"
  shows "ex [''ip'', ''route'', ''add'', d, ''via'', g, ''dev'', i] w = (None, w') \<Longrightarrow> rt w' = (rt w)(d \<mapsto> (Some g, i))"
    "ex [''ip'', ''route'', ''add'', d, ''via'', g, ''dev'', i] w = (Some e, w') \<Longrightarrow> rt w' = rt w"
    "ex [''ip'', ''route'', ''replace'', ''default'', ''dev'', i] w = (None, w') \<Longrightarrow> rt w' = (rt w)(''default'' \<mapsto> (None, i))"
    "ex [''ip'', ''route'', ''replace'', ''default'', ''via'', g, ''dev'', i] w = (None, w') \<Longrightarrow>
      rt w' = (rt w)(''default'' \<mapsto> (Some g, i))"
    "rt (snd (ex [''ip'', ''route'', ''del'', d] w)) = (rt w)(d := None)"
    "op \<in> {''addr'', ''link''} \<Longrightarrow> d = ''default'' \<or> (\<exists>a. d = a @ ''/32'') \<Longrightarrow> rt (snd (ex (''ip'' # op # args) w)) d = rt w d"
    "rt (gone i w) d = (case rt w d of Some (g, j) \<Rightarrow> if j = i then None else Some (g, j) | None \<Rightarrow> None)"
proof -
  note doc = assms [unfolded iproute_doc_def]
  note d = doc [THEN conjunct2]
  note e = d [THEN conjunct2, THEN conjunct2]
  note f = e [THEN conjunct2, THEN conjunct2]
  show "ex [''ip'', ''route'', ''add'', d, ''via'', g, ''dev'', i] w = (None, w') \<Longrightarrow> rt w' = (rt w)(d \<mapsto> (Some g, i))"
    by (rule doc [THEN conjunct1, rule_format, THEN conjunct2])
  show "ex [''ip'', ''route'', ''add'', d, ''via'', g, ''dev'', i] w = (Some e, w') \<Longrightarrow> rt w' = rt w"
    by (rule d [THEN conjunct1, rule_format])
  show "ex [''ip'', ''route'', ''replace'', ''default'', ''dev'', i] w = (None, w') \<Longrightarrow> rt w' = (rt w)(''default'' \<mapsto> (None, i))"
    by (rule d [THEN conjunct2, THEN conjunct1, rule_format])
  show "ex [''ip'', ''route'', ''replace'', ''default'', ''via'', g, ''dev'', i] w = (None, w') \<Longrightarrow>
      rt w' = (rt w)(''default'' \<mapsto> (Some g, i))"
    by (rule e [THEN conjunct1, rule_format])
  show "rt (snd (ex [''ip'', ''route'', ''del'', d] w)) = (rt w)(d := None)"
    by (rule e [THEN conjunct2, THEN conjunct1, rule_format])
  show "op \<in> {''addr'', ''link''} \<Longrightarrow> d = ''default'' \<or> (\<exists>a. d = a @ ''/32'') \<Longrightarrow> rt (snd (ex (''ip'' # op # args) w)) d = rt w d"
    by (rule f [THEN conjunct2, THEN conjunct1, rule_format])
  show "rt (gone i w) d = (case rt w d of Some (g, j) \<Rightarrow> if j = i then None else Some (g, j) | None \<Rightarrow> None)"
    by (rule f [THEN conjunct2, THEN conjunct2, rule_format])
qed

end
