(* ===== verification/Supervisor.thy ===== *)
theory Supervisor
  imports ClientMain NetCfg ClientRuns
begin

text \<open>
  The supervisor child of \<^verbatim>\<open>cmd/revquic-client/main.go\<close> and the network configuration of the client on Linux as a
  whole: the commands of a run, and what the child undoes when the client is gone. The child is the same
  program, started with the argument vector \<open>spawn_argv\<close>.
\<close>

section \<open>The child\<close>

definition spawn_argv :: "string \<Rightarrow> string \<Rightarrow> string \<Rightarrow> string \<Rightarrow> bool \<Rightarrow> string \<Rightarrow> string \<Rightarrow> string list" where
  "spawn_argv ifName brokerIP gw dev full logFile logType =
    [''-supervise'', ''-clean-if'', ifName, ''-broker-ip'', brokerIP, ''-gw'', gw, ''-gw-dev'', dev,
     ''-full='' @ show_bool full, ''-log-file'', logFile, ''-log-type'', logType]"

text \<open>\<open>piped\<close> and \<open>started\<close> are the errors of creating the pipe and of starting the process.\<close>

definition spawnSupervisor ::
  "string \<Rightarrow> string option \<Rightarrow> string option \<Rightarrow> string \<Rightarrow> string \<Rightarrow> string \<Rightarrow> string \<Rightarrow> bool \<Rightarrow> string \<Rightarrow> string \<Rightarrow>
    string + string list option" where
  "spawnSupervisor goos piped started ifName brokerIP gw dev full logFile logType =
    (if goos = ''windows'' then Inr None
     else (case piped of
             Some err \<Rightarrow> Inl err
           | None \<Rightarrow>
               (case started of
                  Some err \<Rightarrow> Inl err
                | None \<Rightarrow> Inr (Some (spawn_argv ifName brokerIP gw dev full logFile logType)))))"

text \<open>
  What happens to the child: a byte arrives on the pipe, the pipe ends with the client, or a terminal interrupt
  reaches it. It is started in the process group of the client and installs no handler, so an interrupt ends it.
\<close>

datatype child_event = PipeByte | PipeEnd | Interrupted

datatype child_state = ChildWaits | ChildDone | ChildKilled

fun superviseAndCleanup ::
  "'w exec \<Rightarrow> string \<Rightarrow> string \<Rightarrow> string \<Rightarrow> string \<Rightarrow> bool \<Rightarrow> child_event list \<Rightarrow> 'w \<Rightarrow> child_state \<times> 'w" where
  "superviseAndCleanup ex ifName brokerIP gw dev full [] w = (ChildWaits, w)"
| "superviseAndCleanup ex ifName brokerIP gw dev full (ev # evs) w =
    (case ev of
       PipeByte \<Rightarrow> superviseAndCleanup ex ifName brokerIP gw dev full evs w
     | PipeEnd \<Rightarrow> (ChildDone, linux_Cleanup ex ifName brokerIP gw dev full w)
     | Interrupted \<Rightarrow> (ChildKilled, w))"

definition child_process :: "main_env \<Rightarrow> 'w exec \<Rightarrow> string list \<Rightarrow> child_event list \<Rightarrow> 'w \<Rightarrow> child_state \<times> 'w" where
  "child_process me ex args evs w =
    (case client_main me args of
       Supervise ifName brokerIP gw dev full \<Rightarrow> superviseAndCleanup ex ifName brokerIP gw dev full evs w
     | _ \<Rightarrow> (ChildDone, w))"

section \<open>The argument vector reads back\<close>

lemma client_flag [simp]:
  "mget (fs_formal (client_flags me)) ''supervise'' = Some (bool_flag False)"
  "mget (fs_formal (client_flags me)) ''full'' = Some (bool_flag False)"
  "mget (fs_formal (client_flags me)) ''clean-if'' = Some (string_flag '''')"
  "mget (fs_formal (client_flags me)) ''broker-ip'' = Some (string_flag '''')"
  "mget (fs_formal (client_flags me)) ''gw'' = Some (string_flag '''')"
  "mget (fs_formal (client_flags me)) ''gw-dev'' = Some (string_flag '''')"
  "mget (fs_formal (client_flags me)) ''log-file'' = Some (string_flag '''')"
  "mget (fs_formal (client_flags me)) ''log-type'' = Some (string_flag ''text'')"
  "mget (fs_formal (client_flags me)) ''config'' = Some (string_flag '''')"
  "mget (fs_formal (client_flags me)) ''socks'' = Some (string_flag '''')"
  by (simp_all add: client_flags_def mget_def)

lemma flag_Parse_spawn:
  obtains fs where
    "flag_Parse (spawn_argv ifName brokerIP gw dev full logFile logType) (client_flags me) = Inr fs"
    "flag_Bool fs ''supervise''" "flag_Bool fs ''full'' = full" "flag_Value fs ''clean-if'' = ifName"
    "flag_Value fs ''broker-ip'' = brokerIP" "flag_Value fs ''gw'' = gw" "flag_Value fs ''gw-dev'' = dev"
    "flag_Value fs ''log-file'' = logFile" "flag_Value fs ''log-type'' = logType"
    "flag_Value fs ''config'' = ''''" "flag_Value fs ''socks'' = ''''"
proof -
  have [simp]: "plain_name ''supervise''" "plain_name ''clean-if''" "plain_name ''broker-ip''" "plain_name ''gw''"
    "plain_name ''gw-dev''" "plain_name ''full''" "plain_name ''log-file''" "plain_name ''log-type''"
    by (simp_all add: plain_name_def)
  let ?F = "mput (mput (mput (mput (mput (mput (mput (mput (fs_formal (client_flags me)) ''supervise'' (bool_flag True))
     ''clean-if'' (string_flag ifName)) ''broker-ip'' (string_flag brokerIP)) ''gw'' (string_flag gw))
     ''gw-dev'' (string_flag dev)) ''full'' (bool_flag full)) ''log-file'' (string_flag logFile))
     ''log-type'' (string_flag logType)"
  note str = flag_Parse_string [where d = "''''"]
  note parse = flag_Parse_bool(2) [of "''supervise''" _ False] str [of "''clean-if''"] str [of "''broker-ip''"]
    str [of "''gw''"] str [of "''gw-dev''"] flag_Parse_bool(1) [of "''full''" _ False] str [of "''log-file''"]
    flag_Parse_string [of "''log-type''" _ "''text''"]
  have "\<exists>fs. flag_Parse (spawn_argv ifName brokerIP gw dev full logFile logType) (client_flags me) = Inr fs \<and> fs_formal fs = ?F"
    by (simp add: spawn_argv_def parse [unfolded append.simps] del: flag_Parse.simps(2))
  then obtain fs where fs: "flag_Parse (spawn_argv ifName brokerIP gw dev full logFile logType) (client_flags me) = Inr fs"
    "fs_formal fs = ?F" by blast
  show ?thesis
    by (rule that [OF fs(1)]) (simp_all add: flag_Value_def flag_Bool_def fs(2), simp_all add: bool_flag_def string_flag_def)
qed

text \<open>So the child gets the parameters of its parent, if it can log where its parent does.\<close>

lemma child_supervises:
  assumes "logFile = '''' \<or> me_log_open me logFile = None"
    and "map to_lower (trim is_space logType) \<in> {'''', ''text'', ''json''}"
  shows "child_process me ex (spawn_argv ifName brokerIP gw dev full logFile logType) evs w =
    superviseAndCleanup ex ifName brokerIP gw dev full evs w"
proof -
  obtain fs where fs: "flag_Parse (spawn_argv ifName brokerIP gw dev full logFile logType) (client_flags me) = Inr fs"
    "flag_Bool fs ''supervise''" "flag_Bool fs ''full'' = full" "flag_Value fs ''clean-if'' = ifName"
    "flag_Value fs ''broker-ip'' = brokerIP" "flag_Value fs ''gw'' = gw" "flag_Value fs ''gw-dev'' = dev"
    "flag_Value fs ''log-file'' = logFile" "flag_Value fs ''log-type'' = logType"
    "flag_Value fs ''config'' = ''''" "flag_Value fs ''socks'' = ''''"
    by (rule flag_Parse_spawn)
  from assms obtain lg where "logx_Setup (me_log_open me) (me_quote me) ''client'' logFile logType = Inr lg"
    using logx_Setup_iff by metis
  then have "client_main me (spawn_argv ifName brokerIP gw dev full logFile logType) = Supervise ifName brokerIP gw dev full"
    using fs by (simp add: client_main_def client_start_up_def Let_def)
  then show ?thesis by (simp add: child_process_def)
qed

lemma supervise_end:
  "superviseAndCleanup ex ifName brokerIP gw dev full (replicate n PipeByte @ [PipeEnd]) w =
    (ChildDone, linux_Cleanup ex ifName brokerIP gw dev full w)"
  by (induction n) simp_all

section \<open>The network commands of a run\<close>

text \<open>An effect of the client on the host's interfaces and routes; the others leave them alone.\<close>

fun net_effect :: "'w exec \<Rightarrow> client_effect \<Rightarrow> 'w \<Rightarrow> 'w" where
  "net_effect ex (AddrUp ifName cidr mtu) w = snd (linux_AddrUp ex ifName cidr mtu w)"
| "net_effect ex (AddHostRoute brokerIP gw dev) w = snd (linux_AddHostRoute ex brokerIP gw dev w)"
| "net_effect ex (SetDefaultRoute ifName) w = snd (linux_SetDefaultRoute ex ifName w)"
| "net_effect ex _ w = w"

definition net_effects :: "'w exec \<Rightarrow> client_effect list \<Rightarrow> 'w \<Rightarrow> 'w" where
  "net_effects ex es w = fold (net_effect ex) es w"

text \<open>The route effects that a client with these parameters may have.\<close>

fun route_effect :: "client_env \<Rightarrow> run_params \<Rightarrow> client_effect \<Rightarrow> bool" where
  "route_effect env p (AddHostRoute b g d) = (b = rp_brokerIP p \<and> g = rp_gw p \<and> d = rp_dev p \<and> rp_full p)"
| "route_effect env p (SetDefaultRoute i) = (i = ce_tun env \<and> rp_full p)"
| "route_effect env p (SpawnSupervisor i b g d f lf lt) =
    (i = ce_tun env \<and> b = rp_brokerIP p \<and> g = rp_gw p \<and> d = rp_dev p \<and> f = rp_full p \<and> lf = rp_logFile p \<and>
     lt = rp_logType p)"
| "route_effect env p _ = True"

fun is_route :: "client_effect \<Rightarrow> bool" where
  "is_route (AddHostRoute b g d) = True"
| "is_route (SetDefaultRoute i) = True"
| "is_route (SpawnSupervisor i b g d f lf lt) = True"
| "is_route _ = False"

definition supervisor_of :: "client_env \<Rightarrow> run_params \<Rightarrow> client_effect" where
  "supervisor_of env p = SpawnSupervisor (ce_tun env) (rp_brokerIP p) (rp_gw p) (rp_dev p) (rp_full p) (rp_logFile p) (rp_logType p)"

definition routes_ok :: "client_env \<Rightarrow> client_st \<Rightarrow> bool" where
  "routes_ok env cl \<longleftrightarrow> (\<forall>e \<in> set (cl_out cl). route_effect env (cl_params cl) e) \<and>
    (ce_default_route env = None \<longrightarrow>
      (cl_routesUp cl \<longleftrightarrow> SetDefaultRoute (ce_tun env) \<in> set (cl_out cl)) \<and>
      (cl_routesUp cl \<longleftrightarrow> supervisor_of env (cl_params cl) \<in> set (cl_out cl)) \<and>
      (cl_routesUp cl \<longrightarrow> rp_full (cl_params cl)))"

text \<open>Every step but the answer to a connect message leaves the routes alone.\<close>

definition same_routes :: "client_st \<Rightarrow> client_st \<Rightarrow> bool" where
  "same_routes cl cl' \<longleftrightarrow> filter is_route (cl_out cl') = filter is_route (cl_out cl) \<and>
     cl_params cl' = cl_params cl \<and> cl_routesUp cl' = cl_routesUp cl"

lemma same_routes_refl [simp]: "same_routes cl cl"
  by (simp add: same_routes_def)

lemma same_routes_trans: "same_routes a b \<Longrightarrow> same_routes b c \<Longrightarrow> same_routes a c"
  by (simp add: same_routes_def)

lemma same_routes_effect [simp]: "\<not> is_route e \<Longrightarrow> same_routes a (c_effect e b) = same_routes a b"
  by (simp add: same_routes_def c_effect_def)

lemma same_routes_act [simp]: "same_routes a (upd_act i f b) = same_routes a b"
  by (simp add: same_routes_def upd_act_def)

lemma same_routes_upd [simp]:
  "same_routes a (b\<lparr>cl_pc := pc\<rparr>) = same_routes a b" "same_routes a (b\<lparr>cl_cur := cur\<rparr>) = same_routes a b"
  "same_routes a (b\<lparr>cl_first := fi\<rparr>) = same_routes a b" "same_routes a (b\<lparr>cl_backoff := bo\<rparr>) = same_routes a b"
  "same_routes a (b\<lparr>cl_lastTick := lt\<rparr>) = same_routes a b" "same_routes a (b\<lparr>cl_shuttingDown := sd\<rparr>) = same_routes a b"
  "same_routes a (b\<lparr>cl_acts := acts\<rparr>) = same_routes a b" "same_routes a (b\<lparr>cl_box := bx\<rparr>) = same_routes a b"
  by (simp_all add: same_routes_def)

lemma same_routes_down [simp]: "same_routes a (connection_down err b) = same_routes a b"
  by (simp add: connection_down_def Let_def split: loop_pc.split client_err.split bool.split)

lemma same_routes_fold [simp]: "(\<And>x. \<not> is_route (f x)) \<Longrightarrow> same_routes a (fold (\<lambda>x. c_effect (f x)) xs b) = same_routes a b"
  by (induction xs arbitrary: b) simp_all

lemma same_routes_close [simp]: "same_routes a (closeCode code b) = same_routes a b"
  by (simp add: closeCode_def split: option.split)

lemma same_routes_steps:
  "same_routes cl (client_dial d op wr cl)" "same_routes cl (client_control env now m cl)"
  "same_routes cl (relay_inbound i dg cl)" "same_routes cl (inbound_ends i cl)" "same_routes cl (tun_outbound env now pkt cl)"
  "same_routes cl (tun_failed err cl)" "same_routes cl (watchdog now cl)" "same_routes cl (client_shutdown cl)"
  "same_routes cl (sleep_over cl)" "same_routes cl (client_direct_begin lib i cl)"
  "same_routes cl (client_direct_result env ag send sigs i cl)" "same_routes cl (client_direct_datagram i dg cl)"
  "same_routes cl (client_direct_lost i cl)" "same_routes cl (client_report env now i cl)" "same_routes cl (client_report_stop i cl)"
  subgoal by (simp add: client_dial_def Let_def split: sum.split option.split)
  subgoal by (simp add: client_control_def split: loop_pc.split sum.split msg_type.split option.split)
  subgoal by (simp add: relay_inbound_def split: sum.split prod.split)
  subgoal by (simp add: inbound_ends_def)
  subgoal by (simp add: tun_outbound_def Let_def split: option.split prod.split)
  subgoal by (simp add: tun_failed_def)
  subgoal by (simp add: watchdog_def Let_def)
  subgoal by (simp add: client_shutdown_def)
  subgoal by (simp add: sleep_over_def)
  subgoal by (simp add: client_direct_begin_def)
  subgoal by (simp add: client_direct_result_def Let_def split: prod.split sum.split)
  subgoal by (simp add: client_direct_datagram_def split: option.split direct_pc.split)
  subgoal by (simp add: client_direct_lost_def split: option.split direct_pc.split)
  subgoal by (simp add: client_report_def Let_def split: option.split prod.split)
  subgoal by (simp add: client_report_stop_def)
  done

lemma routes_ok_same:
  assumes "routes_ok env cl" "same_routes cl cl'"
  shows "routes_ok env cl'"
proof -
  have plain: "route_effect env p e" if "\<not> is_route e" for p e using that by (cases e) simp_all
  have iff: "e \<in> set (cl_out cl') \<longleftrightarrow> e \<in> set (cl_out cl)" if "is_route e" for e
    using arg_cong [OF assms(2) [unfolded same_routes_def, THEN conjunct1], of set] that by auto
  have "route_effect env (cl_params cl) e" if "e \<in> set (cl_out cl')" for e
    using assms(1) iff [of e] plain [of e "cl_params cl"] that unfolding routes_ok_def by blast
  then show ?thesis
    using assms iff [of "SetDefaultRoute (ce_tun env)"] iff [of "supervisor_of env (cl_params cl)"]
    by (auto simp: routes_ok_def same_routes_def supervisor_of_def)
qed

lemma setup_routes_ok:
  assumes "routes_ok env cl" "setup_routes env cl = (r, cl')"
  shows "routes_ok env cl'"
  using assms by (auto simp: setup_routes_def routes_ok_def supervisor_of_def Let_def c_effect_def split: if_splits option.splits)

lemma routes_ok_reply:
  assumes "routes_ok env cl"
  shows "routes_ok env (client_reply env now ans cl)"
proof -
  have same: "routes_ok env cl'" if "same_routes cl cl'" for cl' by (rule routes_ok_same [OF assms that])
  have "routes_ok env cl2" if "setup_routes env (c_effect (AddrUp (ce_tun env) cidr mtu) cl) = (r, cl1)" "same_routes cl1 cl2" for cidr mtu r cl1 cl2
    using setup_routes_ok [OF same that(1)] routes_ok_same that(2) by simp
  then show ?thesis
    by (auto simp: client_reply_def Let_def intro!: same split: loop_pc.split sum.split bool.split prod.split option.split)
qed

lemma routes_ok_handle: "routes_ok env cl \<Longrightarrow> routes_ok env (client_handle env ev cl)"
  by (cases ev) (simp_all add: client_handle_def routes_ok_reply routes_ok_same [OF _ same_routes_steps(1)]
      routes_ok_same [OF _ same_routes_steps(2)] routes_ok_same [OF _ same_routes_steps(3)]
      routes_ok_same [OF _ same_routes_steps(4)] routes_ok_same [OF _ same_routes_steps(5)]
      routes_ok_same [OF _ same_routes_steps(6)] routes_ok_same [OF _ same_routes_steps(7)]
      routes_ok_same [OF _ same_routes_steps(8)] routes_ok_same [OF _ same_routes_steps(9)]
      routes_ok_same [OF _ same_routes_steps(10)] routes_ok_same [OF _ same_routes_steps(11)]
      routes_ok_same [OF _ same_routes_steps(12)] routes_ok_same [OF _ same_routes_steps(13)]
      routes_ok_same [OF _ same_routes_steps(14)] routes_ok_same [OF _ same_routes_steps(15)] routes_ok_same)

lemma routes_ok_init: "routes_ok env (client_init p now)"
  by (simp add: client_init_def routes_ok_def)

interpretation client_routes: inductive_invariant client_start "client_trans env" "routes_ok env" for env
  by unfold_locales (auto simp: client_start_def routes_ok_init elim!: client_trans.cases intro: routes_ok_handle)

section \<open>Routes of a run and their restoration\<close>

lemma default_not_host: "''default'' \<noteq> a @ ''/32''"
proof
  assume "''default'' = a @ ''/32''"
  then have "last ''default'' = last (a @ ''/32'')" by simp
  then show False by simp
qed

lemma iproute_AddrUp:
  assumes "iproute_doc ex gone rt" "d = ''default'' \<or> (\<exists>a. d = a @ ''/32'')"
  shows "rt (snd (linux_AddrUp ex i c m w)) d = rt w d"
proof -
  have "rt (snd (ex (''ip'' # ''addr'' # args) w)) d = rt w d" "rt (snd (ex (''ip'' # ''link'' # args) w)) d = rt w d" for args w
    by (rule iproute_laws(6) [OF assms(1) _ assms(2)], simp)+
  then show ?thesis
    by (simp add: linux_AddrUp_def or_return_frame [where f = "\<lambda>w. rt w d"])
qed

lemma iproute_default:
  assumes "iproute_doc ex gone rt" "fst (linux_SetDefaultRoute ex i w) = None"
  shows "rt (snd (linux_SetDefaultRoute ex i w)) = (rt w)(''default'' \<mapsto> (None, i))"
proof -
  from assms(2) obtain w' where "ex [''ip'', ''route'', ''replace'', ''default'', ''dev'', i] w = (None, w')"
    by (auto simp: linux_SetDefaultRoute_def run_def split: prod.splits option.splits)
  with iproute_laws(3) [OF assms(1)] show ?thesis by (simp add: linux_SetDefaultRoute_def)
qed

lemma iproute_host:
  assumes "iproute_doc ex gone rt"
  shows "rt (snd (linux_AddHostRoute ex b g i w)) \<in> {rt w, (rt w)(b @ ''/32'' \<mapsto> (Some g, i))}"
proof -
  obtain r w' where e: "ex [''ip'', ''route'', ''add'', b @ ''/32'', ''via'', g, ''dev'', i] w = (r, w')" by fastforce
  have "rt w' = (rt w)(b @ ''/32'' \<mapsto> (Some g, i))" if "r = None"
    by (rule iproute_laws(1) [OF assms e [unfolded that]])
  moreover have "rt w' = rt w" if "r = Some err" for err
    by (rule iproute_laws(2) [OF assms e [unfolded that]])
  ultimately have "rt w' \<in> {rt w, (rt w)(b @ ''/32'' \<mapsto> (Some g, i))}" by (cases r) simp_all
  with e show ?thesis by (simp add: linux_AddHostRoute_def)
qed

text \<open>The default route and the broker's host route after a sequence of the client's effects.\<close>

lemma net_effects_routes:
  assumes doc: "iproute_doc ex gone rt" and ok: "\<forall>e \<in> set es. route_effect env p e"
    and set: "\<And>w. fst (linux_SetDefaultRoute ex (ce_tun env) w) = None"
  shows "rt (net_effects ex es w) ''default'' =
      (if SetDefaultRoute (ce_tun env) \<in> set es then Some (None, ce_tun env) else rt w ''default'')"
    and "rt (net_effects ex es w) (rp_brokerIP p @ ''/32'') \<in> {rt w (rp_brokerIP p @ ''/32''), Some (Some (rp_gw p), rp_dev p)}"
  using ok unfolding net_effects_def
proof (induction es arbitrary: w)
  case (Cons e es)
  have host: "rt (snd (linux_AddHostRoute ex (rp_brokerIP p) (rp_gw p) (rp_dev p) w)) ''default'' = rt w ''default''"
    "rt (snd (linux_AddHostRoute ex (rp_brokerIP p) (rp_gw p) (rp_dev p) w)) (rp_brokerIP p @ ''/32'') \<in>
      {rt w (rp_brokerIP p @ ''/32''), Some (Some (rp_gw p), rp_dev p)}" for w
    using iproute_host [OF doc, of "rp_brokerIP p" "rp_gw p" "rp_dev p" w] default_not_host [of "rp_brokerIP p"] by auto
  note keep = iproute_AddrUp [OF doc] iproute_default [OF doc set] default_not_host [symmetric] host(1)
  {
    case (1 w)
    with Cons.IH(1) [of "net_effect ex e w"] show ?case by (cases e) (simp_all add: keep)
  next
    case (2 w)
    with Cons.IH(2) [of "net_effect ex e w"] host(2) [of w] show ?case by (cases e) (auto simp: keep)
  }
qed simp_all

lemma Cleanup_routes:
  assumes doc: "iproute_doc ex gone rt" and full: "b \<noteq> ''''" "g \<noteq> ''''" "d \<noteq> ''''"
    and ok: "\<And>w. fst (ex [''ip'', ''route'', ''replace'', ''default'', ''via'', g, ''dev'', d] w) = None"
  shows "rt (linux_Cleanup ex i b g d True w) = (rt w)(b @ ''/32'' := None, ''default'' \<mapsto> (Some g, d))"
proof -
  have "rt (snd (ex [''ip'', ''route'', ''replace'', ''default'', ''via'', g, ''dev'', d] w)) = (rt w)(''default'' \<mapsto> (Some g, d))" for w
    using iproute_laws(4) [OF doc] ok [of w] by (metis prod.collapse)
  with full show ?thesis by (simp add: linux_Cleanup_def Let_def iproute_laws(5) [OF doc])
qed

lemma gone_route:
  assumes "iproute_doc ex gone rt"
  shows "rt w d = Some (g, j) \<Longrightarrow> j \<noteq> i \<Longrightarrow> rt (gone i w) d = Some (g, j)"
    "rt w d = Some (g, i) \<Longrightarrow> rt (gone i w) d = None" "rt w d = None \<Longrightarrow> rt (gone i w) d = None"
  by (simp_all add: iproute_laws(7) [OF assms])



section \<open>Witnesses\<close>

text \<open>The routes as a table, and the commands as their manual describes them.\<close>

definition demo_ip :: "(string \<Rightarrow> route option) exec" where
  "demo_ip argv w =
    (if length argv < 2 \<or> argv ! 1 \<noteq> ''route'' then (None, w)
     else
       (case drop 2 argv of
          [op, d, _, g, _, i] \<Rightarrow>
            if op = ''add'' \<and> w d \<noteq> None then (Some (''exit status 2'', ''RTNETLINK answers: File exists''), w)
            else (None, w(d \<mapsto> (Some g, i)))
        | [op, d, _, i] \<Rightarrow>
            if op = ''replace'' then (None, w(d \<mapsto> (None, i)))
            else if (case w d of None \<Rightarrow> False | Some (_, j) \<Rightarrow> j = i) then (None, w(d := None))
            else (Some (''exit status 2'', ''RTNETLINK answers: No such process''), w)
        | [_, d] \<Rightarrow>
            if w d = None then (Some (''exit status 2'', ''RTNETLINK answers: No such process''), w)
            else (None, w(d := None))
        | _ \<Rightarrow> (None, w)))"

definition demo_gone :: "string \<Rightarrow> (string \<Rightarrow> route option) \<Rightarrow> string \<Rightarrow> route option" where
  "demo_gone i w d = (case w d of Some (g, j) \<Rightarrow> if j = i then None else Some (g, j) | None \<Rightarrow> None)"

lemma demo_ip_doc: "iproute_doc demo_ip demo_gone id"
  unfolding iproute_doc_def
  by (intro conjI allI impI) (auto simp: demo_ip_def demo_gone_def fun_eq_iff split: if_splits option.splits,
      metis option.exhaust surj_pair)

definition full_params :: run_params where
  "full_params = demo_params\<lparr>rp_full := True, rp_brokerIP := ''203.0.113.9'', rp_gw := ''192.168.1.1'', rp_dev := ''eth0''\<rparr>"

definition full_client :: client_st where
  "full_client = fold (client_handle demo_cenv) [Dialled (Inr 3) None None, Answered_by 5 (Inr demo_ok)]
     (client_init full_params 0)"

lemma full_client_run: "client_run demo_cenv full_client"
  unfolding full_client_def by (rule client_run_events [OF client_run_init])

lemma full_client_val: "cl_routesUp full_client" "cl_params full_client = full_params"
  by (simp_all add: full_client_def client_handle_def client_init_def client_dial_def client_reply_def
      setup_routes_def full_params_def demo_params_def demo_ok_def demo_cenv_def control_of_def StartRelay_New Let_def)

definition demo_main :: main_env where
  "demo_main = \<lparr>me_dur = \<lambda>_. Some 0, me_float = \<lambda>_. Some 0, me_config = \<lambda>_. None, me_log_open = \<lambda>_. None, me_quote = id,
     me_files = \<lambda>_. Inl '''', me_tun = Inr ''tun0'', me_socks = \<lambda>_ _. None, me_rand = None\<rparr>"

definition demo_routes :: "string \<Rightarrow> route option" where
  "demo_routes = [''default'' \<mapsto> (Some ''192.168.1.1'', ''eth0'')]"

definition demo_argv :: "string list" where
  "demo_argv = spawn_argv ''tun0'' ''203.0.113.9'' ''192.168.1.1'' ''eth0'' True '''' ''text''"

lemma full_params_val:
  "rp_full full_params" "rp_brokerIP full_params = ''203.0.113.9''" "rp_gw full_params = ''192.168.1.1''"
  "rp_dev full_params = ''eth0''" "rp_logFile full_params = ''''" "rp_logType full_params = ''text''"
  "ce_tun demo_cenv = ''tun0''" "ce_default_route demo_cenv = None"
  by (simp_all add: full_params_def demo_params_def demo_cenv_def)

lemma demo_logs: "map to_lower (trim is_space ''text'') \<in> {'''', ''text'', ''json''}"
  by code_simp

lemma demo_works:
  "fst (linux_SetDefaultRoute demo_ip i w) = None"
  "fst (demo_ip [''ip'', ''route'', ''replace'', ''default'', ''via'', g, ''dev'', d] w) = None"
  by (simp_all add: linux_SetDefaultRoute_def run_def demo_ip_def)



end
