(* ===== verification/ExitMain.thy ===== *)
theory ExitMain
  imports ClientMain NetCfg ExitProps IpPool
begin

text \<open>
  \<^verbatim>\<open>cmd/revquic-exit/main.go\<close> before the reconnect loop, on Linux: the flags, TLS, the TUN device, the addresses, NAT
  and isolation rules, and the state the exit starts with; and the routes of the status page of \<^verbatim>\<open>status.go\<close>.
\<close>

record exit_main_env = main_env +
  em_int :: "string \<Rightarrow> int option"
  em_ip_forward :: "string option"
  em_draw :: nat
  em_now :: gotime
  em_key :: "string + nat"

section \<open>Start-up\<close>

definition exit_flag_set :: "'e exit_main_env_scheme \<Rightarrow> flag_set" where
  "exit_flag_set me =
    \<lparr>fs_formal =
      [(''broker'', string_flag ''localhost:4242''), (''config'', string_flag ''''), (''log-file'', string_flag ''''),
       (''log-type'', string_flag ''text''), (''nodeId'', string_flag ''''), (''name'', string_flag ''''),
       (''status-addr'', string_flag ''127.0.0.1:8085''), (''region'', string_flag ''us-west''),
       (''capacity'', value_flag (\<lambda>s. em_int me s \<noteq> None) ''0''), (''uplink'', string_flag ''eth0''),
       (''gw'', string_flag ''10.99.0.1/24''), (''token'', string_flag ''node-secret''), (''isolate'', bool_flag True),
       (''rate-bytes'', value_flag (\<lambda>s. me_float me s \<noteq> None) ''0''),
       (''report-interval'', value_flag (\<lambda>s. me_dur me s \<noteq> None) ''5s''), (''direct'', bool_flag False),
       (''direct-mode'', string_flag ''any''), (''ice-keepalive'', value_flag (\<lambda>s. me_dur me s \<noteq> None) ''1s''),
       (''stun'', string_flag ''''), (''turn'', string_flag ''''), (''turn-user'', string_flag ''''),
       (''turn-pass'', string_flag ''''), (''tls-ca'', string_flag ''''), (''tls-cert'', string_flag ''''),
       (''tls-key'', string_flag ''''), (''tls-server-name'', string_flag ''broker'')],
     fs_actual = []\<rparr>"

definition exit_flags_of :: "'e exit_main_env_scheme \<Rightarrow> flag_set \<Rightarrow> exit_flags" where
  "exit_flags_of me fs =
    \<lparr>xf_nodeId = flag_Value fs ''nodeId'', xf_name = flag_Value fs ''name'', xf_region = flag_Value fs ''region'',
     xf_rateBytes = flag_Float64 (main_env.truncate me) fs ''rate-bytes'',
     xf_reportInterval = flag_Duration (main_env.truncate me) fs ''report-interval'',
     xf_direct = flag_Bool fs ''direct'', xf_directMode = flag_Value fs ''direct-mode'', xf_stun = flag_Value fs ''stun'',
     xf_turn = flag_Value fs ''turn'', xf_turnUser = flag_Value fs ''turn-user'', xf_turnPass = flag_Value fs ''turn-pass'',
     xf_iceKeepalive = flag_Duration (main_env.truncate me) fs ''ice-keepalive''\<rparr>"

text \<open>Whether all three TLS files are named, and the configurations of the two ends.\<close>

definition mtls_files :: "flag_set \<Rightarrow> (string \<times> string \<times> string) option" where
  "mtls_files fs =
    (let ca = flag_Value fs ''tls-ca''; cert = flag_Value fs ''tls-cert''; key = flag_Value fs ''tls-key'' in
     if ca \<noteq> '''' \<and> cert \<noteq> '''' \<and> key \<noteq> '''' then Some (ca, cert, key) else None)"

definition exit_broker_tls :: "'e exit_main_env_scheme \<Rightarrow> flag_set \<Rightarrow> string + tls_config" where
  "exit_broker_tls me fs =
    (case mtls_files fs of
       None \<Rightarrow> Inr ClientTLS
     | Some (ca, cert, key) \<Rightarrow>
         (case ClientMTLSFromFiles (me_files me) ca cert key (flag_Value fs ''tls-server-name'') of
            Inl _ \<Rightarrow> Inl ''mTLS''
          | Inr cfg \<Rightarrow> Inr cfg))"

definition exit_direct_tls :: "'e exit_main_env_scheme \<Rightarrow> flag_set \<Rightarrow> string + tls_config" where
  "exit_direct_tls me fs =
    (case mtls_files fs of
       None \<Rightarrow> (case ServerTLS (em_now me) (em_key me) of Inl _ \<Rightarrow> Inl ''direct tls'' | Inr cfg \<Rightarrow> Inr cfg)
     | Some (ca, cert, key) \<Rightarrow>
         (case ServerMTLSFromFiles (me_files me) ca cert key of Inl _ \<Rightarrow> Inl ''direct mTLS'' | Inr cfg \<Rightarrow> Inr cfg))"

definition vpn_cidr :: string where
  "vpn_cidr = ''10.99.0.0/24''"

text \<open>The commands of the start-up in order; the first that fails ends the process.\<close>

definition fatal :: "string \<Rightarrow> string option \<times> 'w \<Rightarrow> ('w \<Rightarrow> (string + 'a) \<times> 'w) \<Rightarrow> (string + 'a) \<times> 'w" where
  "fatal what r k = (case r of (Some err, w) \<Rightarrow> (Inl (what @ '': '' @ err), w) | (None, w) \<Rightarrow> k w)"

definition exit_network :: "'e exit_main_env_scheme \<Rightarrow> 'w exec \<Rightarrow> string \<Rightarrow> flag_set \<Rightarrow> 'w \<Rightarrow> (string + unit) \<times> 'w" where
  "exit_network me ex tun fs w =
    fatal ''addr'' (linux_AddrUp ex tun (flag_Value fs ''gw'') (int SafeTunnelMTU) w) (\<lambda>w.
    fatal ''forwarding'' (linux_EnableForwarding ex (em_ip_forward me) w) (\<lambda>w.
    fatal ''masquerade'' (linux_Masquerade ex vpn_cidr (flag_Value fs ''uplink'') w) (\<lambda>w.
    if flag_Bool fs ''isolate'' then fatal ''isolate'' (linux_Isolate ex vpn_cidr w) (\<lambda>w. (Inr (), w))
    else (Inr (), w))))"

datatype exit_action =
  ExitFlagError flag_error
| ExitFatal string
| ExitRuns exit_st tls_config tls_config flag_set

definition exit_start_up :: "'e exit_main_env_scheme \<Rightarrow> 'w exec \<Rightarrow> flag_set \<Rightarrow> 'w \<Rightarrow> exit_action \<times> 'w" where
  "exit_start_up me ex fs w =
    (case logx_Setup (me_log_open me) (me_quote me) ''exit'' (flag_Value fs ''log-file'') (flag_Value fs ''log-type'') of
       Inl err \<Rightarrow> (ExitFatal (''log: '' @ err), w)
     | Inr _ \<Rightarrow>
         (case exit_broker_tls me fs of
            Inl err \<Rightarrow> (ExitFatal err, w)
          | Inr brokerTLS \<Rightarrow>
              (case me_tun me of
                 Inl err \<Rightarrow> (ExitFatal (''tun: '' @ err), w)
               | Inr tun \<Rightarrow>
                   (case exit_network me ex tun fs w of
                      (Inl err, w) \<Rightarrow> (ExitFatal err, w)
                    | (Inr _, w) \<Rightarrow>
                        (case exit_direct_tls me fs of
                           Inl err \<Rightarrow> (ExitFatal err, w)
                         | Inr directTLS \<Rightarrow>
                             (ExitRuns (exit_init (em_draw me) (exit_flags_of me fs)) brokerTLS directTLS fs, w))))))"

definition exit_main :: "'e exit_main_env_scheme \<Rightarrow> 'w exec \<Rightarrow> string list \<Rightarrow> 'w \<Rightarrow> exit_action \<times> 'w" where
  "exit_main me ex args w =
    (case flag_Parse args (exit_flag_set me) of
       Inl err \<Rightarrow> (ExitFlagError err, w)
     | Inr fs \<Rightarrow>
         (let path = flag_Value fs ''config'' in
          if path = '''' then exit_start_up me ex fs w
          else (case ApplyFile (me_config me path) fs of
                  Inl _ \<Rightarrow> (ExitFatal ''config'', w)
                | Inr fs \<Rightarrow> exit_start_up me ex fs w)))"

text \<open>The address of the status page, if it is served, and its routes.\<close>

definition status_addr :: "flag_set \<Rightarrow> string option" where
  "status_addr fs =
    (let sa = trim is_space (flag_Value fs ''status-addr'') in if sa \<noteq> '''' \<and> sa \<noteq> ''off'' then Some sa else None)"

datatype status_page = StatusJson | StatusHtml | StatusNotFound

definition statusHandler :: "string \<Rightarrow> status_page" where
  "statusHandler path =
    (if path = ''/api/status'' then StatusJson else if path = ''/'' then StatusHtml else StatusNotFound)"

section \<open>Isolation\<close>

lemma fatal_ok: "fatal what r k = (Inr v, w') \<longleftrightarrow> fst r = None \<and> k (snd r) = (Inr v, w')"
  by (auto simp: fatal_def split: prod.splits option.splits)

lemma exit_network_fwd:
  assumes doc: "iptables_doc ex fwd" and ok: "exit_network me ex tun fs w = (Inr (), w')"
  shows "fwd w' p =
    (if flag_Bool fs ''isolate'' \<and> in_cidr vpn_cidr (fp_src p) \<and> (\<exists>d \<in> set (vpn_cidr # private_ranges). in_cidr d (fp_dst p))
     then Some DROP
     else case fwd w p of Some v \<Rightarrow> Some v
       | None \<Rightarrow> if fp_out p = flag_Value fs ''uplink'' \<or> fp_in p = flag_Value fs ''uplink'' \<and> fp_established p
                 then Some ACCEPT else None)"
proof -
  let ?w1 = "snd (linux_AddrUp ex tun (flag_Value fs ''gw'') (int SafeTunnelMTU) w)"
  let ?w2 = "snd (linux_EnableForwarding ex (em_ip_forward me) ?w1)"
  let ?m = "linux_Masquerade ex vpn_cidr (flag_Value fs ''uplink'') ?w2"
  from ok have "fst ?m = None" and rest: "if flag_Bool fs ''isolate'' then fst (linux_Isolate ex vpn_cidr (snd ?m)) = None \<and>
      w' = snd (linux_Isolate ex vpn_cidr (snd ?m)) else w' = snd ?m"
    by (auto simp: exit_network_def fatal_ok split: if_splits)
  then have m: "?m = (None, snd ?m)" by (simp add: prod_eq_iff)
  have "fwd ?w2 = fwd w" using EnableForwarding_fwd [OF doc] AddrUp_fwd [OF doc] by simp
  with Masquerade_fwd [OF doc m, of p] Isolate_fwd [OF doc, of vpn_cidr "snd ?m" w' p] rest show ?thesis
    by (auto simp: prod_eq_iff split: if_splits)
qed

text \<open>The ranges in numbers.\<close>

lemma in_cidr_ranges:
  "in_cidr vpn_cidr a \<longleftrightarrow> unat a div 2 ^ 8 = 0x0A6300"
  "in_cidr ''10.0.0.0/8'' a \<longleftrightarrow> unat a div 2 ^ 24 = 10"
  "in_cidr ''172.16.0.0/12'' a \<longleftrightarrow> unat a div 2 ^ 20 = 0xAC1"
  "in_cidr ''192.168.0.0/16'' a \<longleftrightarrow> unat a div 2 ^ 16 = 0xC0A8"
  "in_cidr ''169.254.0.0/16'' a \<longleftrightarrow> unat a div 2 ^ 16 = 0xA9FE"
proof -
  let ?p = "ParsePrefix (\<lambda>_. Inl (OtherParse ''''))"
  have "?p vpn_cidr = Inr \<lparr>pfx_addr = Addr4 0x0A630000, pfx_bits = 24\<rparr>"
    "?p ''10.0.0.0/8'' = Inr \<lparr>pfx_addr = Addr4 0x0A000000, pfx_bits = 8\<rparr>"
    "?p ''172.16.0.0/12'' = Inr \<lparr>pfx_addr = Addr4 0xAC100000, pfx_bits = 12\<rparr>"
    "?p ''192.168.0.0/16'' = Inr \<lparr>pfx_addr = Addr4 0xC0A80000, pfx_bits = 16\<rparr>"
    "?p ''169.254.0.0/16'' = Inr \<lparr>pfx_addr = Addr4 0xA9FE0000, pfx_bits = 16\<rparr>"
    by code_simp+
  then show "in_cidr vpn_cidr a \<longleftrightarrow> unat a div 2 ^ 8 = 0x0A6300"
    "in_cidr ''10.0.0.0/8'' a \<longleftrightarrow> unat a div 2 ^ 24 = 10"
    "in_cidr ''172.16.0.0/12'' a \<longleftrightarrow> unat a div 2 ^ 20 = 0xAC1"
    "in_cidr ''192.168.0.0/16'' a \<longleftrightarrow> unat a div 2 ^ 16 = 0xC0A8"
    "in_cidr ''169.254.0.0/16'' a \<longleftrightarrow> unat a div 2 ^ 16 = 0xA9FE"
    by (simp_all only: in_cidr_def sum.case prefix_contains.simps prefix.simps addr.case drop_bit_xor_zero) simp_all
qed

text \<open>RFC 1918 and link-local addresses; the addresses of the VPN are among them.\<close>

definition private_addr :: "u32 \<Rightarrow> bool" where
  "private_addr a = (unat a div 2 ^ 24 = 10 \<or> unat a div 2 ^ 20 = 0xAC1 \<or> unat a div 2 ^ 16 \<in> {0xC0A8, 0xA9FE})"

lemma vpn_is_private: "unat a div 2 ^ 8 = 0x0A6300 \<Longrightarrow> private_addr a"
proof -
  assume "unat a div 2 ^ 8 = 0x0A6300"
  moreover have "unat a div 2 ^ 24 = unat a div 2 ^ 8 div 2 ^ 16" by (simp add: div_mult2_eq [symmetric])
  ultimately show ?thesis by (simp add: private_addr_def)
qed

lemma blocked_iff: "(\<exists>d \<in> set (vpn_cidr # private_ranges). in_cidr d a) \<longleftrightarrow> private_addr a"
  using vpn_is_private [of a] by (auto simp: private_ranges_def in_cidr_ranges private_addr_def)

lemma exit_main_network:
  assumes "exit_main me ex args w = (ExitRuns x0 b d fs, w')"
  obtains tun where "exit_network me ex tun fs w = (Inr (), w')"
  using assms
  by (auto simp: exit_main_def exit_start_up_def Let_def split: sum.splits if_splits prod.splits)


section \<open>Witness\<close>

text \<open>The FORWARD chain as a list of rules, of which the first that matches decides.\<close>

type_synonym chain = "((fwd_packet \<Rightarrow> bool) \<times> verdict) list"

fun first_match :: "chain \<Rightarrow> fwd_packet \<Rightarrow> verdict option" where
  "first_match [] p = None"
| "first_match ((m, v) # rs) p = (if m p then Some v else first_match rs p)"

lemma first_match_snoc:
  "first_match (rs @ [(m, v)]) p = (case first_match rs p of Some u \<Rightarrow> Some u | None \<Rightarrow> if m p then Some v else None)"
  by (induction rs) auto

definition demo_iptables :: "chain exec" where
  "demo_iptables argv rs =
    (if hd argv \<noteq> ''iptables'' then (None, rs)
     else
       (case tl argv of
          [op, _, f, s, _, d, _, _] \<Rightarrow>
            if op = ''-I'' then (None, (\<lambda>p. in_cidr s (fp_src p) \<and> in_cidr d (fp_dst p), DROP) # rs) else (None, rs)
        | [op, _, f, u, _, _] \<Rightarrow> if op = ''-A'' then (None, rs @ [(\<lambda>p. fp_out p = u, ACCEPT)]) else (None, rs)
        | [op, _, f, u, _, _, _, _, _, _] \<Rightarrow>
            if op = ''-A'' then (None, rs @ [(\<lambda>p. fp_in p = u \<and> fp_established p, ACCEPT)]) else (None, rs)
        | _ \<Rightarrow> (None, rs)))"

lemma demo_iptables_doc: "iptables_doc demo_iptables first_match"
  unfolding iptables_doc_def
  by (intro conjI allI impI) (auto simp: demo_iptables_def first_match_snoc split: list.split)

definition demo_em :: exit_main_env where
  "demo_em = \<lparr>me_dur = \<lambda>_. Some 0, me_float = \<lambda>_. Some 0, me_config = \<lambda>_. None, me_log_open = \<lambda>_. None, me_quote = id,
     me_files = \<lambda>_. Inl '''', me_tun = Inr ''tun0'', me_socks = \<lambda>_ _. None, me_rand = None, em_int = \<lambda>_. Some 0,
     em_ip_forward = Some ''1'', em_draw = 0, em_now = 0, em_key = Inr 1\<rparr>"

lemma demo_em_val [simp]:
  "me_tun demo_em = Inr ''tun0''" "em_ip_forward demo_em = Some ''1''" "em_key demo_em = Inr 1"
  by (simp_all add: demo_em_def)

lemma demo_network: "fst (exit_network demo_em demo_iptables tun fs rs) = Inr ()"
  by (simp add: exit_network_def fatal_def linux_AddrUp_def linux_EnableForwarding_def linux_Masquerade_def linux_Isolate_def
      private_ranges_def netcfg demo_iptables_def)

lemma demo_boot:
  obtains x0 b d w' where "exit_main demo_em demo_iptables [] rs = (ExitRuns x0 b d (exit_flag_set demo_em), w')"
proof -
  let ?fs = "exit_flag_set demo_em"
  have v: "flag_Value ?fs ''log-file'' = ''''" "flag_Value ?fs ''log-type'' = ''text''" "flag_Value ?fs ''config'' = ''''"
    "flag_Value ?fs ''tls-ca'' = ''''"
    by (simp_all add: flag_Value_def exit_flag_set_def mget_def string_flag_def)
  have "map to_lower (trim is_space ''text'') = ''text''" by code_simp
  moreover obtain w' where "exit_network demo_em demo_iptables ''tun0'' ?fs rs = (Inr (), w')"
    using demo_network by (metis prod.collapse)
  ultimately show ?thesis
    using that v by (simp add: exit_main_def exit_start_up_def logx_Setup_def exit_broker_tls_def exit_direct_tls_def mtls_files_def
        ServerTLS_def selfSigned_def CreateCertificate_def Let_def)
qed


end
