(* ===== verification/BrokerMain.thy ===== *)
theory BrokerMain
  imports ClientMain AdminServer QosSql
begin

text \<open>
  \<^verbatim>\<open>cmd/revquic-broker/main.go\<close>: the flags of the broker and what \<open>main\<close> makes of them before it listens: the
  stores it opens, the TLS of the control plane, and how the admin server is served. The state built from these is
  \<open>boot\<close> of \<open>Broker\<close>. What the files and databases hold, or the error of opening them, is in \<open>broker_main_env\<close>.
\<close>

record broker_main_env = main_env +
  bm_users_file :: "string \<Rightarrow> string + user_rec list option"
  bm_users_sql :: "string \<Rightarrow> string + user_rec list"
  bm_admins_file :: "string \<Rightarrow> string + admin_acc list option"
  bm_admins_sql :: "string \<Rightarrow> string + admin_acc list"
  bm_history_file :: "string \<Rightarrow> string + qos_event list"
  bm_history_sql :: "string \<Rightarrow> string + (nat \<times> qos_event) list \<times> nat"
  bm_read :: "string \<Rightarrow> bytes option"
  bm_now :: gotime
  bm_key :: "string + nat"
  bm_listen :: "string \<Rightarrow> string option"

section \<open>Flags\<close>

definition broker_flag_set :: "'e main_env_scheme \<Rightarrow> flag_set" where
  "broker_flag_set me =
    \<lparr>fs_formal =
      [(''quic'', string_flag '':4242''), (''config'', string_flag ''''), (''log-file'', string_flag ''''),
       (''log-type'', string_flag ''text''), (''http'', string_flag '':8080''), (''http-tls-cert'', string_flag ''''),
       (''http-tls-key'', string_flag ''''), (''admin-token'', string_flag ''admin-secret''),
       (''admin-user'', string_flag ''admin''), (''admin-pass'', string_flag ''admin''), (''admindb'', string_flag ''''),
       (''node-token'', string_flag ''node-secret''), (''lb'', string_flag ''least-conn''),
       (''session-resume-ttl'', value_flag (\<lambda>s. me_dur me s \<noteq> None) ''1h0m0s''), (''userdb'', string_flag ''''),
       (''qosdb'', string_flag ''''), (''cred-pepper'', string_flag ''dev-pepper''), (''store'', string_flag ''mem''),
       (''seed-user'', string_flag ''''), (''seed-oidc-user'', string_flag ''''), (''tls-ca'', string_flag ''''),
       (''tls-cert'', string_flag ''''), (''tls-key'', string_flag ''''), (''oidc-issuer'', string_flag ''''),
       (''oidc-audience'', string_flag ''''), (''oidc-jwks-url'', string_flag ''''), (''oidc-jwks-file'', string_flag ''''),
       (''turn-secret'', string_flag ''''), (''turn-url'', string_flag ''''), (''stun-url'', string_flag '''')],
     fs_actual = []\<rparr>"

section \<open>Stores\<close>

definition path_or :: "string \<Rightarrow> string \<Rightarrow> string" where
  "path_or path dflt = (if path = '''' then dflt else path)"

definition open_users :: "'e broker_main_env_scheme \<Rightarrow> flag_set \<Rightarrow> string + user_store" where
  "open_users me fs =
    (let store = flag_Value fs ''store''; userdb = flag_Value fs ''userdb''; pepper = flag_Value fs ''cred-pepper'' in
     if store = ''sqlite'' then
       (case bm_users_sql me (path_or userdb ''users.db'') of
          Inl err \<Rightarrow> Inl (''open sqlite userdb '' @ path_or userdb ''users.db'' @ '': '' @ err)
        | Inr rows \<Rightarrow> Inr (SqlStore \<lparr>sq_rows = rows, sq_pepper = pepper\<rparr>))
     else if store = ''file'' then
       (if userdb = '''' then Inl ''-store=file requires -userdb''
        else (case bm_users_file me userdb of
                Inl err \<Rightarrow> Inl (''open userdb '' @ userdb @ '': '' @ err)
              | Inr disk \<Rightarrow> Inr (TableStore (us_NewFile userdb pepper disk))))
     else Inr (TableStore (us_New pepper)))"

definition open_admins :: "'e broker_main_env_scheme \<Rightarrow> flag_set \<Rightarrow> string + admin_store" where
  "open_admins me fs =
    (let store = flag_Value fs ''store''; admindb = flag_Value fs ''admindb'' in
     if store = ''sqlite'' then
       (case bm_admins_sql me (path_or admindb ''admins.db'') of
          Inl err \<Rightarrow> Inl (''open sqlite admindb '' @ path_or admindb ''admins.db'' @ '': '' @ err)
        | Inr rows \<Rightarrow> Inr (AdminSql \<lparr>aq_rows = rows\<rparr>))
     else if store = ''file'' then
       (if admindb = '''' then Inl ''-store=file requires -admindb''
        else (case bm_admins_file me admindb of
                Inl err \<Rightarrow> Inl (''open admindb '' @ admindb @ '': '' @ err)
              | Inr disk \<Rightarrow> Inr (AdminTable (at_NewFile admindb disk))))
     else Inr (AdminTable at_New))"

datatype history = NoHistory | FileHistory async_store | SqliteHistory sqlite_backend

definition open_history :: "'e broker_main_env_scheme \<Rightarrow> flag_set \<Rightarrow> string + history" where
  "open_history me fs =
    (let store = flag_Value fs ''store''; qosdb = flag_Value fs ''qosdb'' in
     if store = ''sqlite'' then
       (case bm_history_sql me (path_or qosdb ''qos.db'') of
          Inl err \<Rightarrow> Inl (''open sqlite qos history '' @ path_or qosdb ''qos.db'' @ '': '' @ err)
        | Inr (rows, seq) \<Rightarrow> Inr (SqliteHistory (NewSQLiteHistory rows seq)))
     else if store = ''file'' then
       (case bm_history_file me (path_or qosdb ''qos-history.jsonl'') of
          Inl err \<Rightarrow> Inl (''open file qos history '' @ path_or qosdb ''qos-history.jsonl'' @ '': '' @ err)
        | Inr rows \<Rightarrow> Inr (FileHistory (NewFileHistory rows)))
     else Inr NoHistory)"

section \<open>Servers\<close>

datatype admin_http = AdminHTTPS string string string | AdminPlain string

definition admin_listen :: "flag_set \<Rightarrow> admin_http" where
  "admin_listen fs =
    (let addr = flag_Value fs ''http''; cert = flag_Value fs ''http-tls-cert''; key = flag_Value fs ''http-tls-key'' in
     if cert \<noteq> '''' \<and> key \<noteq> '''' then AdminHTTPS addr cert key else AdminPlain addr)"

definition broker_tls :: "'e broker_main_env_scheme \<Rightarrow> flag_set \<Rightarrow> string + tls_config" where
  "broker_tls me fs =
    (let ca = flag_Value fs ''tls-ca''; cert = flag_Value fs ''tls-cert''; key = flag_Value fs ''tls-key'' in
     if ca \<noteq> '''' \<and> cert \<noteq> '''' \<and> key \<noteq> '''' then
       (case ServerMTLSFromFiles (me_files me) ca cert key of Inl _ \<Rightarrow> Inl ''mTLS'' | Inr cfg \<Rightarrow> Inr cfg)
     else (case ServerTLS (bm_now me) (bm_key me) of Inl _ \<Rightarrow> Inl ''tls'' | Inr cfg \<Rightarrow> Inr cfg))"

definition new_server :: "flag_set \<Rightarrow> admin_store \<Rightarrow> admin_server" where
  "new_server fs admins =
    \<lparr>sv_admins = Some admins, sv_bootstrap = flag_Value fs ''admin-token'', sv_sessions = []\<rparr>"

text \<open>
  The flags as \<open>boot\<close> takes them. The tracker's own store is the file history; an SQLite history is loaded into the
  tracker here and stays beside the broker, as \<open>QosSql\<close> has it.
\<close>

definition preload_sqlite :: "history \<Rightarrow> tracker \<Rightarrow> tracker" where
  "preload_sqlite h t =
    (case h of
       SqliteHistory q \<Rightarrow> t\<lparr>t_hist := last_n (t_histCap t) (rev (qb_load DefaultHistory q))\<rparr>
     | _ \<Rightarrow> t)"

definition broker_flags_of :: "'e broker_main_env_scheme \<Rightarrow> flag_set \<Rightarrow> history \<Rightarrow> broker_flags" where
  "broker_flags_of me fs h =
    \<lparr>fl_nodeToken = flag_Value fs ''node-token'', fl_lb = flag_Value fs ''lb'',
     fl_resumeTTL = flag_Duration (main_env.truncate me) fs ''session-resume-ttl'',
     fl_seedUser = flag_Value fs ''seed-user'', fl_seedOIDCUser = flag_Value fs ''seed-oidc-user'',
     fl_history = (case h of FileHistory hs \<Rightarrow> Some hs | _ \<Rightarrow> None),
     fl_turnSecret = flag_Value fs ''turn-secret'', fl_turnURL = flag_Value fs ''turn-url'',
     fl_stunURL = flag_Value fs ''stun-url'', fl_oidcIssuer = flag_Value fs ''oidc-issuer'',
     fl_oidcAudience = flag_Value fs ''oidc-audience'', fl_oidcJWKSURL = flag_Value fs ''oidc-jwks-url'',
     fl_oidcJWKSFile = (let f = flag_Value fs ''oidc-jwks-file'' in if f = '''' then None else Some (bm_read me f))\<rparr>"

datatype broker_action =
  BrokerFlagError flag_error
| BrokerFatal string
| BrokerServes broker history admin_server tls_config admin_http

text \<open>\<open>main\<close> from the parsed flags on, in the order of its fatal errors.\<close>

definition serve ::
  "broker_env \<Rightarrow> (string \<Rightarrow> bytes \<Rightarrow> bytes) \<Rightarrow> bytes option \<Rightarrow> 'e broker_main_env_scheme \<Rightarrow> flag_set \<Rightarrow> history \<Rightarrow> broker \<Rightarrow>
    broker_action" where
  "serve env prf salt me fs h b =
    (case open_admins me fs of
       Inl err \<Rightarrow> BrokerFatal err
     | Inr admins \<Rightarrow>
         (case seed_admin prf salt (be_db_ok env) (be_now env) (flag_Value fs ''admin-user'') (flag_Value fs ''admin-pass'')
                 admins of
            None \<Rightarrow> BrokerFatal ''seed admin''
          | Some admins \<Rightarrow>
              (case broker_tls me fs of
                 Inl err \<Rightarrow> BrokerFatal err
               | Inr tls \<Rightarrow>
                   (case bm_listen me (flag_Value fs ''quic'') of
                      Some err \<Rightarrow> BrokerFatal (''listen: '' @ err)
                    | None \<Rightarrow> BrokerServes b h (new_server fs admins) tls (admin_listen fs)))))"

definition seed_and_serve ::
  "(string \<Rightarrow> parse_error + addr) \<Rightarrow> broker_env \<Rightarrow> (string \<Rightarrow> bytes \<Rightarrow> bytes) \<Rightarrow> bytes option \<Rightarrow> string \<Rightarrow> string \<Rightarrow>
    'e broker_main_env_scheme \<Rightarrow> flag_set \<Rightarrow> user_store \<Rightarrow> broker_action" where
  "seed_and_serve parse6 env prf salt id1 id2 me fs users =
    (case seed_user env id1 (flag_Value fs ''seed-user'') users of
       None \<Rightarrow> BrokerFatal ''seed user''
     | Some seeded \<Rightarrow>
         if seed_oidc_user env id2 (flag_Value fs ''seed-oidc-user'') seeded = None then BrokerFatal ''seed oidc user''
         else
           (case open_history me fs of
              Inl err \<Rightarrow> BrokerFatal err
            | Inr h \<Rightarrow>
                (case boot parse6 env id1 id2 (broker_flags_of me fs h) users of
                   None \<Rightarrow> BrokerFatal ''oidc''
                 | Some b \<Rightarrow> serve env prf salt me fs h (b\<lparr>b_qos := preload_sqlite h (b_qos b)\<rparr>))))"

definition broker_start_up ::
  "(string \<Rightarrow> parse_error + addr) \<Rightarrow> broker_env \<Rightarrow> (string \<Rightarrow> bytes \<Rightarrow> bytes) \<Rightarrow> bytes option \<Rightarrow> string \<Rightarrow> string \<Rightarrow>
    'e broker_main_env_scheme \<Rightarrow> flag_set \<Rightarrow> broker_action" where
  "broker_start_up parse6 env prf salt id1 id2 me fs =
    (case logx_Setup (me_log_open me) (me_quote me) ''broker'' (flag_Value fs ''log-file'') (flag_Value fs ''log-type'') of
       Inl err \<Rightarrow> BrokerFatal (''log: '' @ err)
     | Inr _ \<Rightarrow>
         (case open_users me fs of
            Inl err \<Rightarrow> BrokerFatal err
          | Inr users \<Rightarrow> seed_and_serve parse6 env prf salt id1 id2 me fs users))"

definition broker_main ::
  "(string \<Rightarrow> parse_error + addr) \<Rightarrow> broker_env \<Rightarrow> (string \<Rightarrow> bytes \<Rightarrow> bytes) \<Rightarrow> bytes option \<Rightarrow> string \<Rightarrow> string \<Rightarrow>
    'e broker_main_env_scheme \<Rightarrow> string list \<Rightarrow> broker_action" where
  "broker_main parse6 env prf salt id1 id2 me args =
    (case flag_Parse args (broker_flag_set me) of
       Inl err \<Rightarrow> BrokerFlagError err
     | Inr fs \<Rightarrow>
         (let path = flag_Value fs ''config'' in
          if path = '''' then broker_start_up parse6 env prf salt id1 id2 me fs
          else (case ApplyFile (me_config me path) fs of
                  Inl _ \<Rightarrow> BrokerFatal ''config''
                | Inr fs \<Rightarrow> broker_start_up parse6 env prf salt id1 id2 me fs)))"

section \<open>Lemmas\<close>

text \<open>
  Only the two named stores persist anything: under every other value of \<open>-store\<close>, the default included, the paths of the
  users, the admins and the history are not read at all.
\<close>

lemma other_store_forgets:
  assumes "flag_Value fs ''store'' \<noteq> ''sqlite''" "flag_Value fs ''store'' \<noteq> ''file''"
  shows "open_users me fs = Inr (TableStore (us_New (flag_Value fs ''cred-pepper''))) \<and>
    open_admins me fs = Inr (AdminTable at_New) \<and> open_history me fs = Inr NoHistory"
  using assms by (simp add: open_users_def open_admins_def open_history_def Let_def)

text \<open>The admin page is served encrypted exactly when both files are named.\<close>

lemma admin_listen_https: "(\<exists>a c k. admin_listen fs = AdminHTTPS a c k) \<longleftrightarrow>
    flag_Value fs ''http-tls-cert'' \<noteq> '''' \<and> flag_Value fs ''http-tls-key'' \<noteq> ''''"
  by (simp add: admin_listen_def Let_def)

text \<open>
  A broker that serves takes the configured bootstrap token, starts with no login session, and demands a client
  certificate exactly when all three files of mutual TLS are named.
\<close>

lemma serve_serves:
  assumes "serve env prf salt me fs h b = BrokerServes b' h' srv tls http"
  shows "b' = b \<and> sv_bootstrap srv = flag_Value fs ''admin-token'' \<and> sv_sessions srv = [] \<and>
    tc_RequireClientCert tls =
      (flag_Value fs ''tls-ca'' \<noteq> '''' \<and> flag_Value fs ''tls-cert'' \<noteq> '''' \<and> flag_Value fs ''tls-key'' \<noteq> '''')"
  using assms
  by (auto simp: serve_def new_server_def broker_tls_def ServerMTLSFromFiles_def read_three_def ServerMTLS_def
      ServerTLS_def base_config_def Let_def split: sum.splits option.splits if_splits)

lemma broker_serves:
  assumes "broker_start_up parse6 env prf salt id1 id2 me fs = BrokerServes b h srv tls http"
  shows "sv_bootstrap srv = flag_Value fs ''admin-token'' \<and> sv_sessions srv = [] \<and>
    tc_RequireClientCert tls =
      (flag_Value fs ''tls-ca'' \<noteq> '''' \<and> flag_Value fs ''tls-cert'' \<noteq> '''' \<and> flag_Value fs ''tls-key'' \<noteq> '''')"
  using assms
  by (auto simp: broker_start_up_def seed_and_serve_def split: sum.splits option.splits if_splits dest: serve_serves)

end
