(* ===== verification/LiveFeed.thy ===== *)
theory LiveFeed
  imports AdminServer Logx
begin

text \<open>
  \<^verbatim>\<open>internal/adminserver/adminserver.go\<close>, the live feed: the loop that copies the events of a subscription to the
  response after its snapshot. The encoder of an event and the writer of the response are arguments; one operation of
  the run is one operation on the bus, of this feed or of anybody else, or the end of the request. Only the feed itself
  closes its channel, when it leaves, so a receive yields an event or blocks.
\<close>

section \<open>Frames\<close>

definition writeSSE ::
  "(admin_event \<Rightarrow> string option) \<Rightarrow> (string \<Rightarrow> 'w \<Rightarrow> bool \<times> 'w) \<Rightarrow> admin_event \<Rightarrow> 'w \<Rightarrow> bool \<times> 'w" where
  "writeSSE enc wr ev w =
    (case enc ev of
       None \<Rightarrow> (True, w)
     | Some b \<Rightarrow>
         (case wr ''data: '' w of
            (False, w) \<Rightarrow> (False, w)
          | (True, w) \<Rightarrow>
              (case wr b w of (False, w) \<Rightarrow> (False, w) | (True, w) \<Rightarrow> wr [newline, newline] w)))"

section \<open>The loop\<close>

record 'w feed =
  fd_live :: bool
  fd_bus :: bus
  fd_w :: 'w

text \<open>Leaving the handler cancels the subscription.\<close>

definition feed_write ::
  "(admin_event \<Rightarrow> string option) \<Rightarrow> (string \<Rightarrow> 'w \<Rightarrow> bool \<times> 'w) \<Rightarrow> nat \<Rightarrow> admin_event \<Rightarrow> 'w feed \<Rightarrow> 'w feed" where
  "feed_write enc wr i ev f =
    (case writeSSE enc wr ev (fd_w f) of
       (True, w) \<Rightarrow> f\<lparr>fd_w := w\<rparr>
     | (False, w) \<Rightarrow> f\<lparr>fd_live := False, fd_bus := Unsubscribe i (fd_bus f), fd_w := w\<rparr>)"

definition feed_begin ::
  "(admin_event \<Rightarrow> string option) \<Rightarrow> (string \<Rightarrow> 'w \<Rightarrow> bool \<times> 'w) \<Rightarrow> nat \<Rightarrow> admin_event \<Rightarrow> bus \<Rightarrow> 'w \<Rightarrow> 'w feed" where
  "feed_begin enc wr i snap b w = feed_write enc wr i snap \<lparr>fd_live = True, fd_bus = b, fd_w = w\<rparr>"

datatype feed_op = OnBus bus_op | RequestDone

fun feed_step ::
  "(admin_event \<Rightarrow> string option) \<Rightarrow> (string \<Rightarrow> 'w \<Rightarrow> bool \<times> 'w) \<Rightarrow> nat \<Rightarrow> feed_op \<Rightarrow> 'w feed \<Rightarrow> 'w feed" where
  "feed_step enc wr i RequestDone f =
    (if fd_live f then f\<lparr>fd_live := False, fd_bus := Unsubscribe i (fd_bus f)\<rparr> else f)"
| "feed_step enc wr i (OnBus x) f =
    (if x \<noteq> BRecv i then f\<lparr>fd_bus := bus_step x (fd_bus f)\<rparr>
     else if \<not> fd_live f then f
     else (case chan_recv i (fd_bus f) of
             (None, _) \<Rightarrow> f
           | (Some ev, b) \<Rightarrow> feed_write enc wr i ev (f\<lparr>fd_bus := b\<rparr>)))"

definition feed_run ::
  "(admin_event \<Rightarrow> string option) \<Rightarrow> (string \<Rightarrow> 'w \<Rightarrow> bool \<times> 'w) \<Rightarrow> nat \<Rightarrow> feed_op list \<Rightarrow> 'w feed \<Rightarrow> 'w feed" where
  "feed_run enc wr i ops f = fold (feed_step enc wr i) ops f"

section \<open>What a browser reads\<close>

definition sse_text :: "(admin_event \<Rightarrow> string option) \<Rightarrow> admin_event list \<Rightarrow> string" where
  "sse_text enc evs =
    concat (map (\<lambda>ev. case enc ev of None \<Rightarrow> '''' | Some b \<Rightarrow> ''data: '' @ b @ [newline, newline]) evs)"

definition append_writer :: "string \<Rightarrow> string \<Rightarrow> bool \<times> string" where
  "append_writer s t = (True, t @ s)"

lemma sse_text_append [simp]: "sse_text enc (xs @ ys) = sse_text enc xs @ sse_text enc ys"
  by (simp add: sse_text_def)

lemma writeSSE_append: "writeSSE enc append_writer ev t = (True, t @ sse_text enc [ev])"
  by (simp add: writeSSE_def append_writer_def sse_text_def split: option.split)

lemma feed_write_append: "feed_write enc append_writer i ev f = f\<lparr>fd_w := fd_w f @ sse_text enc [ev]\<rparr>"
  by (simp add: feed_write_def writeSSE_append)

text \<open>While the writer works the feed is the subscriber of the bus model, and writes what it receives.\<close>

lemma feed_run_append:
  "fd_live f \<Longrightarrow> feed_run enc append_writer i (map OnBus xs) f =
    f\<lparr>fd_bus := fold bus_step xs (fd_bus f), fd_w := fd_w f @ sse_text enc (received i xs (fd_bus f))\<rparr>"
proof (induction xs arbitrary: f)
  case Nil
  then show ?case by (simp add: feed_run_def sse_text_def)
next
  case (Cons x xs)
  have step: "feed_step enc append_writer i (OnBus x) f =
      f\<lparr>fd_bus := bus_step x (fd_bus f), fd_w := fd_w f @ sse_text enc (received i [x] (fd_bus f))\<rparr>"
    using Cons.prems by (auto simp: feed_write_append sse_text_def chan_recv_def split: option.splits list.splits)
  have rec: "received i (x # xs) b = received i [x] b @ received i xs (bus_step x b)" for b by simp
  show ?case
    using Cons.IH [of "feed_step enc append_writer i (OnBus x) f"] Cons.prems
    by (simp add: feed_run_def step rec del: received.simps feed_step.simps)
qed

lemma feed_end:
  assumes "\<not> fd_live f'" "f' = feed_step enc wr i op f" "fd_live f"
  shows "i \<notin> mkeys (bus_subs (fd_bus f'))"
  using assms by (cases op)
    (auto simp: feed_write_def Unsubscribe_def mkeys_iff split: option.splits prod.splits bool.splits if_splits)

lemma Subscribe_new: "bus_ok b \<Longrightarrow> Subscribe b = (i, b') \<Longrightarrow>
    bus_ok b' \<and> mget (bus_subs b') i = Some \<lparr>ch_buf = [], ch_closed = False\<rparr>"
  using bus_ok_step [of b BSubscribe] by (auto simp: Subscribe_def)

text \<open>
  C30: The dashboard's live feed misses nothing. The response to a request for the event stream starts with a snapshot
  of the nodes and sessions of that moment, and a feed that keeps room in its channel then carries every event
  published on the bus, once and in order, as one frame each: what it has written and what is still in its
  channel are the snapshot and everything published since. When the request is over its channel leaves the bus.
\<close>

theorem live_feed_exact:
  assumes ok: "bus_ok (b_bus b)" and start: "events env r b = ((200, EventStream i snap), b')"
    and f: "f = feed_run enc append_writer i (map OnBus ops) (feed_begin enc append_writer i snap (b_bus b') t)"
    and ops: "BUnsubscribe i \<notin> set ops" "keeps_up i ops (b_bus b')"
  shows "e_Snapshot snap = Some \<lparr>sn_Nodes = ListNodes (ae_b env) b', sn_Sessions = ListSessions (ae_b env) b'\<rparr> \<and>
    fd_live f \<and>
    (\<exists>c. mget (bus_subs (fd_bus f)) i = Some c \<and>
      fd_w f @ sse_text enc (ch_buf c) = t @ sse_text enc (snap # published ops)) \<and>
    i \<notin> mkeys (bus_subs (fd_bus (feed_step enc append_writer i RequestDone f)))"
proof -
  from start obtain bus where sub: "Subscribe (b_bus b) = (i, bus)" and b': "b' = b\<lparr>b_bus := bus\<rparr>"
    and snap: "e_Snapshot snap = Some \<lparr>sn_Nodes = ListNodes (ae_b env) b', sn_Sessions = ListSessions (ae_b env) b'\<rparr>"
    by (auto simp: events_def writeErr_def Let_def split: if_splits prod.splits)
  have run: "f = \<lparr>fd_live = True, fd_bus = fold bus_step ops bus,
      fd_w = t @ sse_text enc [snap] @ sse_text enc (received i ops bus)\<rparr>"
    by (simp add: f feed_begin_def feed_write_append feed_run_append b')
  obtain c where c: "mget (bus_subs (fold bus_step ops bus)) i = Some c" "published ops = received i ops bus @ ch_buf c"
    using bus_delivery [of bus i _ ops] Subscribe_new [OF ok sub] ops by (auto simp: b')
  have "i \<notin> mkeys (bus_subs (fd_bus (feed_step enc append_writer i RequestDone f)))"
    by (rule feed_end [of _ enc append_writer i RequestDone f]) (simp_all add: run)
  moreover have "sse_text enc (snap # published ops) = sse_text enc [snap] @ sse_text enc (published ops)"
    by (simp add: sse_text_def)
  ultimately show ?thesis using c snap by (simp add: run)
qed

definition feed_request :: http_request where
  "feed_request = \<lparr>rq_method = GET, rq_path = [''api'', ''v1'', ''events''], rq_authorization = '''', rq_query = [],
     rq_login = None, rq_create = None, rq_update = None, rq_flusher = True\<rparr>"

theorem live_feed_exact_witness:
  "\<forall>env b. \<exists>snap b' c.
    events env feed_request (b\<lparr>b_bus := NewBus\<rparr>) = ((200, EventStream 0 snap), b') \<and>
    (let f = feed_run (\<lambda>_. Some ''{}'') append_writer 0 (map OnBus [BPublish (ev_at 1), BRecv 0, BPublish (ev_at 2)])
               (feed_begin (\<lambda>_. Some ''{}'') append_writer 0 snap (b_bus b') '''')
     in mget (bus_subs (fd_bus f)) 0 = Some c \<and>
       fd_w f @ sse_text (\<lambda>_. Some ''{}'') (ch_buf c) = sse_text (\<lambda>_. Some ''{}'') [snap, ev_at 1, ev_at 2])"
proof (intro allI)
  fix env b
  obtain snap b' where ev: "events env feed_request (b\<lparr>b_bus := NewBus\<rparr>) = ((200, EventStream 0 snap), b')"
    and bus: "b_bus b' = snd (Subscribe NewBus)"
    by (simp add: events_def feed_request_def Subscribe_def NewBus_def Let_def)
  have "keeps_up 0 [BPublish (ev_at 1), BRecv 0, BPublish (ev_at 2)] (b_bus b')"
    unfolding bus by code_simp
  then show "\<exists>snap b' c.
    events env feed_request (b\<lparr>b_bus := NewBus\<rparr>) = ((200, EventStream 0 snap), b') \<and>
    (let f = feed_run (\<lambda>_. Some ''{}'') append_writer 0 (map OnBus [BPublish (ev_at 1), BRecv 0, BPublish (ev_at 2)])
               (feed_begin (\<lambda>_. Some ''{}'') append_writer 0 snap (b_bus b') '''')
     in mget (bus_subs (fd_bus f)) 0 = Some c \<and>
       fd_w f @ sse_text (\<lambda>_. Some ''{}'') (ch_buf c) = sse_text (\<lambda>_. Some ''{}'') [snap, ev_at 1, ev_at 2])"
    using live_feed_exact [OF _ ev refl, of "[BPublish (ev_at 1), BRecv 0, BPublish (ev_at 2)]" "\<lambda>_. Some ''{}''" "''''"] ev
    by (auto simp: NewBus_ok Let_def)
qed

end
