(* ===== verification/NetCfgOther.thy ===== *)
theory NetCfgOther
  imports NetCfg GoStrings
begin

text \<open>
  \<^verbatim>\<open>internal/netcfg/netcfg_darwin.go\<close>, \<^verbatim>\<open>netcfg_windows.go\<close>, \<^verbatim>\<open>netcfg_wincmds.go\<close> and \<^verbatim>\<open>netcfg_other.go\<close>: the network
  configuration on the other systems. Commands are argument vectors, run by the argument \<open>ex\<close> as on Linux. The text form
  of IPv6 addresses are the arguments \<open>parse6\<close> and \<open>show6\<close>.
\<close>

section \<open>CIDR notation and gateways\<close>

record ipnet =
  in_IP :: addr
  in_bits :: nat

text \<open>\<open>net.ParseCIDR\<close>: the address, and the network it is in.\<close>

definition ParseCIDR :: "(string \<Rightarrow> parse_error + addr) \<Rightarrow> string \<Rightarrow> (addr \<times> ipnet) option" where
  "ParseCIDR parse6 s =
    (let a = takeWhile (\<lambda>c. c \<noteq> CHR ''/'') s; m = drop (length a + 1) s in
     if CHR ''/'' \<notin> set s then None
     else (case ParseAddr parse6 a of
             Inl _ \<Rightarrow> None
           | Inr ip \<Rightarrow>
               if m = '''' \<or> \<not> list_all is_digit_char m \<or> read_digits m > max_bits ip then None
               else (let p = Masked \<lparr>pfx_addr = ip, pfx_bits = read_digits m\<rparr> in
                     Some (ip, \<lparr>in_IP = pfx_addr p, in_bits = pfx_bits p\<rparr>))))"

text \<open>The first host of a network: the last byte plus one, within the byte.\<close>

definition gateway :: "ipnet \<Rightarrow> addr" where
  "gateway n =
    (case in_IP n of
       Addr4 w \<Rightarrow> AddrFrom4 (take 3 (As4 w) @ [As4 w ! 3 + 1])
     | a \<Rightarrow> a)"

definition winGateway :: "ipnet \<Rightarrow> addr" where
  "winGateway n =
    (case in_IP n of
       Addr4 w \<Rightarrow> AddrFrom4 (take 3 (As4 w) @ [As4 w ! 3 + 1])
     | a \<Rightarrow> a)"

definition ipnet_String :: "(128 word \<Rightarrow> string) \<Rightarrow> ipnet \<Rightarrow> string" where
  "ipnet_String show6 n = AddrString show6 (in_IP n) @ ''/'' @ show_nat (in_bits n)"

text \<open>The dotted mask of an IPv4 network, and the address of as many bits for IPv6.\<close>

definition mask_String :: "(128 word \<Rightarrow> string) \<Rightarrow> ipnet \<Rightarrow> string" where
  "mask_String show6 n =
    (case in_IP n of
       Addr4 _ \<Rightarrow> string4 (push_bit (32 - in_bits n) (- 1))
     | _ \<Rightarrow> show6 (push_bit (128 - in_bits n) (- 1)))"

section \<open>Running commands\<close>

definition run_join :: "'w exec \<Rightarrow> string \<Rightarrow> string list \<Rightarrow> 'w \<Rightarrow> string option \<times> 'w" where
  "run_join ex name args w =
    (case ex (name # args) w of
       (None, w) \<Rightarrow> (None, w)
     | (Some (err, out), w) \<Rightarrow> (Some (name @ '' '' @ join_sp args @ '': '' @ err @ '': '' @ trim is_space out), w))"

fun runAll :: "'w exec \<Rightarrow> string list list \<Rightarrow> 'w \<Rightarrow> string option \<times> 'w" where
  "runAll ex [] w = (None, w)"
| "runAll ex (c # cs) w = or_return (run_join ex (hd c) (tl c) w) (runAll ex cs)"

text \<open>Best effort: every command is run, errors are ignored.\<close>

fun run_each :: "'w exec \<Rightarrow> string list list \<Rightarrow> 'w \<Rightarrow> 'w" where
  "run_each ex [] w = w"
| "run_each ex (c # cs) w = run_each ex cs (snd (run_join ex (hd c) (tl c) w))"

section \<open>macOS\<close>

definition addrUpCmds ::
  "(string \<Rightarrow> parse_error + addr) \<Rightarrow> (128 word \<Rightarrow> string) \<Rightarrow> string \<Rightarrow> string \<Rightarrow> int \<Rightarrow> string + string list list" where
  "addrUpCmds parse6 show6 ifName cidr mtu =
    (case ParseCIDR parse6 cidr of
       None \<Rightarrow> Inl ''parse cidr''
     | Some (local, net) \<Rightarrow>
         Inr ([[''ifconfig'', ifName, ''inet'', AddrString show6 local, AddrString show6 (gateway net), ''up'']] @
              (if mtu > 0 then [[''ifconfig'', ifName, ''mtu'', show_int mtu]] else []) @
              [[''route'', ''-n'', ''add'', ''-net'', ipnet_String show6 net, ''-interface'', ifName]]))"

definition darwin_AddrUp ::
  "(string \<Rightarrow> parse_error + addr) \<Rightarrow> (128 word \<Rightarrow> string) \<Rightarrow> 'w exec \<Rightarrow> string \<Rightarrow> string \<Rightarrow> int \<Rightarrow> 'w \<Rightarrow> string option \<times> 'w" where
  "darwin_AddrUp parse6 show6 ex ifName cidr mtu w =
    (case addrUpCmds parse6 show6 ifName cidr mtu of Inl err \<Rightarrow> (Some err, w) | Inr cmds \<Rightarrow> runAll ex cmds w)"

definition addHostRouteCmds :: "string \<Rightarrow> string \<Rightarrow> string list list" where
  "addHostRouteCmds brokerIP viaGateway = [[''route'', ''-n'', ''add'', ''-host'', brokerIP, viaGateway]]"

definition darwin_AddHostRoute :: "'w exec \<Rightarrow> string \<Rightarrow> string \<Rightarrow> string \<Rightarrow> 'w \<Rightarrow> string option \<times> 'w" where
  "darwin_AddHostRoute ex brokerIP viaGateway devName = runAll ex (addHostRouteCmds brokerIP viaGateway)"

definition setDefaultRouteCmds :: "string \<Rightarrow> string list list" where
  "setDefaultRouteCmds ifName =
    [[''route'', ''-n'', ''add'', ''-net'', ''0.0.0.0/1'', ''-interface'', ifName],
     [''route'', ''-n'', ''add'', ''-net'', ''128.0.0.0/1'', ''-interface'', ifName]]"

definition darwin_SetDefaultRoute :: "'w exec \<Rightarrow> string \<Rightarrow> 'w \<Rightarrow> string option \<times> 'w" where
  "darwin_SetDefaultRoute ex ifName = runAll ex (setDefaultRouteCmds ifName)"

definition darwin_Cleanup :: "'w exec \<Rightarrow> string \<Rightarrow> string \<Rightarrow> string \<Rightarrow> string \<Rightarrow> bool \<Rightarrow> 'w \<Rightarrow> 'w" where
  "darwin_Cleanup ex ifName brokerIP gw gwDev full w =
    (let w = (if full
              then snd (run_join ex ''route'' [''-n'', ''delete'', ''-net'', ''128.0.0.0/1'']
                     (snd (run_join ex ''route'' [''-n'', ''delete'', ''-net'', ''0.0.0.0/1''] w)))
              else w)
     in if brokerIP \<noteq> '''' then snd (run_join ex ''route'' [''-n'', ''delete'', ''-host'', brokerIP] w) else w)"

definition unsupportedDarwin :: "string \<Rightarrow> string" where
  "unsupportedDarwin opn = ''netcfg.'' @ opn @ '': exit-side NAT is Linux-only '' @
     [CHR 0xE2, CHR 0x80, CHR 0x94] @ '' run the exit node on Linux''"

section \<open>Windows\<close>

definition winAddrUpCmds ::
  "(string \<Rightarrow> parse_error + addr) \<Rightarrow> (128 word \<Rightarrow> string) \<Rightarrow> string \<Rightarrow> string \<Rightarrow> int \<Rightarrow> string + string list list \<times> string" where
  "winAddrUpCmds parse6 show6 ifName cidr mtu =
    (case ParseCIDR parse6 cidr of
       None \<Rightarrow> Inl ''parse cidr''
     | Some (local, net) \<Rightarrow>
         Inr ([[''netsh'', ''interface'', ''ip'', ''set'', ''address'', ''name='' @ ifName, ''source=static'',
                ''addr='' @ AddrString show6 local, ''mask='' @ mask_String show6 net]] @
              (if mtu > 0 then [[''netsh'', ''interface'', ''ipv4'', ''set'', ''subinterface'', ifName,
                                 ''mtu='' @ show_int mtu, ''store=active'']] else []),
              AddrString show6 (winGateway net)))"

definition winHostRouteCmds :: "string \<Rightarrow> string \<Rightarrow> string list list" where
  "winHostRouteCmds brokerIP viaGateway =
    [[''route'', ''add'', brokerIP, ''mask'', ''255.255.255.255'', viaGateway, ''metric'', ''1'']]"

definition winDefaultRouteCmds :: "string \<Rightarrow> string \<Rightarrow> string list list" where
  "winDefaultRouteCmds ifName gw =
    [[''netsh'', ''interface'', ''ipv4'', ''add'', ''route'', ''prefix=0.0.0.0/1'', ''interface='' @ ifName, ''nexthop='' @ gw],
     [''netsh'', ''interface'', ''ipv4'', ''add'', ''route'', ''prefix=128.0.0.0/1'', ''interface='' @ ifName, ''nexthop='' @ gw]]"

definition winCleanupCmds :: "string \<Rightarrow> string \<Rightarrow> bool \<Rightarrow> string list list" where
  "winCleanupCmds ifName brokerIP full =
    (if full then
       [[''netsh'', ''interface'', ''ipv4'', ''delete'', ''route'', ''prefix=0.0.0.0/1'', ''interface='' @ ifName],
        [''netsh'', ''interface'', ''ipv4'', ''delete'', ''route'', ''prefix=128.0.0.0/1'', ''interface='' @ ifName]]
     else []) @
    (if brokerIP \<noteq> '''' then [[''route'', ''delete'', brokerIP]] else [])"

definition ps :: "string \<Rightarrow> string list" where
  "ps cmd = [''powershell'', ''-NoProfile'', ''-NonInteractive'', ''-Command'', cmd]"

definition winNatName :: string where
  "winNatName = ''Revquic''"

definition winFirewallRuleCmds :: "string \<Rightarrow> string list list" where
  "winFirewallRuleCmds vpnCIDR =
    [ps (''$n='Revquic-VPN'; '' @
         ''Remove-NetFirewallRule -DisplayName $n -ErrorAction SilentlyContinue; '' @
         ''New-NetFirewallRule -DisplayName $n -Direction Inbound  -Action Allow -RemoteAddress '' @ vpnCIDR @
         '' -Profile Any -ErrorAction Stop | Out-Null; '' @
         ''New-NetFirewallRule -DisplayName $n -Direction Outbound -Action Allow -RemoteAddress '' @ vpnCIDR @
         '' -Profile Any -ErrorAction Stop | Out-Null'')]"

definition winEnableForwardingCmds :: "string list list" where
  "winEnableForwardingCmds = [ps ''Set-NetIPInterface -AddressFamily IPv4 -Forwarding Enabled'']"

definition winMasqueradeCmds :: "string \<Rightarrow> string list list" where
  "winMasqueradeCmds srcCIDR =
    [ps (''Start-Service WinNat -ErrorAction SilentlyContinue; '' @
         ''try { Remove-NetNat -Name '' @ winNatName @ '' -Confirm:$false -ErrorAction SilentlyContinue } catch {}; '' @
         ''try { New-NetNat -Name '' @ winNatName @ '' -InternalIPInterfaceAddressPrefix '' @ srcCIDR @
         '' -ErrorAction Stop | Out-Null } '' @
         ''catch { Write-Error ('WinNAT is required for the Windows exit but is unavailable: ' + $_.Exception.Message + '' @
         ''' -- New-NetNat/WinNAT is missing on this Windows edition (e.g. Home) or the WinNat service/driver is not installed. '' @
         ''Install/enable WinNAT (Windows Pro/Enterprise/Server, or enable the Hyper-V/WinNat feature), or run the exit on Linux (WSL2, Docker, or a VM).'); exit 1 }'')]"

text \<open>The variable \<open>winState.gw\<close> is an argument and a result.\<close>

definition win_AddrUp ::
  "(string \<Rightarrow> parse_error + addr) \<Rightarrow> (128 word \<Rightarrow> string) \<Rightarrow> 'w exec \<Rightarrow> string \<Rightarrow> string \<Rightarrow> int \<Rightarrow> string \<times> 'w \<Rightarrow>
    string option \<times> string \<times> 'w" where
  "win_AddrUp parse6 show6 ex ifName cidr mtu st =
    (case winAddrUpCmds parse6 show6 ifName cidr mtu of
       Inl err \<Rightarrow> (Some err, st)
     | Inr (cmds, gw) \<Rightarrow> (case runAll ex cmds (snd st) of (err, w) \<Rightarrow> (err, gw, w)))"

definition win_AddHostRoute :: "'w exec \<Rightarrow> string \<Rightarrow> string \<Rightarrow> string \<Rightarrow> 'w \<Rightarrow> string option \<times> 'w" where
  "win_AddHostRoute ex brokerIP viaGateway devName = runAll ex (winHostRouteCmds brokerIP viaGateway)"

definition win_SetDefaultRoute :: "'w exec \<Rightarrow> string \<Rightarrow> string \<times> 'w \<Rightarrow> string option \<times> string \<times> 'w" where
  "win_SetDefaultRoute ex ifName st =
    (case runAll ex (winDefaultRouteCmds ifName (fst st)) (snd st) of (err, w) \<Rightarrow> (err, fst st, w))"

definition win_Cleanup :: "'w exec \<Rightarrow> string \<Rightarrow> string \<Rightarrow> string \<Rightarrow> string \<Rightarrow> bool \<Rightarrow> 'w \<Rightarrow> 'w" where
  "win_Cleanup ex ifName brokerIP gw gwDev full = run_each ex (winCleanupCmds ifName brokerIP full)"

definition win_EnableForwarding :: "'w exec \<Rightarrow> 'w \<Rightarrow> string option \<times> 'w" where
  "win_EnableForwarding ex = runAll ex winEnableForwardingCmds"

definition win_Masquerade :: "'w exec \<Rightarrow> string \<Rightarrow> string \<Rightarrow> 'w \<Rightarrow> string option \<times> 'w" where
  "win_Masquerade ex srcCIDR uplinkIface w =
    or_return (runAll ex (winMasqueradeCmds srcCIDR) w) (\<lambda>w. (None, snd (runAll ex (winFirewallRuleCmds srcCIDR) w)))"

definition win_Isolate :: "'w exec \<Rightarrow> string \<Rightarrow> 'w \<Rightarrow> string option \<times> 'w" where
  "win_Isolate ex vpnCIDR w = (None, w)"

section \<open>Other systems\<close>

definition unsupported :: "string \<Rightarrow> string \<Rightarrow> string" where
  "unsupported goos opn = ''netcfg.'' @ opn @ '': unsupported on '' @ goos @ '' (Phase 0 requires Linux)''"

section \<open>Lemmas\<close>

text \<open>
  In a network of at most 24 bits the gateway is the network address plus one: the byte does not wrap. So the
  client's peer is the address that the broker's pool reserves.
\<close>

lemma gateway_first_host:
  assumes "in_IP n = Addr4 (push_bit 8 v)"
  shows "gateway n = Addr4 (push_bit 8 v + 1)"
proof -
  let ?w = "push_bit 8 v :: u32"
  have 4: "be_put 4 ?w = be_put 3 (drop_bit 8 ?w) @ [ucast ?w]" using be_put_Suc [of 3 ?w] by simp
  have 0: "(ucast ?w :: u8) = 0" by (rule bit_word_eqI) (simp add: bit_ucast_iff bit_push_bit_iff)
  have "be_get (be_put 3 (drop_bit 8 ?w) @ [1]) = (push_bit 8 (drop_bit 8 ?w) OR 1 :: u32)"
    by (simp add: be_get_snoc be_get_put take_bit_drop_bit take_bit_word_eq_self flip: drop_bit_take_bit)
  also have "push_bit 8 (drop_bit 8 ?w) = ?w"
    by (rule bit_word_eqI) (auto simp: bit_push_bit_iff bit_drop_bit_eq)
  also have "?w OR 1 = ?w + 1"
    by (subst disjunctive_add) (auto simp: bit_push_bit_iff bit_1_iff)
  finally show ?thesis
    using assms 4 0 by (simp add: gateway_def As4_def AddrFrom4_def nth_append)
qed

lemma winGateway_gateway: "winGateway n = gateway n"
  by (simp add: winGateway_def gateway_def)

text \<open>On macOS, cleaning up deletes exactly the routes that a full tunnel adds.\<close>

definition darwin_undo :: "string list \<Rightarrow> string list" where
  "darwin_undo c = [c ! 0, c ! 1, ''delete'', c ! 3, c ! 4]"

lemma darwin_Cleanup_undoes:
  "b \<noteq> '''' \<Longrightarrow> darwin_Cleanup ex i b g d True w =
    run_each ex (map darwin_undo (setDefaultRouteCmds i @ addHostRouteCmds b g)) w"
  by (simp add: darwin_Cleanup_def setDefaultRouteCmds_def addHostRouteCmds_def darwin_undo_def Let_def)

end
