(* ===== verification/Explain.thy ===== *)
theory Explain
  imports GoStrings
begin

text \<open>
  \<^verbatim>\<open>internal/quicx/explain.go\<close>: the message for a failed broker connection. An error is its text and what the
  code asks of it; Go's quoting verb \<open>%q\<close> is the argument \<open>quote\<close>.
\<close>

record dial_error =
  de_text :: string
  de_dns :: "string option"
  de_deadline :: bool
  de_timeout :: bool

text \<open>Go's \<open>strings.Contains\<close>.\<close>

fun Contains :: "string \<Rightarrow> string \<Rightarrow> bool" where
  "Contains [] sub = (sub = [])"
| "Contains (c # s) sub = (cut_prefix sub (c # s) \<noteq> None \<or> Contains s sub)"

text \<open>\<open>net.SplitHostPort\<close>, by the place \<open>i\<close> of the last colon and \<open>e\<close> of the first closing bracket.\<close>

definition index_of :: "char \<Rightarrow> string \<Rightarrow> nat option" where
  "index_of c s = (if c \<in> set s then Some (length (takeWhile (\<lambda>x. x \<noteq> c) s)) else None)"

definition last_index :: "char \<Rightarrow> string \<Rightarrow> nat option" where
  "last_index c s = map_option (\<lambda>k. length s - 1 - k) (index_of c (rev s))"

definition SplitHostPort :: "string \<Rightarrow> (string \<times> string) option" where
  "SplitHostPort hp =
    (case last_index (CHR '':'') hp of
       None \<Rightarrow> None
     | Some i \<Rightarrow>
         if hd hp = CHR ''['' then
           (case index_of (CHR '']'') hp of
              None \<Rightarrow> None
            | Some e \<Rightarrow>
                if e + 1 \<noteq> i \<or> CHR ''['' \<in> set (drop 1 hp) \<or> CHR '']'' \<in> set (drop (e + 1) hp) then None
                else Some (take (e - 1) (drop 1 hp), drop (i + 1) hp))
         else if CHR '':'' \<in> set (take i hp) \<or> CHR ''['' \<in> set hp \<or> CHR '']'' \<in> set hp then None
         else Some (take i hp, drop (i + 1) hp))"

definition hostPort :: "string \<Rightarrow> string \<times> string" where
  "hostPort addr =
    (case SplitHostPort addr of
       Some (h, p) \<Rightarrow> if p = '''' then (if addr = '''' then (''(unset)'', ''4242'') else (addr, ''4242'')) else (h, p)
     | None \<Rightarrow> if addr = '''' then (''(unset)'', ''4242'') else (addr, ''4242''))"

definition isTimeout :: "dial_error \<Rightarrow> bool" where
  "isTimeout err = de_timeout err"

text \<open>The dash of the messages, in UTF-8.\<close>

definition dash :: string where
  "dash = [CHR '' '', CHR 0xE2, CHR 0x80, CHR 0x94, CHR '' '']"

definition tls_problem :: "string \<Rightarrow> bool" where
  "tls_problem raw =
    (Contains raw ''x509'' \<or> Contains raw ''certificate'' \<or> Contains raw ''tls:'' \<or> Contains raw ''CRYPTO_ERROR'')"

definition no_response :: "string \<Rightarrow> string \<Rightarrow> string" where
  "no_response brokerAddr port =
    ''no response from broker '' @ brokerAddr @ dash @ ''it may be down, UDP port '' @ port @
    '' may be blocked by a firewall, or there is no network route to it (Revquic uses QUIC over UDP, not TCP)''"

definition Explain :: "(string \<Rightarrow> string) \<Rightarrow> dial_error option \<Rightarrow> string \<Rightarrow> string" where
  "Explain quote err brokerAddr =
    (case err of
       None \<Rightarrow> ''''
     | Some err \<Rightarrow>
         (let raw = de_text err; (host, port) = hostPort brokerAddr in
          case de_dns err of
            Some dns \<Rightarrow>
              ''cannot resolve broker host '' @ quote host @ '' ('' @ dns @ '')'' @ dash @
              ''check the address, your DNS, and that you have internet''
          | None \<Rightarrow>
              if tls_problem raw then
                ''TLS handshake with broker '' @ brokerAddr @ '' failed ('' @ raw @ '')'' @ dash @
                ''check -tls-ca/-tls-cert/-tls-key, that -tls-server-name matches the broker certificate SAN, and that the broker requires/accepts your cert''
              else if Contains raw ''connection refused'' then
                ''broker '' @ brokerAddr @ '' refused the connection'' @ dash @
                ''is the broker running and listening on UDP port '' @ port @ ''?''
              else if Contains raw ''no route to host'' \<or> Contains raw ''network is unreachable'' then
                ''network unreachable while reaching broker '' @ brokerAddr @ dash @ ''is your internet/VPN up?''
              else if de_deadline err \<or> isTimeout err \<or> Contains raw ''no recent network activity'' \<or> Contains raw ''handshake'' then
                no_response brokerAddr port
              else ''could not reach broker '' @ brokerAddr @ '': '' @ raw))"

section \<open>Lemmas\<close>

lemma Contains_iff: "Contains s sub \<longleftrightarrow> (\<exists>a b. s = a @ sub @ b)"
proof (induction s)
  case (Cons c s)
  have "cut_prefix sub (c # s) \<noteq> None \<longleftrightarrow> (\<exists>b. c # s = sub @ b)"
    by (metis cut_prefix_iff option.exhaust option.distinct(1))
  moreover have "(\<exists>a b. c # s = a @ sub @ b) \<longleftrightarrow> (\<exists>b. c # s = sub @ b) \<or> (\<exists>a b. s = a @ sub @ b)"
    by (metis append_Cons append_Nil list.inject neq_Nil_conv)
  ultimately show ?case using Cons by simp
qed auto

text \<open>A plain host with a port is split there; the port of the message is the one that was dialled.\<close>

lemma hostPort_plain:
  assumes "set h \<inter> {CHR '':'', CHR ''['', CHR '']''} = {}" "set p \<inter> {CHR '':'', CHR ''['', CHR '']''} = {}" "p \<noteq> ''''"
  shows "hostPort (h @ CHR '':'' # p) = (h, p)"
proof -
  have "takeWhile (\<lambda>x. x \<noteq> CHR '':'') (rev p @ CHR '':'' # rev h) = rev p"
    using assms(2) by (subst takeWhile_append2) auto
  then have "last_index (CHR '':'') (h @ CHR '':'' # p) = Some (length h)"
    by (simp add: last_index_def index_of_def)
  moreover have "hd (h @ CHR '':'' # p) \<noteq> CHR ''[''" using assms(1) by (cases h) auto
  ultimately have "SplitHostPort (h @ CHR '':'' # p) = Some (h, p)"
    using assms by (auto simp: SplitHostPort_def)
  then show ?thesis using assms(3) by (simp add: hostPort_def)
qed

text \<open>An idle timeout of the transport is never reported in its own words.\<close>

lemma Explain_timeout:
  assumes "de_dns err = None" "\<not> tls_problem (de_text err)" "de_timeout err"
    and "\<not> Contains (de_text err) ''connection refused''" "\<not> Contains (de_text err) ''no route to host''"
      "\<not> Contains (de_text err) ''network is unreachable''"
  shows "Explain quote (Some err) brokerAddr = no_response brokerAddr (snd (hostPort brokerAddr))"
  using assms by (simp add: Explain_def isTimeout_def Let_def split: prod.split)

end
