(* ===== verification/Wintun.thy ===== *)
theory Wintun
  imports Prelude
begin

text \<open>
  \<^verbatim>\<open>internal/tunnel\<close>: the TUN devices. The backend for Unix only forwards to a library. The backend for Windows,
  \<^verbatim>\<open>wintun_windows.go\<close>, drives the calls of a driver library: the calls are recorded, and their answers are in the
  steps. One goroutine reads; writers and \<open>Close\<close> hold the mutex for their whole body, a reader only while it
  asks for a packet. A handle is a number, and 0 is no handle.
\<close>

section \<open>Opening\<close>

datatype dll_call =
  CreateAdapter string
| CloseAdapter nat
| StartSession nat nat
| EndSession nat
| GetReadWaitEvent nat
| ReceivePacket nat
| ReleaseRecv nat nat
| AllocateSend nat nat
| SendPacket nat nat bytes

text \<open>Where the goroutine in \<open>Read\<close> stands.\<close>

datatype reader = Asking | HasPacket nat bytes | WaitingEvent | Returned "string + bytes"

record wintun =
  wt_adapter :: nat
  wt_session :: nat
  wt_readEvent :: nat
  wt_closed :: bool
  wt_reader :: reader
  wt_calls :: "dll_call list"

definition wintunRingCapacity :: nat where
  "wintunRingCapacity = 0x400000"

definition wintunOpen :: "string option \<Rightarrow> nat \<Rightarrow> nat \<Rightarrow> nat \<Rightarrow> string \<Rightarrow> dll_call list \<times> wintun option" where
  "wintunOpen load adapter session evt name =
    (if load \<noteq> None then ([], None)
     else if adapter = 0 then ([CreateAdapter name], None)
     else if session = 0 then
       ([CreateAdapter name, StartSession adapter wintunRingCapacity, CloseAdapter adapter], None)
     else
       (let calls = [CreateAdapter name, StartSession adapter wintunRingCapacity, GetReadWaitEvent session] in
        (calls, Some \<lparr>wt_adapter = adapter, wt_session = session, wt_readEvent = evt, wt_closed = False,
                      wt_reader = Returned (Inr []), wt_calls = calls\<rparr>)))"

section \<open>Reading, writing, closing\<close>

definition wt_call :: "dll_call \<Rightarrow> wintun \<Rightarrow> wintun" where
  "wt_call c w = w\<lparr>wt_calls := wt_calls w @ [c]\<rparr>"

text \<open>The driver's answer to a request for a packet.\<close>

datatype receive_answer = Packet nat bytes | NoMoreItems | ReceiveFailed string

text \<open>
  \<open>Read\<close> from the top of its loop to the unlock, and what follows an answer without a packet; then the copy into the
  buffer of \<open>cap\<close> bytes and the release of the packet, without the mutex; then the end of a wait.
\<close>

definition read_ask :: "receive_answer \<Rightarrow> wintun \<Rightarrow> wintun" where
  "read_ask ans w =
    (if wt_reader w \<noteq> Asking then w
     else if wt_closed w then w\<lparr>wt_reader := Returned (Inl ''tun closed'')\<rparr>
     else
       (let w = wt_call (ReceivePacket (wt_session w)) w in
        case ans of
          Packet ptr pkt \<Rightarrow> w\<lparr>wt_reader := HasPacket ptr pkt\<rparr>
        | NoMoreItems \<Rightarrow> w\<lparr>wt_reader := WaitingEvent\<rparr>
        | ReceiveFailed err \<Rightarrow> w\<lparr>wt_reader := Returned (Inl (''WintunReceivePacket: '' @ err))\<rparr>))"

definition read_release :: "nat \<Rightarrow> wintun \<Rightarrow> wintun" where
  "read_release cap w =
    (case wt_reader w of
       HasPacket ptr pkt \<Rightarrow>
         (wt_call (ReleaseRecv (wt_session w) ptr) w)\<lparr>wt_reader := Returned (Inr (take cap pkt))\<rparr>
     | _ \<Rightarrow> w)"

definition read_woken :: "string option \<Rightarrow> wintun \<Rightarrow> wintun" where
  "read_woken err w =
    (if wt_reader w \<noteq> WaitingEvent then w
     else (case err of None \<Rightarrow> w\<lparr>wt_reader := Asking\<rparr> | Some e \<Rightarrow> w\<lparr>wt_reader := Returned (Inl e)\<rparr>))"

definition read_again :: "wintun \<Rightarrow> wintun" where
  "read_again w = (case wt_reader w of Returned _ \<Rightarrow> w\<lparr>wt_reader := Asking\<rparr> | _ \<Rightarrow> w)"

text \<open>\<open>ptr\<close> is the place the driver gives for the packet, 0 for none.\<close>

definition wintun_Write :: "nat \<Rightarrow> bytes \<Rightarrow> wintun \<Rightarrow> (string + nat) \<times> wintun" where
  "wintun_Write ptr p w =
    (if wt_closed w then (Inl ''tun closed'', w)
     else
       (let w = wt_call (AllocateSend (wt_session w) (length p)) w in
        if ptr = 0 then (Inl ''WintunAllocateSendPacket'', w)
        else (Inr (length p), wt_call (SendPacket (wt_session w) ptr p) w)))"

definition wintun_Close :: "wintun \<Rightarrow> wintun" where
  "wintun_Close w =
    (if wt_closed w then w
     else
       (let w = w\<lparr>wt_closed := True\<rparr>;
            w = (if wt_session w \<noteq> 0 then (wt_call (EndSession (wt_session w)) w)\<lparr>wt_session := 0\<rparr> else w)
        in if wt_adapter w \<noteq> 0 then (wt_call (CloseAdapter (wt_adapter w)) w)\<lparr>wt_adapter := 0\<rparr> else w))"

section \<open>The pump\<close>

text \<open>
  \<open>PumpToSender\<close>: the rounds of its loop, each with the context's error, the read and the transport's answer; the
  datagrams that were sent, and the error it returns with, if it does.
\<close>

fun PumpToSender ::
  "(bytes \<Rightarrow> bytes) \<Rightarrow> (string option \<times> (string + bytes) \<times> string option) list \<Rightarrow> bytes list \<times> string option" where
  "PumpToSender encode [] = ([], None)"
| "PumpToSender encode ((ctxErr, rd, sendErr) # rounds) =
    (case ctxErr of
       Some e \<Rightarrow> ([], Some e)
     | None \<Rightarrow>
         (case rd of
            Inl e \<Rightarrow> ([], Some e)
          | Inr pkt \<Rightarrow>
              (case PumpToSender encode rounds of
                 (sent, err) \<Rightarrow> (if pkt \<noteq> [] \<and> sendErr = None then encode pkt # sent else sent, err))))"

section \<open>Runs\<close>

inductive wt_step :: "wintun \<Rightarrow> wintun \<Rightarrow> bool" where
  "wt_step w (read_ask ans w)"
| "wt_step w (read_release cap w)"
| "wt_step w (read_woken err w)"
| "wt_step w (read_again w)"
| "wt_step w (snd (wintun_Write ptr p w))"
| "wt_step w (wintun_Close w)"

definition wt_init :: "wintun \<Rightarrow> bool" where
  "wt_init w = (\<exists>load a s e name calls. wintunOpen load a s e name = (calls, Some w))"

text \<open>The session of a call on the packet ring.\<close>

fun ring_session :: "dll_call \<Rightarrow> nat option" where
  "ring_session (ReceivePacket s) = Some s"
| "ring_session (ReleaseRecv s _) = Some s"
| "ring_session (AllocateSend s _) = Some s"
| "ring_session (SendPacket s _ _) = Some s"
| "ring_session _ = None"

fun is_release :: "dll_call \<Rightarrow> bool" where
  "is_release (ReleaseRecv _ _) = True"
| "is_release _ = False"

text \<open>
  The calls of a device: those of its life, on its session; then, once closed, the end of session and adapter; then at
  most the release of the packet that a reader held, on session 0.
\<close>

definition life_ok :: "nat \<Rightarrow> nat \<Rightarrow> dll_call list \<Rightarrow> bool" where
  "life_ok s a calls \<longleftrightarrow> s \<noteq> 0 \<and> a \<noteq> 0 \<and> (\<forall>c \<in> set calls. ring_session c \<in> {None, Some s}) \<and>
     EndSession s \<notin> set calls \<and> CloseAdapter a \<notin> set calls"

definition late_ok :: "reader \<Rightarrow> dll_call list \<Rightarrow> bool" where
  "late_ok rd rel \<longleftrightarrow> rel = [] \<or> (\<exists>ptr. rel = [ReleaseRecv 0 ptr]) \<and> (\<forall>ptr pkt. rd \<noteq> HasPacket ptr pkt)"

definition wt_ok :: "wintun \<Rightarrow> bool" where
  "wt_ok w \<longleftrightarrow>
    (if wt_closed w then
       wt_session w = 0 \<and> wt_adapter w = 0 \<and>
       (\<exists>pre s a rel. wt_calls w = pre @ [EndSession s, CloseAdapter a] @ rel \<and> life_ok s a pre \<and> late_ok (wt_reader w) rel)
     else life_ok (wt_session w) (wt_adapter w) (wt_calls w))"

lemma wt_ok_init: "wt_init w \<Longrightarrow> wt_ok w"
  by (auto simp: wt_init_def wintunOpen_def wt_ok_def life_ok_def Let_def split: if_splits)

lemma wt_ok_Close:
  assumes ok: "wt_ok w"
  shows "wt_ok (wintun_Close w)"
proof (cases "wt_closed w")
  case False
  with ok have life: "life_ok (wt_session w) (wt_adapter w) (wt_calls w)" by (simp add: wt_ok_def)
  then have "wt_calls (wintun_Close w) = wt_calls w @ [EndSession (wt_session w), CloseAdapter (wt_adapter w)] @ []"
    "wt_closed (wintun_Close w)" "wt_session (wintun_Close w) = 0" "wt_adapter (wintun_Close w) = 0"
    using False by (simp_all add: life_ok_def wintun_Close_def wt_call_def Let_def)
  moreover have "late_ok rd []" for rd by (simp add: late_ok_def)
  ultimately show ?thesis using life unfolding wt_ok_def by metis
qed (simp add: wintun_Close_def ok)

lemma wt_ok_Write: "wt_ok w \<Longrightarrow> wt_ok (snd (wintun_Write ptr p w))"
  by (cases "wt_closed w") (simp_all add: wintun_Write_def wt_ok_def life_ok_def wt_call_def Let_def)

text \<open>A step of the reader that leaves the calls alone and takes no packet.\<close>

lemma wt_ok_still:
  assumes "wt_ok w" "wt_closed w' = wt_closed w" "wt_session w' = wt_session w" "wt_adapter w' = wt_adapter w"
    "wt_calls w' = wt_calls w" "\<And>ptr pkt. wt_reader w' \<noteq> HasPacket ptr pkt"
  shows "wt_ok w'"
proof -
  have "late_ok (wt_reader w) rel \<Longrightarrow> late_ok (wt_reader w') rel" for rel using assms(6) by (auto simp: late_ok_def)
  with assms show ?thesis unfolding wt_ok_def by metis
qed

lemma wt_ok_reader:
  assumes "wt_ok w"
  shows "wt_ok (read_ask ans w)" "wt_ok (read_woken err w)" "wt_ok (read_again w)"
proof -
  show "wt_ok (read_ask ans w)"
  proof (cases "wt_closed w")
    case True
    then show ?thesis using assms by (auto simp: read_ask_def intro: wt_ok_still)
  next
    case False
    then show ?thesis using assms
      by (simp add: read_ask_def wt_ok_def life_ok_def wt_call_def Let_def split: receive_answer.split)
  qed
  show "wt_ok (read_woken err w)" "wt_ok (read_again w)"
    using assms by (auto simp: read_woken_def read_again_def intro: wt_ok_still split: option.split reader.split)
qed

lemma wt_ok_release:
  assumes ok: "wt_ok w"
  shows "wt_ok (read_release cap w)"
proof (cases "wt_reader w")
  case (HasPacket ptr pkt)
  then have new: "wt_calls (read_release cap w) = wt_calls w @ [ReleaseRecv (wt_session w) ptr]"
    "wt_reader (read_release cap w) = Returned (Inr (take cap pkt))"
    "wt_closed (read_release cap w) = wt_closed w" "wt_session (read_release cap w) = wt_session w"
    "wt_adapter (read_release cap w) = wt_adapter w"
    by (simp_all add: read_release_def wt_call_def)
  show ?thesis
  proof (cases "wt_closed w")
    case True
    with ok HasPacket obtain pre s a where "wt_calls w = pre @ [EndSession s, CloseAdapter a]" "life_ok s a pre"
      "wt_session w = 0" "wt_adapter w = 0"
      by (auto simp: wt_ok_def late_ok_def)
    moreover have "late_ok (Returned r) [ReleaseRecv 0 ptr]" for r by (simp add: late_ok_def)
    ultimately show ?thesis using True unfolding wt_ok_def new by (metis append_assoc)
  next
    case False
    with ok show ?thesis unfolding wt_ok_def new by (simp add: life_ok_def)
  qed
qed (use ok in \<open>simp_all add: read_release_def\<close>)

interpretation wintun_calls: inductive_invariant wt_init wt_step wt_ok
  by unfold_locales
    (auto simp: wt_ok_init elim!: wt_step.cases intro: wt_ok_Close wt_ok_Write wt_ok_reader wt_ok_release)

text \<open>
  While the device is open, all calls on the packet ring are on its session. After \<open>Close\<close>, the session and the
  adapter have been given back once, and no packet is asked for or sent any more; but the release of a packet that
  a reader has just taken is not under the mutex, and may follow on session 0.
\<close>

lemma wintun_session_use:
  assumes "reach wt_init wt_step w"
  shows "if wt_closed w
    then \<exists>pre s a rel. wt_calls w = pre @ [EndSession s, CloseAdapter a] @ rel \<and> life_ok s a pre \<and>
      rel \<in> insert [] (range (\<lambda>ptr. [ReleaseRecv 0 ptr]))
    else life_ok (wt_session w) (wt_adapter w) (wt_calls w)"
proof -
  have "late_ok rd rel \<Longrightarrow> rel \<in> insert [] (range (\<lambda>ptr. [ReleaseRecv 0 ptr]))" for rd rel by (auto simp: late_ok_def)
  then show ?thesis using wintun_calls.reach_holds [OF assms] unfolding wt_ok_def by metis
qed

text \<open>And such a late release does happen.\<close>

lemma wintun_late_release:
  "\<exists>w. reach wt_init wt_step w \<and> wt_calls w =
    [CreateAdapter ''Revquic'', StartSession 1 wintunRingCapacity, GetReadWaitEvent 2, ReceivePacket 2, EndSession 2,
     CloseAdapter 1, ReleaseRecv 0 9]"
proof -
  define w0 where "w0 = the (snd (wintunOpen None 1 2 3 ''Revquic''))"
  have "wt_init w0" unfolding wt_init_def by (rule exI [of _ None], rule exI [of _ 1], rule exI [of _ 2], rule exI [of _ 3])
    (simp add: w0_def wintunOpen_def Let_def)
  then have "reach wt_init wt_step w0" by (rule reach_start)
  then have "reach wt_init wt_step (read_again w0)" by (rule reach_step) (rule wt_step.intros(4))
  then have "reach wt_init wt_step (read_ask (Packet 9 [1]) (read_again w0))" by (rule reach_step) (rule wt_step.intros(1))
  then have "reach wt_init wt_step (wintun_Close (read_ask (Packet 9 [1]) (read_again w0)))"
    by (rule reach_step) (rule wt_step.intros(6))
  then have "reach wt_init wt_step (read_release 65535 (wintun_Close (read_ask (Packet 9 [1]) (read_again w0))))"
    by (rule reach_step) (rule wt_step.intros(2))
  moreover have "wt_calls (read_release 65535 (wintun_Close (read_ask (Packet 9 [1]) (read_again w0)))) =
    [CreateAdapter ''Revquic'', StartSession 1 wintunRingCapacity, GetReadWaitEvent 2, ReceivePacket 2, EndSession 2,
     CloseAdapter 1, ReleaseRecv 0 9]"
    by (simp add: w0_def wintunOpen_def read_again_def read_ask_def wintun_Close_def read_release_def wt_call_def Let_def)
  ultimately show ?thesis by blast
qed

text \<open>The pump sends the packets of the rounds before the first error, in order, but for those the transport refuses.\<close>

lemma PumpToSender_sends:
  "fst (PumpToSender encode rounds) =
    map (\<lambda>(_, rd, _). encode (projr rd))
      (filter (\<lambda>(_, rd, err). rd \<noteq> Inr [] \<and> err = None)
        (takeWhile (\<lambda>(ctx, rd, _). ctx = None \<and> \<not> isl rd) rounds))"
  by (induction encode rounds rule: PumpToSender.induct) (auto split: option.split sum.split prod.split)

end
