(* ===== verification/Spec2Isabelle.thy ===== *)
theory Spec2Isabelle
  imports Tunnel AdminRuns Socks Conf Shutdown SysStat QosSql Supervisor ExitMain BrokerMain LiveFeed NetCfgOther Explain
    Wintun
begin

text \<open>
  A verification library for Revquic, a reverse-connected VPN over QUIC. Names of files are relative to \<^verbatim>\<open>src/\<close>.

  \<^bold>\<open>The program.\<close> Exits (\<^verbatim>\<open>cmd/revquic-exit\<close>) dial a broker (\<^verbatim>\<open>cmd/revquic-broker\<close>) and register for a region. A
  client (\<^verbatim>\<open>cmd/revquic-client\<close>) connects to the broker, which authenticates it, chooses an exit, leases a session
  id and a VPN address, announces the session to both ends and relays their datagrams. Client and exit may
  then negotiate a direct path and move the session onto it. A dropped session is parked for a while and can be
  resumed. An HTTP server on the broker manages users and shows nodes, sessions and quality of service.

  \<^bold>\<open>How the code is modelled.\<close> A struct is a record, an enumeration a datatype, a fixed-width integer a word, a
  map an association list (\<open>gomap\<close>, with \<open>mget\<close>, \<open>mput\<close> and \<open>mdel\<close>), \<^verbatim>\<open>float64\<close> a rational, a time or duration a
  number of nanoseconds. An operation is a function from its arguments and the state to its result and the new
  state; errors are values. The clock, random draws, results of the operating system and of libraries (QUIC, ICE,
  JSON, SQL, HMAC, RSA) are arguments, mostly collected in an environment record (\<open>broker_env\<close>, \<open>exit_env\<close>,
  \<open>client_env\<close>, \<open>socks_env\<close>, \<open>main_env\<close>, \<open>pion_lib\<close>). A command of the host is run by an argument \<open>ex\<close> on a state of
  the host that is a type variable. What a program writes to connections, the TUN device or the host is appended to a
  list of effects in its state. Concurrency is interleaving: the broker's handlers are cut where they release the
  lock (\<open>sys_step\<close>), and each activation of a goroutine of the exit and of the client is one event of a run
  (\<open>exit_handle\<close>, \<open>client_handle\<close>). All definitions that model code are executable.

  \<^bold>\<open>Theories.\<close>
  \<^item> \<open>Prelude\<close>, \<open>NetIp\<close>, \<open>GoStrings\<close>, \<open>Base64\<close>: the model's types, maps, big-endian words, the invariant interface
    \<open>inductive_invariant\<close>, and the parts of Go's \<^verbatim>\<open>netip\<close>, \<^verbatim>\<open>strings\<close>, \<^verbatim>\<open>strconv\<close> and \<^verbatim>\<open>base64\<close> the program uses.
  \<^item> \<open>Proto\<close>: messages, framing and the datagram codec (\<^verbatim>\<open>internal/proto\<close>). Framed messages are read back in
    order, torn or oversized frames are refused.
  \<^item> \<open>IpPool\<close>, \<open>Lb\<close>, \<open>RateLimit\<close>: the address pool, exit selection and the token bucket (\<^verbatim>\<open>internal/ippool\<close>,
    \<^verbatim>\<open>lb\<close>, \<^verbatim>\<open>ratelimit\<close>). Allocation is exact and leases stay disjoint; each strategy chooses what it promises; the
    bytes let through are bounded.
  \<^item> \<open>DirectPath\<close>, \<open>SessionPath\<close>, \<open>IceWire\<close>, \<open>Pion\<close>, \<open>Telemetry\<close>: NAT decision, state machine, session data path,
    negotiation, the adapter to the ICE library and reports (\<^verbatim>\<open>internal/directpath\<close>, \<^verbatim>\<open>session\<close>, \<^verbatim>\<open>icewire\<close>, \<^verbatim>\<open>directlink\<close>, \<^verbatim>\<open>ice\<close>, \<^verbatim>\<open>telemetry\<close>).
    The installed path follows the state; a race of two operations on it is shown.
  \<^item> \<open>Qos\<close>, \<open>QosStore\<close>, \<open>QosSql\<close>: the tracker and its history in memory, in a file and in SQLite (\<^verbatim>\<open>internal/qos\<close>).
    The history is the recent log, also across a restart; pruning keeps the newest rows.
  \<^item> \<open>AdminApi\<close>, \<open>UserStore\<close>, \<open>TurnCred\<close>, \<open>Oidc\<close>: event bus, users, TURN credentials and OIDC tokens
    (\<^verbatim>\<open>internal/adminapi\<close>, \<^verbatim>\<open>events\<close>, \<^verbatim>\<open>userstore\<close>, \<^verbatim>\<open>turncred\<close>, \<^verbatim>\<open>oidc\<close>). Who is admitted is characterised exactly; the
    backends of the user store are interpretations of one interface.
  \<^item> \<open>Leases\<close>, \<open>Broker\<close>, \<open>BrokerSys\<close>, \<open>BrokerRuns\<close>, \<open>BrokerSeq\<close>: the broker (\<^verbatim>\<open>cmd/revquic-broker/main.go\<close>). \<open>Leases\<close> is
    the abstract specification of ids and addresses and the interface \<open>simulation\<close>; \<open>BrokerSys\<close> proves that every
    interleaved run refines it; \<open>BrokerRuns\<close> and \<open>BrokerSeq\<close> hold the consequences: disjoint sessions, exact load
    counters, expiry, sound admission, resume, relaying, the loss of an exit.
  \<^item> \<open>ExitNode\<close>, \<open>ExitRuns\<close>, \<open>ExitProps\<close>: the exit (\<^verbatim>\<open>cmd/revquic-exit\<close>). Its state stays well formed under every
    event; clients are isolated from each other while the broker keeps its promise; the reconnect loop terminates.
  \<^item> \<open>Client\<close>, \<open>ClientRuns\<close>: the client (\<^verbatim>\<open>cmd/revquic-client\<close>). The reconnect loop, the current session and the
    goroutines of old connections agree, so a packet only ever goes out for the current session.
  \<^item> \<open>TunnelInv\<close>, \<open>Tunnel\<close>: the three programs together. After a connect the tunnel works in both directions, and
    only for the leased address.
  \<^item> \<open>PwHash\<close>, \<open>AdminStore\<close>, \<open>AdminServer\<close>, \<open>AdminRuns\<close>: the admin API (\<^verbatim>\<open>internal/pwhash\<close>, \<^verbatim>\<open>adminstore\<close>, \<^verbatim>\<open>auth\<close>,
    \<^verbatim>\<open>adminserver\<close>). Protected requests are served exactly with the bootstrap token or an unexpired login.
  \<^item> \<open>LiveFeed\<close>: the event stream of the admin API. It carries the snapshot and then every event published on the bus.
  \<^item> \<open>Pki\<close>, \<open>Quicx\<close>, \<open>Explain\<close>: certificates, TLS and QUIC configurations and the texts for a failed dial
    (\<^verbatim>\<open>internal/pki\<close>, \<^verbatim>\<open>cmd/revquic-certgen\<close>, \<^verbatim>\<open>internal/quicx\<close>). With the certificates of one run of the command
    exactly the intended parties complete a handshake. A key is a number and a signature the number of its key; chains
    are built and checked as \<^verbatim>\<open>crypto/x509\<close> and \<^verbatim>\<open>crypto/tls\<close> document.
  \<^item> \<open>NetCfg\<close>, \<open>NetCfgOther\<close>, \<open>Wintun\<close>: the commands that configure interfaces, routes and the firewall on Linux, and on
    macOS and Windows, and the TUN devices (\<^verbatim>\<open>internal/netcfg\<close>, \<^verbatim>\<open>internal/tunnel\<close>). The calls to the Windows driver use
    a live session, but for one late release.
  \<^item> \<open>Flags\<close>, \<open>Logx\<close>: Go's \<^verbatim>\<open>flag\<close> package and \<^verbatim>\<open>internal/logx\<close>.
  \<^item> \<open>ClientMain\<close>, \<open>Supervisor\<close>, \<open>ExitMain\<close>, \<open>BrokerMain\<close>: the three \<open>main\<close> functions from the command line to the loops
    of the models above. A full tunnel restores the host's routes through its supervisor, unless an interrupt of the
    terminal ends the supervisor too; the firewall of an isolating exit drops what its tenants send to each other
    or to private networks; the stores, TLS and HTTP of the broker follow from its flags.
  \<^item> \<open>Socks\<close>, \<open>Conf\<close>, \<open>Shutdown\<close>, \<open>SysStat\<close>: the SOCKS proxy, the configuration file, the signal loop and the host
    statistics (\<^verbatim>\<open>internal/socks\<close>, \<^verbatim>\<open>conf\<close>, \<^verbatim>\<open>shutdown\<close>, \<^verbatim>\<open>sysstat\<close>). The proxy's handshake is characterised exactly.

  \<^bold>\<open>Interfaces.\<close> A locale states what one part relies on and is interpreted on the model's definitions:
  \<open>inductive_invariant\<close> (the lease specification, the broker, the exit twice, the client twice, the Windows driver), \<open>simulation\<close> (the broker
  against \<open>Leases\<close>), \<open>datagram_codec\<close>, \<open>base64_alphabet\<close>, \<open>user_registry\<close> and \<open>admin_registry\<close> (every backend), and the
  selector of exits.

  \<^bold>\<open>Bounds and assumptions.\<close> The 64-bit session counter does not wrap (the two steps that draw an id exclude it).
  A handler activation reads the clock once. Text is ASCII. Session ids and time stamps fit their types until
  the year 2262. No model uses fuel: loops are structural or have a termination proof, and the exit's reconnect
  loop, which may run forever, is a partial function whose termination is characterised exactly. The isolation
  of the exit and the tunnel assume that the broker starts no session on an address the exit still holds; that the
  broker can break this promise, and what follows then, is a theorem of \<open>ExitProps\<close>. The tunnel theorem follows
  datagrams that the transport delivers, without rate limits. What \<^verbatim>\<open>iptables\<close> and \<^verbatim>\<open>ip\<close> do with a command are the
  hypotheses \<open>iptables_doc\<close> and \<open>iproute_doc\<close> of \<open>NetCfg\<close>, after their manuals; the witnesses satisfy them with a list of
  rules and a routing table. That nobody signs with the authority's key outside the command is the hypothesis
  \<open>unforged\<close> of \<open>Quicx\<close>.

  \<^bold>\<open>Not modelled.\<close> The dashboard (browser code), the HTML and the HTTP server of the exit's status page, containers and
  smoke tests, and the texts of JSON, PEM and SQL, which belong to their libraries; the listeners and accept loops,
  the two copy loops and socket options of the SOCKS proxy, the deadlines of connections, the client's sampler of host
  statistics and log lines, which only pass on what a library or the operating system gives; and the Unix TUN
  device, which forwards to a library. The tracker in the broker's state writes on the file history; the SQLite
  history is a model of its own, which the start-up loads.
\<close>

end
